theory Spec2Isabelle
  imports Main
begin

section \<open>Data model\<close>

text \<open>
  The store keeps every timestamp as the ISO string produced by \<open>toISOString\<close> and compares
  timestamps after \<open>new Date(...)\<close>. An instant is modelled by its epoch value in
  milliseconds; all instants are taken to lie inside the range of \<open>Date\<close>, so that
  \<open>toISOString\<close> does not raise. Durations, buffers and quantities are JavaScript numbers in
  the source; they are modelled as integers.

  Records carry the fields that the modelled guards and updates read or write; display
  fields (contact, notes, custom fields, calendar reference, creation and update stamps) are
  left out.
\<close>

type_synonym instant = int

datatype BookingStatus = pending | confirmed | completed | no_show | cancelled

record Booking =
  b_id :: string
  b_workspaceId :: string
  b_serviceId :: string
  b_startsAt :: instant
  b_endsAt :: instant
  b_status :: BookingStatus
  b_deletedAt :: "instant option"

record ServiceInventoryRule =
  itemId :: string
  quantity :: int

record Service =
  s_id :: string
  s_workspaceId :: string
  s_durationMin :: int
  s_inventoryRules :: "ServiceInventoryRule list"
  s_bookingFormTemplateId :: "string option"
  s_isActive :: bool

record InventoryItem =
  i_id :: string
  i_workspaceId :: string
  i_name :: string
  i_unit :: string
  i_quantityOnHand :: int
  i_lowStockThreshold :: int

datatype Severity = info | warning | critical

text \<open>Alert messages are template strings in the source; the model keeps the template's
  name and its arguments.\<close>

datatype AlertMessage =
    LowStockMessage string int string
  | FormOverdueMessage string
  | JobFailedMessage string string

record Alert =
  a_workspaceId :: string
  a_type :: string
  a_severity :: Severity
  a_message :: AlertMessage

text \<open>Event payloads are small object literals; one constructor per literal shape.\<close>

datatype Payload =
    LowStockPayload int int
  | BookingCreatedPayload instant string
  | StatusPayload BookingStatus
  | CancelledPayload BookingStatus instant
  | RescheduledPayload instant instant
  | FormRequestedPayload string
  | ReminderDuePayload instant
  | FormOverduePayload instant

text \<open>\<open>eventHash\<close> is the SHA-256 digest of the JSON text of event type, entity type, entity
  id and payload. The digest is modelled by the hashed tuple itself (no collisions).\<close>

type_synonym EventHash = "string \<times> string \<times> string \<times> Payload"

record AutomationEvent =
  e_workspaceId :: string
  e_eventType :: string
  e_entityType :: string
  e_entityId :: string
  e_payload :: Payload
  e_eventHash :: EventHash

datatype JobType = booking_reminder | form_overdue_check
datatype JobStatus = queued | running | job_done | job_failed
datatype JobPriority = high | normal | low

record ScheduledJob =
  j_id :: string
  j_workspaceId :: string
  j_jobType :: JobType
  j_runAt :: instant
  j_status :: JobStatus
  j_priority :: JobPriority
  j_payloadId :: string
  j_attempts :: int
  j_lastError :: "string option"
  j_lockedAt :: "instant option"
  j_lockOwner :: "string option"

datatype FormRequestStatus = fr_pending | fr_completed | fr_overdue

record FormTemplate =
  ft_id :: string
  ft_workspaceId :: string

record FormRequest =
  fr_id :: string
  fr_workspaceId :: string
  fr_bookingId :: string
  fr_templateId :: string
  fr_status :: FormRequestStatus
  fr_dueAt :: instant
  fr_publicToken :: string
  fr_createdAt :: instant

text \<open>The response snapshot of a booking creation is \<open>{ booking, formRequest }\<close>. The
  \<open>booking\<close> member is the very object that was pushed onto \<open>state.bookings\<close>; bookings are
  only ever appended to that array, so the reference is modelled by the position of the
  booking in the list. The \<open>formRequest\<close> member is a fresh object literal holding copies.\<close>

record FormRequestView =
  v_id :: string
  v_status :: FormRequestStatus
  v_publicToken :: string
  v_dueAt :: instant

record Snapshot =
  snap_booking :: nat
  snap_formRequest :: "FormRequestView option"

record IdempotencyKey =
  ik_workspaceId :: string
  ik_key :: string
  ik_method :: string
  ik_path :: string
  ik_requestHash :: string
  ik_responseSnapshot :: Snapshot
  ik_expiresAt :: instant

datatype RuleType = weekly | date_override | date_block

text \<open>A time of day that has passed \<open>HHMM_PATTERN\<close> (\<open>/^\d{2}:\d{2}$/\<close>) is two two-digit
  numbers; the pattern does not bound them by 23 and 59.\<close>

datatype HHMM = HHMM (hh: nat) (mm: nat)

record AvailabilityRule =
  r_id :: string
  r_workspaceId :: string
  r_serviceId :: string
  r_ruleType :: "RuleType option"
  r_weekday :: "int option"
  r_date :: "string option"
  r_startTime :: "HHMM option"
  r_endTime :: "HHMM option"
  r_bufferMin :: "int option"
  r_slotIntervalMin :: "int option"
  r_isClosedAllDay :: "bool option"

record AppState =
  services :: "Service list"
  availabilityRules :: "AvailabilityRule list"
  bookings :: "Booking list"
  formTemplates :: "FormTemplate list"
  formRequests :: "FormRequest list"
  inventoryItems :: "InventoryItem list"
  automationEvents :: "AutomationEvent list"
  scheduledJobs :: "ScheduledJob list"
  idempotencyKeys :: "IdempotencyKey list"
  alerts :: "Alert list"

definition emptyState :: AppState where
  "emptyState = \<lparr> services = [], availabilityRules = [], bookings = [], formTemplates = [],
     formRequests = [], inventoryItems = [], automationEvents = [], scheduledJobs = [],
     idempotencyKeys = [], alerts = [] \<rparr>"

section \<open>Core helpers (\<open>utils/core.ts\<close>)\<close>

definition addMinutes :: "instant \<Rightarrow> int \<Rightarrow> instant" where
  "addMinutes dateIso minutes = dateIso + minutes * 60000"

definition addHours :: "instant \<Rightarrow> int \<Rightarrow> instant" where
  "addHours dateIso hours = addMinutes dateIso (hours * 60)"

definition addDays :: "instant \<Rightarrow> int \<Rightarrow> instant" where
  "addDays dateIso days = dateIso + days * 86400000"

definition overlap :: "instant \<Rightarrow> instant \<Rightarrow> instant \<Rightarrow> instant \<Rightarrow> bool" where
  "overlap startA endA startB endB \<longleftrightarrow> startA < endB \<and> startB < endA"

text \<open>JavaScript truthiness of an optional string: \<open>undefined\<close> and the empty string are
  falsy.\<close>

definition truthy :: "string option \<Rightarrow> bool" where
  "truthy v = (case v of None \<Rightarrow> False | Some s \<Rightarrow> s \<noteq> [])"

text \<open>An object found by \<open>Array.prototype.find\<close> and then assigned to is the first element
  that satisfies the predicate; the assignment is an update of that element in place.\<close>

fun updateFirst :: "('a \<Rightarrow> bool) \<Rightarrow> ('a \<Rightarrow> 'a) \<Rightarrow> 'a list \<Rightarrow> 'a list" where
  "updateFirst P f [] = []"
| "updateFirst P f (x # xs) = (if P x then f x # xs else x # updateFirst P f xs)"

section \<open>Store operations (\<open>utils/store\<close>)\<close>

definition emitEvent ::
  "string \<Rightarrow> string \<Rightarrow> string \<Rightarrow> string \<Rightarrow> Payload \<Rightarrow> AppState \<Rightarrow> AppState" where
  "emitEvent workspaceId eventType entityType entityId payload st =
     (let eventHash = (eventType, entityType, entityId, payload) in
      case find (\<lambda>event. e_workspaceId event = workspaceId \<and> e_eventType event = eventType \<and>
                   e_entityType event = entityType \<and> e_entityId event = entityId \<and>
                   e_eventHash event = eventHash) (automationEvents st) of
        Some existing \<Rightarrow> st
      | None \<Rightarrow>
          st\<lparr>automationEvents := automationEvents st @
            [\<lparr>e_workspaceId = workspaceId, e_eventType = eventType, e_entityType = entityType,
              e_entityId = entityId, e_payload = payload, e_eventHash = eventHash\<rparr>]\<rparr>)"

definition createAlert :: "string \<Rightarrow> string \<Rightarrow> Severity \<Rightarrow> AlertMessage \<Rightarrow> AppState \<Rightarrow> AppState" where
  "createAlert workspaceId type severity message st =
     st\<lparr>alerts := alerts st @
       [\<lparr>a_workspaceId = workspaceId, a_type = type, a_severity = severity,
         a_message = message\<rparr>]\<rparr>"

text \<open>\<open>createId\<close> is \<open>crypto.randomUUID()\<close>; the identifier it returns is an argument of the
  model.\<close>

definition enqueueJob ::
  "string \<Rightarrow> string \<Rightarrow> JobType \<Rightarrow> instant \<Rightarrow> string \<Rightarrow> JobPriority option \<Rightarrow> AppState \<Rightarrow> AppState" where
  "enqueueJob newId workspaceId jobType runAt payloadId priority st =
     st\<lparr>scheduledJobs := scheduledJobs st @
       [\<lparr>j_id = newId, j_workspaceId = workspaceId, j_jobType = jobType, j_runAt = runAt,
         j_status = queued,
         j_priority = (case priority of None \<Rightarrow> normal | Some p \<Rightarrow> p),
         j_payloadId = payloadId, j_attempts = 0, j_lastError = None, j_lockedAt = None,
         j_lockOwner = None\<rparr>]\<rparr>"

definition findIdempotency ::
  "AppState \<Rightarrow> string \<Rightarrow> string \<Rightarrow> string \<Rightarrow> string \<Rightarrow> IdempotencyKey option" where
  "findIdempotency st workspaceId key method path =
     find (\<lambda>item. ik_workspaceId item = workspaceId \<and> ik_key item = key \<and>
             ik_method item = method \<and> ik_path item = path) (idempotencyKeys st)"

definition saveIdempotency ::
  "instant \<Rightarrow> string \<Rightarrow> string \<Rightarrow> string \<Rightarrow> string \<Rightarrow> string \<Rightarrow> Snapshot \<Rightarrow> AppState \<Rightarrow> AppState" where
  "saveIdempotency now workspaceId key method path requestHash responseSnapshot st =
     st\<lparr>idempotencyKeys := idempotencyKeys st @
       [\<lparr>ik_workspaceId = workspaceId, ik_key = key, ik_method = method, ik_path = path,
         ik_requestHash = requestHash, ik_responseSnapshot = responseSnapshot,
         ik_expiresAt = addDays now 1\<rparr>]\<rparr>"

text \<open>\<open>cleanupExpiredRecords\<close> walks the array backwards and splices every expired record
  out; what remains are the unexpired records in their order. Sessions are not modelled.\<close>

definition cleanupExpiredRecords :: "instant \<Rightarrow> AppState \<Rightarrow> AppState" where
  "cleanupExpiredRecords now st =
     st\<lparr>idempotencyKeys := filter (\<lambda>item. \<not> ik_expiresAt item \<le> now) (idempotencyKeys st)\<rparr>"

section \<open>Booking conflict guard (\<open>utils/domain.ts\<close>)\<close>

definition isBookingOverlapping ::
  "AppState \<Rightarrow> string \<Rightarrow> instant \<Rightarrow> instant \<Rightarrow> string option \<Rightarrow> bool" where
  "isBookingOverlapping st workspaceId startsAt endsAt excludeBookingId =
     list_ex (\<lambda>booking.
        if b_workspaceId booking \<noteq> workspaceId then False
        else if truthy excludeBookingId \<and> Some (b_id booking) = excludeBookingId then False
        else if b_status booking = cancelled \<or> b_status booking = no_show then False
        else startsAt < b_endsAt booking \<and> b_startsAt booking < endsAt)
       (bookings st)"

section \<open>Inventory consumption (\<open>applyInventoryOnBookingCompleted\<close>)\<close>

datatype InventoryError = BookingNotFound | ServiceNotFound | InsufficientInventory string

definition findItem :: "InventoryItem list \<Rightarrow> string \<Rightarrow> ServiceInventoryRule \<Rightarrow> InventoryItem option" where
  "findItem items workspaceId rule =
     find (\<lambda>inventoryItem. i_workspaceId inventoryItem = workspaceId \<and>
                            i_id inventoryItem = itemId rule) items"

text \<open>First loop: the name of the first item that is short, if any. Nothing is written.\<close>

fun checkInventory :: "InventoryItem list \<Rightarrow> string \<Rightarrow> ServiceInventoryRule list \<Rightarrow> string option" where
  "checkInventory items workspaceId [] = None"
| "checkInventory items workspaceId (rule # rules) =
     (case findItem items workspaceId rule of
        None \<Rightarrow> checkInventory items workspaceId rules
      | Some item \<Rightarrow>
          if i_quantityOnHand item < quantity rule then Some (i_name item)
          else checkInventory items workspaceId rules)"

text \<open>Body of the second loop, for one consumption entry.\<close>

definition deductRule :: "string \<Rightarrow> ServiceInventoryRule \<Rightarrow> AppState \<Rightarrow> AppState" where
  "deductRule workspaceId rule st =
     (case findItem (inventoryItems st) workspaceId rule of
        None \<Rightarrow> st
      | Some item \<Rightarrow>
          let newQuantity = i_quantityOnHand item - quantity rule;
              st1 = st\<lparr>inventoryItems :=
                      updateFirst (\<lambda>inventoryItem. i_workspaceId inventoryItem = workspaceId \<and>
                                                     i_id inventoryItem = itemId rule)
                                  (\<lambda>inventoryItem. inventoryItem\<lparr>i_quantityOnHand := newQuantity\<rparr>)
                                  (inventoryItems st)\<rparr>
          in if newQuantity \<le> i_lowStockThreshold item
             then emitEvent workspaceId ''inventory.low_stock'' ''inventory_item'' (i_id item)
                    (LowStockPayload newQuantity (i_lowStockThreshold item))
                    (createAlert workspaceId ''inventory.low_stock'' warning
                       (LowStockMessage (i_name item) newQuantity (i_unit item)) st1)
             else st1)"

fun deductInventory :: "string \<Rightarrow> ServiceInventoryRule list \<Rightarrow> AppState \<Rightarrow> AppState" where
  "deductInventory workspaceId [] st = st"
| "deductInventory workspaceId (rule # rules) st =
     deductInventory workspaceId rules (deductRule workspaceId rule st)"

definition applyInventoryOnBookingCompleted ::
  "string \<Rightarrow> string \<Rightarrow> AppState \<Rightarrow> InventoryError option \<times> AppState" where
  "applyInventoryOnBookingCompleted workspaceId bookingId st =
     (case find (\<lambda>item. b_id item = bookingId \<and> b_workspaceId item = workspaceId) (bookings st) of
        None \<Rightarrow> (Some BookingNotFound, st)
      | Some booking \<Rightarrow>
         (case find (\<lambda>item. s_id item = b_serviceId booking \<and> s_workspaceId item = workspaceId)
                    (services st) of
            None \<Rightarrow> (Some ServiceNotFound, st)
          | Some service \<Rightarrow>
             (case checkInventory (inventoryItems st) workspaceId (s_inventoryRules service) of
                Some name \<Rightarrow> (Some (InsufficientInventory name), st)
              | None \<Rightarrow> (None, deductInventory workspaceId (s_inventoryRules service) st))))"

section \<open>Booking lifecycle: status transition and soft delete\<close>

datatype ApiError =
    NotFound string
  | BadRequest string
  | InvalidTransition BookingStatus BookingStatus
  | InventoryConflict InventoryError
  | Conflict string

fun httpStatus :: "ApiError \<Rightarrow> nat" where
  "httpStatus (NotFound m) = 404"
| "httpStatus (BadRequest m) = 400"
| "httpStatus (InvalidTransition a b) = 400"
| "httpStatus (InventoryConflict e) = 409"
| "httpStatus (Conflict m) = 409"

text \<open>The text of a status, as it is stored and as it appears in messages.\<close>

fun bookingStatusName :: "BookingStatus \<Rightarrow> string" where
  "bookingStatusName pending = ''pending''"
| "bookingStatusName confirmed = ''confirmed''"
| "bookingStatusName completed = ''completed''"
| "bookingStatusName no_show = ''no_show''"
| "bookingStatusName cancelled = ''cancelled''"

definition parseBookingStatus :: "string \<Rightarrow> BookingStatus option" where
  "parseBookingStatus v =
     (if v = ''pending'' then Some pending
      else if v = ''confirmed'' then Some confirmed
      else if v = ''completed'' then Some completed
      else if v = ''no_show'' then Some no_show
      else if v = ''cancelled'' then Some cancelled
      else None)"

fun transitions :: "BookingStatus \<Rightarrow> BookingStatus list" where
  "transitions pending = [confirmed, cancelled, no_show]"
| "transitions confirmed = [completed, cancelled, no_show]"
| "transitions completed = []"
| "transitions no_show = []"
| "transitions cancelled = []"

text \<open>The routes look a booking up by id and workspace among the bookings that are not
  soft-deleted.\<close>

definition isLiveBooking :: "string \<Rightarrow> string \<Rightarrow> Booking \<Rightarrow> bool" where
  "isLiveBooking workspaceId bookingId item \<longleftrightarrow>
     b_id item = bookingId \<and> b_workspaceId item = workspaceId \<and> b_deletedAt item = None"

definition statusEventType :: "BookingStatus \<Rightarrow> string" where
  "statusEventType targetStatus =
     (if targetStatus = confirmed then ''booking.confirmed''
      else if targetStatus = completed then ''booking.completed''
      else ''booking.updated'')"

text \<open>\<open>PATCH /bookings/:id/status\<close>. The calendar synchronisation that follows the write is
  an external collaborator and touches only the calendar reference.\<close>

definition patchBookingStatus ::
  "string \<Rightarrow> string \<Rightarrow> string \<Rightarrow> AppState \<Rightarrow> (ApiError + Booking) \<times> AppState" where
  "patchBookingStatus workspaceId bookingId rawStatus st =
     (case find (isLiveBooking workspaceId bookingId) (bookings st) of
        None \<Rightarrow> (Inl (NotFound ''booking not found''), st)
      | Some booking \<Rightarrow>
         (case parseBookingStatus rawStatus of
            None \<Rightarrow> (Inl (BadRequest ''invalid status''), st)
          | Some targetStatus \<Rightarrow>
              if targetStatus \<notin> set (transitions (b_status booking))
              then (Inl (InvalidTransition (b_status booking) targetStatus), st)
              else
                (case (if targetStatus = completed
                       then applyInventoryOnBookingCompleted workspaceId (b_id booking) st
                       else (None, st)) of
                   (Some inventoryError, st1) \<Rightarrow> (Inl (InventoryConflict inventoryError), st1)
                 | (None, st1) \<Rightarrow>
                     let updated = booking\<lparr>b_status := targetStatus\<rparr>;
                         st2 = st1\<lparr>bookings :=
                                 updateFirst (isLiveBooking workspaceId bookingId)
                                   (\<lambda>item. item\<lparr>b_status := targetStatus\<rparr>) (bookings st1)\<rparr>
                     in (Inr updated,
                         emitEvent workspaceId (statusEventType targetStatus) ''booking''
                           (b_id booking) (StatusPayload targetStatus) st2))))"

text \<open>\<open>DELETE /bookings/:id\<close>: soft delete.\<close>

definition deleteBooking ::
  "string \<Rightarrow> string \<Rightarrow> instant \<Rightarrow> AppState \<Rightarrow> (ApiError + Booking) \<times> AppState" where
  "deleteBooking workspaceId bookingId now st =
     (case find (isLiveBooking workspaceId bookingId) (bookings st) of
        None \<Rightarrow> (Inl (NotFound ''booking not found''), st)
      | Some booking \<Rightarrow>
          let updated = booking\<lparr>b_status := cancelled, b_deletedAt := Some now\<rparr>;
              st1 = st\<lparr>bookings :=
                      updateFirst (isLiveBooking workspaceId bookingId)
                        (\<lambda>item. item\<lparr>b_status := cancelled, b_deletedAt := Some now\<rparr>)
                        (bookings st)\<rparr>
          in (Inr updated,
              emitEvent workspaceId ''booking.updated'' ''booking'' (b_id booking)
                (CancelledPayload cancelled now) st1))"

section \<open>Availability resolution (booking routes)\<close>

text \<open>The platform's calendar arithmetic for the workspace's time zone (\<open>Intl.DateTimeFormat\<close>
  and \<open>Date.UTC\<close>) is an argument of the model: \<open>getTimeZoneOffsetMs\<close> is the offset the
  source reconstructs for an instant, \<open>utcMidnight\<close> is \<open>Date.UTC(year, month - 1, day)\<close> of a
  date key, \<open>toDateKeyInTimeZone\<close> and \<open>weekdayInTimeZone\<close> are the civil date key and the
  weekday of an instant.\<close>

record Zone =
  getTimeZoneOffsetMs :: "instant \<Rightarrow> int"
  utcMidnight :: "string \<Rightarrow> instant"
  toDateKeyInTimeZone :: "instant \<Rightarrow> string"
  weekdayInTimeZone :: "instant \<Rightarrow> int"

definition minutesOf :: "HHMM \<Rightarrow> int" where
  "minutesOf t = int (hh t) * 60 + int (mm t)"

text \<open>\<open>dateAtTimeIso("2000-01-01", hhmm)\<close>: \<open>setUTCHours\<close> on the UTC midnight of 1 January
  2000 (epoch value 946684800000); hours and minutes beyond 23 and 59 roll over.\<close>

definition dateAtTimeIso2000 :: "HHMM \<Rightarrow> instant" where
  "dateAtTimeIso2000 t = 946684800000 + minutesOf t * 60000"

definition dateAtTimeInTimeZoneIso :: "Zone \<Rightarrow> string \<Rightarrow> HHMM \<Rightarrow> instant" where
  "dateAtTimeInTimeZoneIso zone date t =
     (let utcGuessMs = utcMidnight zone date + minutesOf t * 60000;
          firstOffset = getTimeZoneOffsetMs zone utcGuessMs;
          adjusted = utcGuessMs - firstOffset;
          secondOffset = getTimeZoneOffsetMs zone adjusted
      in if secondOffset = firstOffset then adjusted else utcGuessMs - secondOffset)"

record AvailabilityWindow =
  startIso :: instant
  endIso :: instant
  stepMin :: int

record ResolvedAvailability =
  windows :: "AvailabilityWindow list"
  blockedWindows :: "(instant \<times> instant) list"
  closedAllDay :: bool

definition resolveRuleType :: "AvailabilityRule \<Rightarrow> RuleType" where
  "resolveRuleType rule = (case r_ruleType rule of Some t \<Rightarrow> t | None \<Rightarrow> weekly)"

definition toAvailabilityWindow ::
  "Zone \<Rightarrow> string \<Rightarrow> AvailabilityRule \<Rightarrow> int \<Rightarrow> AvailabilityWindow option" where
  "toAvailabilityWindow zone dateKey rule defaultStepMin =
     (case (r_startTime rule, r_endTime rule) of
        (Some startTime, Some endTime) \<Rightarrow>
          let startI = dateAtTimeInTimeZoneIso zone dateKey startTime;
              endI = dateAtTimeInTimeZoneIso zone dateKey endTime
          in if startI \<ge> endI then None
             else
               let configuredStep =
                     (case r_slotIntervalMin rule of
                        Some n \<Rightarrow> if n > 0 then n else defaultStepMin
                      | None \<Rightarrow> defaultStepMin)
               in Some \<lparr>startIso = startI, endIso = endI, stepMin = max 1 configuredStep\<rparr>
      | _ \<Rightarrow> None)"

definition defaultStep :: "int \<Rightarrow> AvailabilityRule \<Rightarrow> int" where
  "defaultStep serviceDurationMin rule =
     serviceDurationMin + max 0 (case r_bufferMin rule of Some b \<Rightarrow> b | None \<Rightarrow> 0)"

text \<open>The loop of \<open>resolveAvailabilityForDate\<close> over \<open>state.availabilityRules\<close>, with its
  four accumulators.\<close>

fun resolveLoop ::
  "Zone \<Rightarrow> string \<Rightarrow> string \<Rightarrow> string \<Rightarrow> int \<Rightarrow> int \<Rightarrow> AvailabilityRule list \<Rightarrow>
   AvailabilityWindow list \<Rightarrow> AvailabilityWindow list \<Rightarrow> (instant \<times> instant) list \<Rightarrow> bool \<Rightarrow>
   AvailabilityWindow list \<times> AvailabilityWindow list \<times> (instant \<times> instant) list \<times> bool" where
  "resolveLoop zone workspaceId serviceId dateKey weekday dur [] weeklyWindows overrideWindows
     blocked closed = (weeklyWindows, overrideWindows, blocked, closed)"
| "resolveLoop zone workspaceId serviceId dateKey weekday dur (rule # rules) weeklyWindows
     overrideWindows blocked closed =
     (if r_workspaceId rule \<noteq> workspaceId \<or> r_serviceId rule \<noteq> serviceId
      then resolveLoop zone workspaceId serviceId dateKey weekday dur rules weeklyWindows
             overrideWindows blocked closed
      else if resolveRuleType rule = weekly then
        (if r_weekday rule \<noteq> Some weekday
         then resolveLoop zone workspaceId serviceId dateKey weekday dur rules weeklyWindows
                overrideWindows blocked closed
         else (case toAvailabilityWindow zone dateKey rule (defaultStep dur rule) of
                 Some window \<Rightarrow>
                   resolveLoop zone workspaceId serviceId dateKey weekday dur rules
                     (weeklyWindows @ [window]) overrideWindows blocked closed
               | None \<Rightarrow>
                   resolveLoop zone workspaceId serviceId dateKey weekday dur rules weeklyWindows
                     overrideWindows blocked closed))
      else if r_date rule \<noteq> Some dateKey
      then resolveLoop zone workspaceId serviceId dateKey weekday dur rules weeklyWindows
             overrideWindows blocked closed
      else if resolveRuleType rule = date_override then
        (case toAvailabilityWindow zone dateKey rule (defaultStep dur rule) of
           Some window \<Rightarrow>
             resolveLoop zone workspaceId serviceId dateKey weekday dur rules weeklyWindows
               (overrideWindows @ [window]) blocked closed
         | None \<Rightarrow>
             resolveLoop zone workspaceId serviceId dateKey weekday dur rules weeklyWindows
               overrideWindows blocked closed)
      else if r_isClosedAllDay rule = Some True
      then resolveLoop zone workspaceId serviceId dateKey weekday dur rules weeklyWindows
             overrideWindows blocked True
      else (case toAvailabilityWindow zone dateKey rule 1 of
              Some b \<Rightarrow>
                resolveLoop zone workspaceId serviceId dateKey weekday dur rules weeklyWindows
                  overrideWindows (blocked @ [(startIso b, endIso b)]) closed
            | None \<Rightarrow>
                resolveLoop zone workspaceId serviceId dateKey weekday dur rules weeklyWindows
                  overrideWindows blocked closed))"

definition resolveAvailabilityForDate ::
  "Zone \<Rightarrow> AppState \<Rightarrow> string \<Rightarrow> string \<Rightarrow> string \<Rightarrow> int \<Rightarrow> int \<Rightarrow> ResolvedAvailability" where
  "resolveAvailabilityForDate zone st workspaceId serviceId dateKey weekday serviceDurationMin =
     (case resolveLoop zone workspaceId serviceId dateKey weekday serviceDurationMin
             (availabilityRules st) [] [] [] False of
        (weeklyWindows, overrideWindows, blocked, closed) \<Rightarrow>
          \<lparr>windows = (if overrideWindows \<noteq> [] then overrideWindows else weeklyWindows),
            blockedWindows = blocked, closedAllDay = closed\<rparr>)"

definition isBlockedByException :: "instant \<Rightarrow> instant \<Rightarrow> ResolvedAvailability \<Rightarrow> bool" where
  "isBlockedByException startsAt endsAt resolved =
     (if closedAllDay resolved then True
      else list_ex (\<lambda>blocked. overlap startsAt endsAt (fst blocked) (snd blocked))
             (blockedWindows resolved))"

definition isWithinAvailabilityRule ::
  "Zone \<Rightarrow> AppState \<Rightarrow> string \<Rightarrow> string \<Rightarrow> instant \<Rightarrow> instant \<Rightarrow> int \<Rightarrow> bool" where
  "isWithinAvailabilityRule zone st workspaceId serviceId startsAt endsAt serviceDurationMin =
     (let dateKey = toDateKeyInTimeZone zone startsAt;
          weekday = weekdayInTimeZone zone startsAt;
          resolved = resolveAvailabilityForDate zone st workspaceId serviceId dateKey weekday
                       serviceDurationMin
      in if windows resolved = [] \<or> closedAllDay resolved then False
         else list_ex (\<lambda>window. startsAt \<ge> startIso window \<and> endsAt \<le> endIso window \<and>
                          \<not> isBlockedByException startsAt endsAt resolved)
                (windows resolved))"

section \<open>Slot listing (\<open>GET /public/:workspaceId/slots\<close>)\<close>

text \<open>The inner \<open>while\<close> loop for one window. A window built by \<open>toAvailabilityWindow\<close> has
  a step of at least one minute. With a step that is not positive the source loop would
  never advance; the model returns \<open>None\<close> there.\<close>

function slotLoop ::
  "AppState \<Rightarrow> string \<Rightarrow> ResolvedAvailability \<Rightarrow> int \<Rightarrow> AvailabilityWindow \<Rightarrow> instant \<Rightarrow>
   (instant \<times> instant) list \<Rightarrow> (instant \<times> instant) list option" where
  "slotLoop st workspaceId resolved durationMin window cursor slots =
     (if cursor < endIso window then
        (let end = addMinutes cursor durationMin in
         if end > endIso window then Some slots
         else if stepMin window \<le> 0 then None
         else slotLoop st workspaceId resolved durationMin window
                (addMinutes cursor (stepMin window))
                (if \<not> isBookingOverlapping st workspaceId cursor end None \<and>
                    \<not> isBlockedByException cursor end resolved \<and>
                    cursor \<notin> set (map fst slots)
                 then slots @ [(cursor, end)] else slots))
      else Some slots)"
  by pat_completeness auto
termination
  by (relation "measure (\<lambda>(st, workspaceId, resolved, durationMin, window, cursor, slots).
                   nat (endIso window - cursor))")
     (auto simp: addMinutes_def)

fun slotWindows ::
  "AppState \<Rightarrow> string \<Rightarrow> ResolvedAvailability \<Rightarrow> int \<Rightarrow> AvailabilityWindow list \<Rightarrow>
   (instant \<times> instant) list \<Rightarrow> (instant \<times> instant) list option" where
  "slotWindows st workspaceId resolved durationMin [] slots = Some slots"
| "slotWindows st workspaceId resolved durationMin (window # ws) slots =
     (case slotLoop st workspaceId resolved durationMin window (startIso window) slots of
        None \<Rightarrow> None
      | Some slots' \<Rightarrow> slotWindows st workspaceId resolved durationMin ws slots')"

definition isDigit :: "char \<Rightarrow> bool" where
  "isDigit c \<longleftrightarrow> c \<in> set ''0123456789''"

text \<open>\<open>/^\d{4}-\d{2}-\d{2}$/\<close>\<close>

fun isDateKey :: "string \<Rightarrow> bool" where
  "isDateKey [y1, y2, y3, y4, d1, m1, m2, d2, a1, a2] \<longleftrightarrow>
     isDigit y1 \<and> isDigit y2 \<and> isDigit y3 \<and> isDigit y4 \<and> d1 = CHR ''-'' \<and>
     isDigit m1 \<and> isDigit m2 \<and> d2 = CHR ''-'' \<and> isDigit a1 \<and> isDigit a2"
| "isDateKey _ \<longleftrightarrow> False"

definition publicSlots ::
  "Zone \<Rightarrow> string \<Rightarrow> string \<Rightarrow> string \<Rightarrow> AppState \<Rightarrow> (ApiError + (instant \<times> instant) list) option" where
  "publicSlots zone workspaceId serviceId date st =
     (if serviceId = [] \<or> date = [] then Some (Inl (BadRequest ''serviceId and date are required''))
      else case find (\<lambda>item. s_id item = serviceId \<and> s_workspaceId item = workspaceId \<and>
                            s_isActive item) (services st) of
        None \<Rightarrow> Some (Inl (NotFound ''service not found''))
      | Some service \<Rightarrow>
          if \<not> isDateKey date then Some (Inl (BadRequest ''date must use YYYY-MM-DD''))
          else
            let anchor = dateAtTimeInTimeZoneIso zone date (HHMM 12 0);
                weekday = weekdayInTimeZone zone anchor;
                resolved = resolveAvailabilityForDate zone st workspaceId (s_id service) date
                             weekday (s_durationMin service)
            in if closedAllDay resolved then Some (Inr [])
               else (case slotWindows st workspaceId resolved (s_durationMin service)
                            (windows resolved) [] of
                       None \<Rightarrow> None
                     | Some slots \<Rightarrow> Some (Inr (sort_key fst slots))))"

section \<open>Public booking creation (\<open>POST /public/:workspaceId/bookings\<close>)\<close>

text \<open>A request as the handler sees it once the workspace is resolved: the
  \<open>Idempotency-Key\<close> header, the request path, the SHA-256 digest of the JSON text of the
  body, the outcome of the payload checks that precede the service lookup (unexpected keys,
  missing \<open>serviceId\<close> or \<open>startsAt\<close>, field validation), and the two fields read from the
  body. \<open>cb_startsAt\<close> is \<open>None\<close> when \<open>new Date(startsAt)\<close> is invalid. Contacts and
  messages are kept by external collaborators and are not part of the model.\<close>

record CreateBookingRequest =
  cb_idempotencyKey :: "string option"
  cb_path :: string
  cb_requestHash :: string
  cb_payloadError :: "string option"
  cb_serviceId :: string
  cb_startsAt :: "instant option"

text \<open>Values drawn from the environment while the handler runs: \<open>crypto.randomUUID()\<close>
  results, the random public token and the clock.\<close>

record Fresh =
  f_bookingId :: string
  f_reminderJobId :: string
  f_formRequestId :: string
  f_formJobId :: string
  f_publicToken :: string
  f_now :: instant

text \<open>What \<open>res.json\<close> serialises from a snapshot: the current fields of the referenced
  booking object and the copied form request.\<close>

type_synonym SnapshotView = "Booking option \<times> FormRequestView option"

definition renderSnapshot :: "AppState \<Rightarrow> Snapshot \<Rightarrow> SnapshotView" where
  "renderSnapshot st snap =
     ((if snap_booking snap < length (bookings st)
       then Some (bookings st ! snap_booking snap) else None),
      snap_formRequest snap)"

datatype CreateResponse =
    Failed ApiError
  | Created SnapshotView
  | Replayed SnapshotView

definition createFormRequest ::
  "Fresh \<Rightarrow> string \<Rightarrow> string \<Rightarrow> string \<Rightarrow> instant \<Rightarrow> AppState \<Rightarrow> FormRequest \<times> AppState" where
  "createFormRequest fresh workspaceId bookingId templateId dueAt st =
     (let request = \<lparr>fr_id = f_formRequestId fresh, fr_workspaceId = workspaceId,
                      fr_bookingId = bookingId, fr_templateId = templateId,
                      fr_status = fr_pending, fr_dueAt = dueAt,
                      fr_publicToken = f_publicToken fresh, fr_createdAt = f_now fresh\<rparr>;
          st1 = st\<lparr>formRequests := formRequests st @ [request]\<rparr>
      in (request,
          enqueueJob (f_formJobId fresh) workspaceId form_overdue_check
            (addDays (fr_createdAt request) 2) (fr_id request) (Some normal) st1))"

definition publicCreateBooking ::
  "Zone \<Rightarrow> string \<Rightarrow> Fresh \<Rightarrow> CreateBookingRequest \<Rightarrow> AppState \<Rightarrow> CreateResponse \<times> AppState" where
  "publicCreateBooking zone workspaceId fresh req st =
     (case (if truthy (cb_idempotencyKey req) then cb_idempotencyKey req else None) of
        None \<Rightarrow> (Failed (BadRequest ''Idempotency-Key header is required''), st)
      | Some idempotencyKey \<Rightarrow>
        case findIdempotency st workspaceId idempotencyKey ''POST'' (cb_path req) of
          Some existing \<Rightarrow>
            if ik_requestHash existing \<noteq> cb_requestHash req
            then (Failed (Conflict ''Idempotency-Key reuse with different payload''), st)
            else (Replayed (renderSnapshot st (ik_responseSnapshot existing)), st)
        | None \<Rightarrow>
           (case cb_payloadError req of
              Some msg \<Rightarrow> (Failed (BadRequest msg), st)
            | None \<Rightarrow>
               (case find (\<lambda>item. s_workspaceId item = workspaceId \<and> s_id item = cb_serviceId req \<and>
                                 s_isActive item) (services st) of
                  None \<Rightarrow> (Failed (NotFound ''service not found''), st)
                | Some service \<Rightarrow>
                   (case cb_startsAt req of
                      None \<Rightarrow> (Failed (BadRequest ''startsAt must be an ISO date string''), st)
                    | Some bookingStartsAt \<Rightarrow>
                        let endsAt = addMinutes bookingStartsAt (s_durationMin service) in
                        if \<not> isWithinAvailabilityRule zone st workspaceId (s_id service)
                               bookingStartsAt endsAt (s_durationMin service)
                        then (Failed (Conflict ''Requested slot is outside availability rules''), st)
                        else if isBookingOverlapping st workspaceId bookingStartsAt endsAt None
                        then (Failed (Conflict ''Selected time slot is not available''), st)
                        else
                          let booking = \<lparr>b_id = f_bookingId fresh, b_workspaceId = workspaceId,
                                           b_serviceId = s_id service, b_startsAt = bookingStartsAt,
                                           b_endsAt = endsAt, b_status = pending,
                                           b_deletedAt = None\<rparr>;
                              bookingRef = length (bookings st);
                              st1 = st\<lparr>bookings := bookings st @ [booking]\<rparr>;
                              st2 = emitEvent workspaceId ''booking.created'' ''booking''
                                      (b_id booking)
                                      (BookingCreatedPayload (b_startsAt booking)
                                         (b_serviceId booking)) st1;
                              st3 = enqueueJob (f_reminderJobId fresh) workspaceId booking_reminder
                                      (b_startsAt booking - 24 * 60 * 60 * 1000) (b_id booking)
                                      (Some high) st2;
                              serviceTemplate =
                                (if truthy (s_bookingFormTemplateId service)
                                 then find (\<lambda>template. ft_workspaceId template = workspaceId \<and>
                                              Some (ft_id template) = s_bookingFormTemplateId service)
                                        (formTemplates st3)
                                 else None);
                              (formRequest, st4) =
                                (case serviceTemplate of
                                   None \<Rightarrow> (None, st3)
                                 | Some template \<Rightarrow>
                                     (case createFormRequest fresh workspaceId (b_id booking)
                                             (ft_id template) (addHours (f_now fresh) 48) st3 of
                                        (request, st') \<Rightarrow>
                                          (Some request,
                                           emitEvent workspaceId ''form.requested'' ''form_request''
                                             (fr_id request) (FormRequestedPayload (b_id booking))
                                             st')));
                              snapshot = \<lparr>snap_booking = bookingRef,
                                           snap_formRequest =
                                             map_option (\<lambda>request.
                                               \<lparr>v_id = fr_id request, v_status = fr_status request,
                                                v_publicToken = fr_publicToken request,
                                                v_dueAt = fr_dueAt request\<rparr>) formRequest\<rparr>;
                              st5 = saveIdempotency (f_now fresh) workspaceId idempotencyKey
                                      ''POST'' (cb_path req) (cb_requestHash req) snapshot st4
                          in (Created (renderSnapshot st5 snapshot), st5)))))"

section \<open>Reschedule (\<open>POST /bookings/:id/reschedule\<close>)\<close>

datatype StartsAtInput = Missing | Unparsable | Parsed instant

definition rescheduleBooking ::
  "Zone \<Rightarrow> string \<Rightarrow> string \<Rightarrow> StartsAtInput \<Rightarrow> AppState \<Rightarrow> (ApiError + Booking) \<times> AppState" where
  "rescheduleBooking zone workspaceId bookingId startsAtInput st =
     (case find (isLiveBooking workspaceId bookingId) (bookings st) of
        None \<Rightarrow> (Inl (NotFound ''booking not found''), st)
      | Some booking \<Rightarrow>
          if b_status booking = completed \<or> b_status booking = cancelled \<or>
             b_status booking = no_show
          then (Inl (Conflict (''Cannot reschedule a '' @ bookingStatusName (b_status booking) @
                            '' booking'')), st)
          else
            (case startsAtInput of
               Missing \<Rightarrow> (Inl (BadRequest ''startsAt is required''), st)
             | Unparsable \<Rightarrow> (Inl (BadRequest ''startsAt must be an ISO date string''), st)
             | Parsed startsAt \<Rightarrow>
                (case find (\<lambda>item. s_id item = b_serviceId booking \<and>
                                  s_workspaceId item = workspaceId) (services st) of
                   None \<Rightarrow> (Inl (NotFound ''service not found''), st)
                 | Some service \<Rightarrow>
                     let endsAt = addMinutes startsAt (s_durationMin service) in
                     if \<not> isWithinAvailabilityRule zone st workspaceId (s_id service) startsAt
                            endsAt (s_durationMin service)
                     then (Inl (Conflict ''Requested slot is outside availability rules''), st)
                     else if isBookingOverlapping st workspaceId startsAt endsAt
                               (Some (b_id booking))
                     then (Inl (Conflict ''Selected time slot is not available''), st)
                     else
                       let updated = booking\<lparr>b_startsAt := startsAt, b_endsAt := endsAt\<rparr>;
                           st1 = st\<lparr>bookings :=
                                   updateFirst (isLiveBooking workspaceId bookingId)
                                     (\<lambda>item. item\<lparr>b_startsAt := startsAt, b_endsAt := endsAt\<rparr>)
                                     (bookings st)\<rparr>
                       in (Inr updated,
                           emitEvent workspaceId ''booking.updated'' ''booking'' (b_id booking)
                             (RescheduledPayload startsAt endsAt) st1))))"

section \<open>Reachable states of the booking store\<close>

text \<open>The four routes above are the only code that writes \<open>state.bookings\<close>. Every other
  route leaves the bookings as they are and is covered by the rule \<open>other\<close>. Identifiers
  come from \<open>crypto.randomUUID()\<close>; the rule for creation takes the new identifier to be
  unused.\<close>

inductive reachable :: "AppState \<Rightarrow> bool" where
  init: "reachable emptyState"
| other: "reachable st \<Longrightarrow> bookings st' = bookings st \<Longrightarrow> reachable st'"
| create: "reachable st \<Longrightarrow> f_bookingId fresh \<notin> set (map b_id (bookings st)) \<Longrightarrow>
     publicCreateBooking zone workspaceId fresh req st = (resp, st') \<Longrightarrow> reachable st'"
| reschedule: "reachable st \<Longrightarrow>
     rescheduleBooking zone workspaceId bookingId startsAtInput st = (res, st') \<Longrightarrow> reachable st'"
| transition: "reachable st \<Longrightarrow>
     patchBookingStatus workspaceId bookingId rawStatus st = (res, st') \<Longrightarrow> reachable st'"
| softDelete: "reachable st \<Longrightarrow>
     deleteBooking workspaceId bookingId now st = (res, st') \<Longrightarrow> reachable st'"

text \<open>Two bookings clash when they belong to the same workspace, neither is cancelled nor a
  no-show, and their half-open intervals intersect.\<close>

definition isActive :: "Booking \<Rightarrow> bool" where
  "isActive b \<longleftrightarrow> b_status b \<noteq> cancelled \<and> b_status b \<noteq> no_show"

definition clash :: "Booking \<Rightarrow> Booking \<Rightarrow> bool" where
  "clash b1 b2 \<longleftrightarrow> b_workspaceId b1 = b_workspaceId b2 \<and> isActive b1 \<and> isActive b2 \<and>
     b_startsAt b1 < b_endsAt b2 \<and> b_startsAt b2 < b_endsAt b1"

fun noOverlap :: "Booking list \<Rightarrow> bool" where
  "noOverlap [] \<longleftrightarrow> True"
| "noOverlap (b # bs) \<longleftrightarrow> list_all (\<lambda>c. \<not> clash b c) bs \<and> noOverlap bs"

text \<open>The invariant of the booking store: no two bookings clash, and booking ids are
  distinct.\<close>

definition storeInv :: "AppState \<Rightarrow> bool" where
  "storeInv st \<longleftrightarrow> noOverlap (bookings st) \<and> distinct (map b_id (bookings st))"

section \<open>Availability rule store (\<open>routes/serviceRoutes.ts\<close>)\<close>

record NormalizedAvailabilityRuleInput =
  n_ruleType :: RuleType
  n_weekday :: "int option"
  n_date :: "string option"
  n_startTime :: "HHMM option"
  n_endTime :: "HHMM option"
  n_bufferMin :: "int option"
  n_slotIntervalMin :: "int option"
  n_isClosedAllDay :: "bool option"

text \<open>\<open>resolveExistingRuleType\<close> yields the stored kind, or \<open>weekly\<close> when none is stored; on
  the typed record this is \<open>resolveRuleType\<close>.\<close>

definition normalizeAvailabilityRule :: "AvailabilityRule \<Rightarrow> AvailabilityRule" where
  "normalizeAvailabilityRule rule =
     (let normalizedType = resolveRuleType rule in
      if normalizedType = date_block
      then rule\<lparr>r_ruleType := Some normalizedType,
                r_isClosedAllDay := Some (r_isClosedAllDay rule = Some True)\<rparr>
      else rule\<lparr>r_ruleType := Some normalizedType,
                r_bufferMin := Some (case r_bufferMin rule of Some b \<Rightarrow> b | None \<Rightarrow> 0)\<rparr>)"

definition timeOr0000 :: "HHMM option \<Rightarrow> HHMM" where
  "timeOr0000 t = (case t of Some v \<Rightarrow> v | None \<Rightarrow> HHMM 0 0)"

definition timesOverlap :: "NormalizedAvailabilityRuleInput \<Rightarrow> AvailabilityRule \<Rightarrow> bool" where
  "timesOverlap candidate rule =
     (let leftStart = dateAtTimeIso2000 (timeOr0000 (n_startTime candidate));
          leftEnd = dateAtTimeIso2000 (timeOr0000 (n_endTime candidate));
          rightStart = dateAtTimeIso2000 (timeOr0000 (r_startTime rule));
          rightEnd = dateAtTimeIso2000 (timeOr0000 (r_endTime rule))
      in overlap leftStart leftEnd rightStart rightEnd)"

definition hasOverlappingRule ::
  "AppState \<Rightarrow> string \<Rightarrow> string \<Rightarrow> NormalizedAvailabilityRuleInput \<Rightarrow> string option \<Rightarrow> bool" where
  "hasOverlappingRule st workspaceId serviceId candidate excludeRuleId =
     list_ex (\<lambda>rawRule.
        if r_workspaceId rawRule \<noteq> workspaceId \<or> r_serviceId rawRule \<noteq> serviceId \<or>
           (truthy excludeRuleId \<and> Some (r_id rawRule) = excludeRuleId)
        then False
        else
          let rule = normalizeAvailabilityRule rawRule in
          if r_ruleType rule \<noteq> Some (n_ruleType candidate) then False
          else if n_ruleType candidate = weekly then
            (if r_weekday rule \<noteq> n_weekday candidate then False
             else timesOverlap candidate rule)
          else if r_date rule \<noteq> n_date candidate then False
          else if n_ruleType candidate = date_block then
            (if n_isClosedAllDay candidate = Some True \<or> r_isClosedAllDay rule = Some True
             then True
             else timesOverlap candidate rule)
          else timesOverlap candidate rule)
       (availabilityRules st)"

definition applyRuleShape ::
  "NormalizedAvailabilityRuleInput \<Rightarrow> AvailabilityRule \<Rightarrow> AvailabilityRule" where
  "applyRuleShape input target =
     (let t1 = target\<lparr>r_ruleType := Some (n_ruleType input),
                      r_weekday := (if n_ruleType input = weekly then n_weekday input else None),
                      r_date := (if n_ruleType input = weekly then None else n_date input)\<rparr>
      in if n_ruleType input = date_block then
           (let closed = (n_isClosedAllDay input = Some True) in
            t1\<lparr>r_isClosedAllDay := Some closed,
               r_startTime := (if closed then None else n_startTime input),
               r_endTime := (if closed then None else n_endTime input),
               r_bufferMin := None, r_slotIntervalMin := None\<rparr>)
         else
           t1\<lparr>r_isClosedAllDay := Some False, r_startTime := n_startTime input,
              r_endTime := n_endTime input,
              r_bufferMin := Some (case n_bufferMin input of Some b \<Rightarrow> b | None \<Rightarrow> 0),
              r_slotIntervalMin := n_slotIntervalMin input\<rparr>)"

subsection \<open>The request body and \<open>parseAvailabilityRuleInput\<close>\<close>

text \<open>A member of the request body as the route reads it: absent, \<open>null\<close>, a boolean, a
  number or a text. Numbers are whole, as minutes and weekdays are throughout the model;
  arrays and objects are not modelled.\<close>

datatype Json = JUndefined | JNull | JBool bool | JNumber int | JString string

record RulePayload =
  p_serviceId :: Json
  p_ruleType :: Json
  p_weekday :: Json
  p_date :: Json
  p_startTime :: Json
  p_endTime :: Json
  p_bufferMin :: Json
  p_slotIntervalMin :: Json
  p_isClosedAllDay :: Json

definition isSpace :: "char \<Rightarrow> bool" where
  "isSpace c \<longleftrightarrow> c \<in> set [CHR '' '', CHR 0x09, CHR 0x0A, CHR 0x0B, CHR 0x0C, CHR 0x0D]"

definition trim :: "string \<Rightarrow> string" where
  "trim s = rev (dropWhile isSpace (rev (dropWhile isSpace s)))"

text \<open>\<open>getString\<close> of \<open>utils/http.ts\<close>.\<close>

definition getString :: "Json \<Rightarrow> string" where
  "getString v = (case v of JString s \<Rightarrow> trim s | _ \<Rightarrow> [])"

text \<open>\<open>a ?? b\<close> takes \<open>b\<close> when \<open>a\<close> is \<open>undefined\<close> or \<open>null\<close>.\<close>

definition nullish :: "Json \<Rightarrow> bool" where
  "nullish v \<longleftrightarrow> v = JUndefined \<or> v = JNull"

text \<open>\<open>resolveRuleType\<close> of \<open>serviceRoutes.ts\<close>, on a raw value.\<close>

definition resolveRawRuleType :: "Json \<Rightarrow> RuleType option" where
  "resolveRawRuleType rawType =
     (if rawType = JUndefined \<or> rawType = JNull \<or> rawType = JString [] then Some weekly
      else if rawType = JString ''weekly'' then Some weekly
      else if rawType = JString ''date_override'' then Some date_override
      else if rawType = JString ''date_block'' then Some date_block
      else None)"

text \<open>The value of a decimal digit is its position in \<open>0123456789\<close>.\<close>

definition digitValue :: "char \<Rightarrow> nat" where
  "digitValue c = length (takeWhile (\<lambda>d. d \<noteq> c) ''0123456789'')"

definition natOfDigits :: "string \<Rightarrow> nat" where
  "natOfDigits ds = foldl (\<lambda>acc c. 10 * acc + digitValue c) 0 ds"

text \<open>\<open>Number(v)\<close>; the result \<open>None\<close> is \<open>NaN\<close>. A text is read as a decimal integer
  literal with an optional sign, the empty text as 0; the other numeric literal forms of
  JavaScript (fractions, exponents, hexadecimal, \<open>Infinity\<close>) are outside the model and read
  as \<open>NaN\<close>.\<close>

definition numberOfString :: "string \<Rightarrow> int option" where
  "numberOfString s =
     (case trim s of
        [] \<Rightarrow> Some 0
      | c # ds \<Rightarrow>
          if c = CHR ''-'' \<and> ds \<noteq> [] \<and> list_all isDigit ds then Some (- int (natOfDigits ds))
          else if c = CHR ''+'' \<and> ds \<noteq> [] \<and> list_all isDigit ds then Some (int (natOfDigits ds))
          else if list_all isDigit (c # ds) then Some (int (natOfDigits (c # ds)))
          else None)"

definition toNumber :: "Json \<Rightarrow> int option" where
  "toNumber v =
     (case v of
        JUndefined \<Rightarrow> None
      | JNull \<Rightarrow> Some 0
      | JBool b \<Rightarrow> Some (if b then 1 else 0)
      | JNumber n \<Rightarrow> Some n
      | JString s \<Rightarrow> numberOfString s)"

text \<open>\<open>Boolean(v)\<close>.\<close>

definition toBoolean :: "Json \<Rightarrow> bool" where
  "toBoolean v =
     (case v of
        JUndefined \<Rightarrow> False
      | JNull \<Rightarrow> False
      | JBool b \<Rightarrow> b
      | JNumber n \<Rightarrow> n \<noteq> 0
      | JString s \<Rightarrow> s \<noteq> [])"

text \<open>\<open>HHMM_PATTERN.test\<close> on a text, with the time of day that the text denotes.\<close>

fun parseHHMM :: "string \<Rightarrow> HHMM option" where
  "parseHHMM [h1, h2, c, m1, m2] =
     (if isDigit h1 \<and> isDigit h2 \<and> c = CHR '':'' \<and> isDigit m1 \<and> isDigit m2
      then Some (HHMM (digitValue h1 * 10 + digitValue h2) (digitValue m1 * 10 + digitValue m2))
      else None)"
| "parseHHMM _ = None"

text \<open>\<open>String(raw ?? fallback ?? "").trim()\<close>, tested against \<open>HHMM_PATTERN\<close>. The text of a
  number or of a boolean has no colon and fails the pattern; the fallback is a stored time.\<close>

definition timeInput :: "Json \<Rightarrow> HHMM option \<Rightarrow> HHMM option" where
  "timeInput raw fallback =
     (case raw of
        JUndefined \<Rightarrow> fallback
      | JNull \<Rightarrow> fallback
      | JString s \<Rightarrow> parseHHMM (trim s)
      | _ \<Rightarrow> None)"

text \<open>\<open>String(raw ?? fallbackDate).trim()\<close>, tested against \<open>DATE_KEY_PATTERN\<close>; the text of
  a number or of a boolean fails the pattern.\<close>

definition dateInput :: "Json \<Rightarrow> string option \<Rightarrow> string option" where
  "dateInput raw fallback =
     (let date = (case raw of
                    JUndefined \<Rightarrow> (case fallback of Some d \<Rightarrow> trim d | None \<Rightarrow> [])
                  | JNull \<Rightarrow> (case fallback of Some d \<Rightarrow> trim d | None \<Rightarrow> [])
                  | JString s \<Rightarrow> trim s
                  | _ \<Rightarrow> [])
      in if isDateKey date then Some date else None)"

text \<open>\<open>Number(raw ?? fallback)\<close>, where the fallback is a number or \<open>undefined\<close>.\<close>

definition numberInput :: "Json \<Rightarrow> int option \<Rightarrow> int option" where
  "numberInput raw fallback = (if nullish raw then fallback else toNumber raw)"

text \<open>\<open>existingType === t ? existing?.field : undefined\<close>.\<close>

definition inherited :: "AvailabilityRule option \<Rightarrow> RuleType \<Rightarrow> (AvailabilityRule \<Rightarrow> 'a option) \<Rightarrow> 'a option" where
  "inherited existing t field =
     (case existing of
        Some rule \<Rightarrow> if resolveRuleType rule = t then field rule else None
      | None \<Rightarrow> None)"

text \<open>The three blocks that \<open>parseAvailabilityRuleInput\<close> repeats for each kind of rule: the
  two times, the buffer and the slot interval.\<close>

definition timesInput ::
  "RulePayload \<Rightarrow> AvailabilityRule option \<Rightarrow> RuleType \<Rightarrow> string \<Rightarrow> string + (HHMM \<times> HHMM)" where
  "timesInput payload existing t formatError =
     (case (timeInput (p_startTime payload) (inherited existing t r_startTime),
            timeInput (p_endTime payload) (inherited existing t r_endTime)) of
        (Some startTime, Some endTime) \<Rightarrow>
          if dateAtTimeIso2000 startTime \<ge> dateAtTimeIso2000 endTime
          then Inl ''startTime must be before endTime''
          else Inr (startTime, endTime)
      | _ \<Rightarrow> Inl formatError)"

definition bufferInput :: "RulePayload \<Rightarrow> AvailabilityRule option \<Rightarrow> RuleType \<Rightarrow> string + int" where
  "bufferInput payload existing t =
     (let fallbackBuffer = (case inherited existing t r_bufferMin of Some b \<Rightarrow> b | None \<Rightarrow> 0) in
      case numberInput (p_bufferMin payload) (Some fallbackBuffer) of
        None \<Rightarrow> Inl ''bufferMin must be >= 0''
      | Some bufferMin \<Rightarrow>
          if bufferMin < 0 then Inl ''bufferMin must be >= 0'' else Inr bufferMin)"

definition slotIntervalInput ::
  "RulePayload \<Rightarrow> AvailabilityRule option \<Rightarrow> RuleType \<Rightarrow> string + int option" where
  "slotIntervalInput payload existing t =
     (let slotIntervalRaw = p_slotIntervalMin payload in
      if slotIntervalRaw \<noteq> JUndefined then
        (if slotIntervalRaw = JNull \<or> slotIntervalRaw = JString [] then Inr None
         else case toNumber slotIntervalRaw of
                None \<Rightarrow> Inl ''slotIntervalMin must be a positive integer or null''
              | Some parsed \<Rightarrow>
                  if parsed \<le> 0 then Inl ''slotIntervalMin must be a positive integer or null''
                  else Inr (Some parsed))
      else (case inherited existing t r_slotIntervalMin of
              Some n \<Rightarrow> if n > 0 then Inr (Some n) else Inr None
            | None \<Rightarrow> Inr None))"

definition parseAvailabilityRuleInput ::
  "RulePayload \<Rightarrow> AvailabilityRule option \<Rightarrow> string + NormalizedAvailabilityRuleInput" where
  "parseAvailabilityRuleInput payload existing =
     (let existingType = map_option resolveRuleType existing;
          ruleType = (if nullish (p_ruleType payload)
                      then (case existingType of Some t \<Rightarrow> Some t | None \<Rightarrow> Some weekly)
                      else resolveRawRuleType (p_ruleType payload))
      in case ruleType of
        None \<Rightarrow> Inl ''ruleType must be one of weekly, date_override, date_block''
      | Some weekly \<Rightarrow>
          (case numberInput (p_weekday payload) (inherited existing weekly r_weekday) of
             None \<Rightarrow> Inl ''weekday must be in range 0-6 for weekly rules''
           | Some weekday \<Rightarrow>
               if weekday < 0 \<or> weekday > 6
               then Inl ''weekday must be in range 0-6 for weekly rules''
               else
                 (case timesInput payload existing weekly
                         ''startTime and endTime must use HH:mm format'' of
                    Inl e \<Rightarrow> Inl e
                  | Inr (startTime, endTime) \<Rightarrow>
                      (case bufferInput payload existing weekly of
                         Inl e \<Rightarrow> Inl e
                       | Inr bufferMin \<Rightarrow>
                           (case slotIntervalInput payload existing weekly of
                              Inl e \<Rightarrow> Inl e
                            | Inr slotIntervalMin \<Rightarrow>
                                Inr \<lparr>n_ruleType = weekly, n_weekday = Some weekday,
                                     n_date = None, n_startTime = Some startTime,
                                     n_endTime = Some endTime, n_bufferMin = Some bufferMin,
                                     n_slotIntervalMin = slotIntervalMin,
                                     n_isClosedAllDay = Some False\<rparr>))))
      | Some t \<Rightarrow>
          (case dateInput (p_date payload)
                  (case existing of
                     Some rule \<Rightarrow> if resolveRuleType rule \<noteq> weekly then r_date rule else None
                   | None \<Rightarrow> None) of
             None \<Rightarrow> Inl ''date must use YYYY-MM-DD format for exception rules''
           | Some date \<Rightarrow>
               if t = date_block then
                 (let fallbackClosedAllDay =
                        (inherited existing date_block r_isClosedAllDay = Some True);
                      isClosedAllDay =
                        (if p_isClosedAllDay payload = JUndefined then fallbackClosedAllDay
                         else toBoolean (p_isClosedAllDay payload))
                  in if isClosedAllDay
                     then Inr \<lparr>n_ruleType = date_block, n_weekday = None, n_date = Some date,
                               n_startTime = None, n_endTime = None, n_bufferMin = None,
                               n_slotIntervalMin = None, n_isClosedAllDay = Some True\<rparr>
                     else
                       (case timesInput payload existing date_block
                               (''startTime and endTime are required for partial date blocks '' @
                                ''and must use HH:mm format'') of
                          Inl e \<Rightarrow> Inl e
                        | Inr (startTime, endTime) \<Rightarrow>
                            Inr \<lparr>n_ruleType = date_block, n_weekday = None,
                                 n_date = Some date, n_startTime = Some startTime,
                                 n_endTime = Some endTime, n_bufferMin = None,
                                 n_slotIntervalMin = None, n_isClosedAllDay = Some False\<rparr>))
               else
                 (case timesInput payload existing date_override
                         ''startTime and endTime must use HH:mm format'' of
                    Inl e \<Rightarrow> Inl e
                  | Inr (startTime, endTime) \<Rightarrow>
                      (case bufferInput payload existing date_override of
                         Inl e \<Rightarrow> Inl e
                       | Inr bufferMin \<Rightarrow>
                           (case slotIntervalInput payload existing date_override of
                              Inl e \<Rightarrow> Inl e
                            | Inr slotIntervalMin \<Rightarrow>
                                Inr \<lparr>n_ruleType = date_override, n_weekday = None,
                                     n_date = Some date, n_startTime = Some startTime,
                                     n_endTime = Some endTime, n_bufferMin = Some bufferMin,
                                     n_slotIntervalMin = slotIntervalMin,
                                     n_isClosedAllDay = Some False\<rparr>)))))"

subsection \<open>The handlers\<close>

text \<open>The handlers of \<open>POST /availability-rules\<close> and \<open>PATCH /availability-rules/:id\<close>, given
  the result of \<open>parseAvailabilityRuleInput\<close> (an error text or a normalised input), which
  reads the request body and writes nothing. The routes below pass that result.\<close>

definition createAvailabilityRule ::
  "string \<Rightarrow> string \<Rightarrow> string \<Rightarrow> (string + NormalizedAvailabilityRuleInput) \<Rightarrow> AppState \<Rightarrow>
   (ApiError + AvailabilityRule) \<times> AppState" where
  "createAvailabilityRule newId workspaceId serviceId parsedInput st =
     (if serviceId = [] then (Inl (BadRequest ''serviceId is required''), st)
      else case find (\<lambda>item. s_id item = serviceId \<and> s_workspaceId item = workspaceId)
                  (services st) of
        None \<Rightarrow> (Inl (NotFound ''Service not found''), st)
      | Some service \<Rightarrow>
         (case parsedInput of
            Inl msg \<Rightarrow> (Inl (BadRequest msg), st)
          | Inr v \<Rightarrow>
              if hasOverlappingRule st workspaceId serviceId v None
              then (Inl (Conflict ''Overlapping availability rule exists''), st)
              else
                let rule = applyRuleShape v
                      \<lparr>r_id = newId, r_workspaceId = workspaceId, r_serviceId = serviceId,
                       r_ruleType = Some (n_ruleType v), r_weekday = None, r_date = None,
                       r_startTime = None, r_endTime = None, r_bufferMin = None,
                       r_slotIntervalMin = None, r_isClosedAllDay = None\<rparr>
                in (Inr (normalizeAvailabilityRule rule),
                    st\<lparr>availabilityRules := availabilityRules st @ [rule]\<rparr>)))"

definition updateAvailabilityRule ::
  "string \<Rightarrow> string \<Rightarrow> (string + NormalizedAvailabilityRuleInput) \<Rightarrow> AppState \<Rightarrow>
   (ApiError + AvailabilityRule) \<times> AppState" where
  "updateAvailabilityRule workspaceId ruleId parsedInput st =
     (case find (\<lambda>item. r_id item = ruleId \<and> r_workspaceId item = workspaceId)
             (availabilityRules st) of
        None \<Rightarrow> (Inl (NotFound ''availability rule not found''), st)
      | Some rule \<Rightarrow>
         (case parsedInput of
            Inl msg \<Rightarrow> (Inl (BadRequest msg), st)
          | Inr v \<Rightarrow>
              if hasOverlappingRule st workspaceId (r_serviceId rule) v (Some (r_id rule))
              then (Inl (Conflict ''Overlapping availability rule exists''), st)
              else
                (Inr (normalizeAvailabilityRule (applyRuleShape v rule)),
                 st\<lparr>availabilityRules :=
                      updateFirst (\<lambda>item. r_id item = ruleId \<and> r_workspaceId item = workspaceId)
                        (applyRuleShape v) (availabilityRules st)\<rparr>)))"

text \<open>The two routes: the body is parsed, on \<open>PATCH\<close> against the rule found.\<close>

definition postAvailabilityRule ::
  "string \<Rightarrow> string \<Rightarrow> RulePayload \<Rightarrow> AppState \<Rightarrow> (ApiError + AvailabilityRule) \<times> AppState" where
  "postAvailabilityRule newId workspaceId payload st =
     createAvailabilityRule newId workspaceId (getString (p_serviceId payload))
       (parseAvailabilityRuleInput payload None) st"

definition patchAvailabilityRule ::
  "string \<Rightarrow> string \<Rightarrow> RulePayload \<Rightarrow> AppState \<Rightarrow> (ApiError + AvailabilityRule) \<times> AppState" where
  "patchAvailabilityRule workspaceId ruleId payload st =
     updateAvailabilityRule workspaceId ruleId
       (parseAvailabilityRuleInput payload
          (find (\<lambda>item. r_id item = ruleId \<and> r_workspaceId item = workspaceId)
             (availabilityRules st))) st"

section \<open>Worker loop\<close>

text \<open>The reminder handler composes and stores a message through the messaging
  collaborator. Its outcome for a booking is an argument of the model: the booking's contact
  is missing, the message was stored, or an exception was raised.\<close>

datatype ReminderOutcome = NoContact | Sent | Threw string

text \<open>The \<open>try\<close> block of \<open>processJob\<close> up to the bookkeeping of the job: the text of a raised
  exception, if any, and the state.\<close>

definition runHandler ::
  "(Booking \<Rightarrow> ReminderOutcome) \<Rightarrow> instant \<Rightarrow> ScheduledJob \<Rightarrow> AppState \<Rightarrow> string option \<times> AppState" where
  "runHandler remind now job st =
     (case j_jobType job of
        booking_reminder \<Rightarrow>
          (case find (\<lambda>item. b_id item = j_payloadId job \<and> b_workspaceId item = j_workspaceId job)
                  (bookings st) of
             None \<Rightarrow> (None, st)
           | Some booking \<Rightarrow>
               if b_status booking \<noteq> cancelled \<and> b_status booking \<noteq> completed then
                 (case remind booking of
                    NoContact \<Rightarrow> (None, st)
                  | Threw msg \<Rightarrow> (Some msg, st)
                  | Sent \<Rightarrow>
                      (None, emitEvent (b_workspaceId booking) ''booking.reminder_due''
                               ''booking'' (b_id booking) (ReminderDuePayload (b_startsAt booking))
                               st))
               else (None, st))
      | form_overdue_check \<Rightarrow>
          (case find (\<lambda>item. fr_id item = j_payloadId job \<and> fr_workspaceId item = j_workspaceId job)
                  (formRequests st) of
             None \<Rightarrow> (None, st)
           | Some formRequest \<Rightarrow>
               if fr_status formRequest = fr_pending \<and> now \<ge> fr_dueAt formRequest then
                 (let st1 = st\<lparr>formRequests :=
                              updateFirst (\<lambda>item. fr_id item = j_payloadId job \<and>
                                                    fr_workspaceId item = j_workspaceId job)
                                (\<lambda>item. item\<lparr>fr_status := fr_overdue\<rparr>) (formRequests st)\<rparr>;
                      st2 = createAlert (fr_workspaceId formRequest) ''form.overdue'' warning
                              (FormOverdueMessage (fr_id formRequest)) st1
                  in (None, emitEvent (fr_workspaceId formRequest) ''form.overdue''
                              ''form_request'' (fr_id formRequest)
                              (FormOverduePayload (fr_dueAt formRequest)) st2))
               else (None, st)))"

definition jobTypeName :: "JobType \<Rightarrow> string" where
  "jobTypeName t = (case t of booking_reminder \<Rightarrow> ''booking.reminder''
                            | form_overdue_check \<Rightarrow> ''form.overdue_check'')"

definition processJob ::
  "(Booking \<Rightarrow> ReminderOutcome) \<Rightarrow> instant \<Rightarrow> string \<Rightarrow> AppState \<Rightarrow> AppState" where
  "processJob remind now jobId st =
     (case find (\<lambda>item. j_id item = jobId) (scheduledJobs st) of
        None \<Rightarrow> st
      | Some job \<Rightarrow>
         (case runHandler remind now job st of
            (None, st1) \<Rightarrow>
              st1\<lparr>scheduledJobs :=
                    updateFirst (\<lambda>item. j_id item = jobId)
                      (\<lambda>item. item\<lparr>j_status := job_done, j_attempts := j_attempts item + 1\<rparr>)
                      (scheduledJobs st1)\<rparr>
          | (Some msg, st1) \<Rightarrow>
              createAlert (j_workspaceId job) ''job.failed'' critical
                (JobFailedMessage (jobTypeName (j_jobType job)) msg)
                (st1\<lparr>scheduledJobs :=
                       updateFirst (\<lambda>item. j_id item = jobId)
                         (\<lambda>item. item\<lparr>j_status := job_failed, j_attempts := j_attempts item + 1,
                                       j_lastError := Some msg\<rparr>)
                         (scheduledJobs st1)\<rparr>)))"

fun priorityWeight :: "JobPriority \<Rightarrow> int" where
  "priorityWeight high = 0"
| "priorityWeight normal = 1"
| "priorityWeight low = 2"

definition jobCompare :: "ScheduledJob \<Rightarrow> ScheduledJob \<Rightarrow> int" where
  "jobCompare a b =
     (let priorityDelta = priorityWeight (j_priority a) - priorityWeight (j_priority b) in
      if priorityDelta \<noteq> 0 then priorityDelta else j_runAt a - j_runAt b)"

text \<open>\<open>Array.prototype.sort\<close> is stable; with a consistent comparator its result is the
  stable sorted order, computed here by insertion.\<close>

fun insertBy :: "('a \<Rightarrow> 'a \<Rightarrow> int) \<Rightarrow> 'a \<Rightarrow> 'a list \<Rightarrow> 'a list" where
  "insertBy cmp x [] = [x]"
| "insertBy cmp x (y # ys) = (if cmp x y \<le> 0 then x # y # ys else y # insertBy cmp x ys)"

definition sortBy :: "('a \<Rightarrow> 'a \<Rightarrow> int) \<Rightarrow> 'a list \<Rightarrow> 'a list" where
  "sortBy cmp xs = foldr (insertBy cmp) xs []"

text \<open>The jobs picked by a tick are objects of \<open>state.scheduledJobs\<close>; a picked job is
  represented by its position in that array.\<close>

definition isDue :: "instant \<Rightarrow> ScheduledJob \<Rightarrow> bool" where
  "isDue now job \<longleftrightarrow> j_status job = queued \<and> j_runAt job \<le> now"

definition dueJobs :: "instant \<Rightarrow> ScheduledJob list \<Rightarrow> nat list" where
  "dueJobs now jobs =
     take 10 (sortBy (\<lambda>a b. jobCompare (jobs ! a) (jobs ! b))
                (filter (\<lambda>i. isDue now (jobs ! i)) [0..<length jobs]))"

definition claimJob :: "instant \<Rightarrow> nat \<Rightarrow> AppState \<Rightarrow> AppState" where
  "claimJob now i st =
     st\<lparr>scheduledJobs := (scheduledJobs st)
          [i := (scheduledJobs st ! i)\<lparr>j_status := running, j_lockedAt := Some now,
                                       j_lockOwner := Some ''local-worker-1''\<rparr>]\<rparr>"

text \<open>Body of the loop over the picked jobs: the job is marked running and handed to
  \<open>processJob\<close> by its id.\<close>

definition workerTurn :: "(Booking \<Rightarrow> ReminderOutcome) \<Rightarrow> instant \<Rightarrow> nat \<Rightarrow> AppState \<Rightarrow> AppState" where
  "workerTurn remind now i st =
     (let st1 = claimJob now i st
      in processJob remind now (j_id (scheduledJobs st1 ! i)) st1)"

fun runJobs :: "(Booking \<Rightarrow> ReminderOutcome) \<Rightarrow> instant \<Rightarrow> nat list \<Rightarrow> AppState \<Rightarrow> AppState" where
  "runJobs remind now [] st = st"
| "runJobs remind now (i # rest) st = runJobs remind now rest (workerTurn remind now i st)"

definition runWorkerTick :: "(Booking \<Rightarrow> ReminderOutcome) \<Rightarrow> instant \<Rightarrow> AppState \<Rightarrow> AppState" where
  "runWorkerTick remind now st =
     (let st0 = cleanupExpiredRecords now st
      in runJobs remind now (dueJobs now (scheduledJobs st0)) st0)"

section \<open>Rule sets of a date\<close>

text \<open>The date-override rules of a service for a date key, its weekly rules for a weekday,
  and the windows that a list of rules yields.\<close>

definition overrideRulesFor :: "AppState \<Rightarrow> string \<Rightarrow> string \<Rightarrow> string \<Rightarrow> AvailabilityRule list" where
  "overrideRulesFor st workspaceId serviceId dateKey =
     filter (\<lambda>rule. r_workspaceId rule = workspaceId \<and> r_serviceId rule = serviceId \<and>
                      resolveRuleType rule = date_override \<and> r_date rule = Some dateKey)
       (availabilityRules st)"

definition weeklyRulesFor :: "AppState \<Rightarrow> string \<Rightarrow> string \<Rightarrow> int \<Rightarrow> AvailabilityRule list" where
  "weeklyRulesFor st workspaceId serviceId weekday =
     filter (\<lambda>rule. r_workspaceId rule = workspaceId \<and> r_serviceId rule = serviceId \<and>
                      resolveRuleType rule = weekly \<and> r_weekday rule = Some weekday)
       (availabilityRules st)"

definition windowsOf :: "Zone \<Rightarrow> string \<Rightarrow> int \<Rightarrow> AvailabilityRule list \<Rightarrow> AvailabilityWindow list" where
  "windowsOf zone dateKey dur rules =
     List.map_filter (\<lambda>rule. toAvailabilityWindow zone dateKey rule (defaultStep dur rule)) rules"

section \<open>Example data\<close>

definition ex_booking :: Booking where
  "ex_booking = \<lparr>b_id = ''b1'', b_workspaceId = ''w1'', b_serviceId = ''s1'', b_startsAt = 1000,
     b_endsAt = 2000, b_status = pending, b_deletedAt = None\<rparr>"

definition ex_service :: "ServiceInventoryRule list \<Rightarrow> Service" where
  "ex_service rules = \<lparr>s_id = ''s1'', s_workspaceId = ''w1'', s_durationMin = 30,
     s_inventoryRules = rules, s_bookingFormTemplateId = None, s_isActive = True\<rparr>"

definition ex_item :: "int \<Rightarrow> int \<Rightarrow> InventoryItem" where
  "ex_item onHand threshold = \<lparr>i_id = ''gloves'', i_workspaceId = ''w1'', i_name = ''Gloves'',
     i_unit = ''box'', i_quantityOnHand = onHand, i_lowStockThreshold = threshold\<rparr>"

definition ex_rule :: "string \<Rightarrow> int \<Rightarrow> ServiceInventoryRule" where
  "ex_rule item n = \<lparr>itemId = item, quantity = n\<rparr>"

text \<open>A store with one service, its consumption list, inventory items and bookings.\<close>

definition ex_store :: "ServiceInventoryRule list \<Rightarrow> InventoryItem list \<Rightarrow> Booking list \<Rightarrow> AppState" where
  "ex_store rules items bs = emptyState\<lparr>services := [ex_service rules], inventoryItems := items,
     bookings := bs\<rparr>"

definition ex_booking2 :: Booking where
  "ex_booking2 = \<lparr>b_id = ''b2'', b_workspaceId = ''w1'', b_serviceId = ''s1'', b_startsAt = 3000,
     b_endsAt = 4000, b_status = confirmed, b_deletedAt = None\<rparr>"

definition ex_weekly :: "string \<Rightarrow> int \<Rightarrow> HHMM \<Rightarrow> HHMM \<Rightarrow> AvailabilityRule" where
  "ex_weekly rid day from to = \<lparr>r_id = rid, r_workspaceId = ''w1'', r_serviceId = ''s1'',
     r_ruleType = Some weekly, r_weekday = Some day, r_date = None, r_startTime = Some from,
     r_endTime = Some to, r_bufferMin = Some 0, r_slotIntervalMin = None,
     r_isClosedAllDay = Some False\<rparr>"

definition ex_weekly_input :: "int \<Rightarrow> HHMM \<Rightarrow> HHMM \<Rightarrow> NormalizedAvailabilityRuleInput" where
  "ex_weekly_input day from to = \<lparr>n_ruleType = weekly, n_weekday = Some day, n_date = None,
     n_startTime = Some from, n_endTime = Some to, n_bufferMin = Some 0,
     n_slotIntervalMin = None, n_isClosedAllDay = Some False\<rparr>"

text \<open>UTC, with the calendar functions given for the instants of Monday 11 March 2024.\<close>

definition ex_utc :: Zone where
  "ex_utc = \<lparr>getTimeZoneOffsetMs = (\<lambda>t. 0), utcMidnight = (\<lambda>d. 1710115200000),
     toDateKeyInTimeZone = (\<lambda>t. ''2024-03-11''), weekdayInTimeZone = (\<lambda>t. 1)\<rparr>"

text \<open>America/New_York on Sunday 10 March 2024: the offset is five hours behind UTC before
  07:00 UTC and four hours behind from then on.\<close>

definition ex_new_york :: Zone where
  "ex_new_york = \<lparr>getTimeZoneOffsetMs = (\<lambda>t. if t < 1710054000000 then - 18000000 else - 14400000),
     utcMidnight = (\<lambda>d. 1710028800000),
     toDateKeyInTimeZone = (\<lambda>t. ''2024-03-10''), weekdayInTimeZone = (\<lambda>t. 0)\<rparr>"

definition ex_override :: "string \<Rightarrow> string \<Rightarrow> HHMM option \<Rightarrow> HHMM option \<Rightarrow> AvailabilityRule" where
  "ex_override rid day from to = \<lparr>r_id = rid, r_workspaceId = ''w1'', r_serviceId = ''s1'',
     r_ruleType = Some date_override, r_weekday = None, r_date = Some day, r_startTime = from,
     r_endTime = to, r_bufferMin = Some 0, r_slotIntervalMin = None,
     r_isClosedAllDay = Some False\<rparr>"

definition ex_rules_store :: "AvailabilityRule list \<Rightarrow> AppState" where
  "ex_rules_store rules = (ex_store [] [] [])\<lparr>availabilityRules := rules\<rparr>"

text \<open>The service is open on Sundays from 09:00 to 11:00. The body of a request for a
  date-override rule on Sunday 10 March 2024 from 01:30 to 02:00, and the rule that the
  route stores for it.\<close>

definition ex_sunday :: AppState where
  "ex_sunday = ex_rules_store [ex_weekly ''r1'' 0 (HHMM 9 0) (HHMM 11 0)]"

definition ex_gap_payload :: RulePayload where
  "ex_gap_payload = \<lparr>p_serviceId = JString ''s1'', p_ruleType = JString ''date_override'',
     p_weekday = JUndefined, p_date = JString ''2024-03-10'', p_startTime = JString ''01:30'',
     p_endTime = JString ''02:00'', p_bufferMin = JUndefined, p_slotIntervalMin = JUndefined,
     p_isClosedAllDay = JUndefined\<rparr>"

definition ex_gap_rule :: AvailabilityRule where
  "ex_gap_rule = ex_override ''r2'' ''2024-03-10'' (Some (HHMM 1 30)) (Some (HHMM 2 0))"

definition ex_fresh :: "string \<Rightarrow> Fresh" where
  "ex_fresh bid = \<lparr>f_bookingId = bid, f_reminderJobId = ''job-'' @ bid,
     f_formRequestId = ''fr-'' @ bid, f_formJobId = ''fj-'' @ bid, f_publicToken = ''token'',
     f_now = 1710000000000\<rparr>"

definition ex_request :: "string \<Rightarrow> string \<Rightarrow> instant \<Rightarrow> CreateBookingRequest" where
  "ex_request key hash start = \<lparr>cb_idempotencyKey = Some key, cb_path = ''/public/w1/bookings'',
     cb_requestHash = hash, cb_payloadError = None, cb_serviceId = ''s1'',
     cb_startsAt = Some start\<rparr>"

text \<open>The service is open on Mondays from 09:00 to 17:00; a first booking is created for
  09:00 on Monday 11 March 2024.\<close>

definition ex_open :: AppState where
  "ex_open = ex_rules_store [ex_weekly ''r1'' 1 (HHMM 9 0) (HHMM 17 0)]"

definition ex_after_first :: AppState where
  "ex_after_first = ex_open
     \<lparr>bookings := [\<lparr>b_id = ''b1'', b_workspaceId = ''w1'', b_serviceId = ''s1'',
                     b_startsAt = 1710147600000, b_endsAt = 1710149400000, b_status = pending,
                     b_deletedAt = None\<rparr>],
      automationEvents := [\<lparr>e_workspaceId = ''w1'', e_eventType = ''booking.created'',
                     e_entityType = ''booking'', e_entityId = ''b1'',
                     e_payload = BookingCreatedPayload 1710147600000 ''s1'',
                     e_eventHash = (''booking.created'', ''booking'', ''b1'',
                                    BookingCreatedPayload 1710147600000 ''s1'')\<rparr>],
      scheduledJobs := [\<lparr>j_id = ''job-b1'', j_workspaceId = ''w1'', j_jobType = booking_reminder,
                     j_runAt = 1710061200000, j_status = queued, j_priority = high,
                     j_payloadId = ''b1'', j_attempts = 0, j_lastError = None,
                     j_lockedAt = None, j_lockOwner = None\<rparr>],
      idempotencyKeys := [\<lparr>ik_workspaceId = ''w1'', ik_key = ''k1'', ik_method = ''POST'',
                     ik_path = ''/public/w1/bookings'', ik_requestHash = ''h1'',
                     ik_responseSnapshot = \<lparr>snap_booking = 0, snap_formRequest = None\<rparr>,
                     ik_expiresAt = 1710086400000\<rparr>]\<rparr>"

text \<open>A queue of four jobs; at the instant 1710061200000 all but the third are due.\<close>

definition ex_queue :: AppState where
  "ex_queue = ex_after_first
     \<lparr>scheduledJobs :=
        [\<lparr>j_id = ''job-low'', j_workspaceId = ''w1'', j_jobType = booking_reminder,
          j_runAt = 1710000000000, j_status = queued, j_priority = low,
          j_payloadId = ''b1'', j_attempts = 0, j_lastError = None,
          j_lockedAt = None, j_lockOwner = None\<rparr>,
         \<lparr>j_id = ''job-high'', j_workspaceId = ''w1'', j_jobType = booking_reminder,
          j_runAt = 1710061200000, j_status = queued, j_priority = high,
          j_payloadId = ''b1'', j_attempts = 0, j_lastError = None,
          j_lockedAt = None, j_lockOwner = None\<rparr>,
         \<lparr>j_id = ''job-later'', j_workspaceId = ''w1'', j_jobType = booking_reminder,
          j_runAt = 1710064800000, j_status = queued, j_priority = high,
          j_payloadId = ''b1'', j_attempts = 0, j_lastError = None,
          j_lockedAt = None, j_lockOwner = None\<rparr>,
         \<lparr>j_id = ''job-normal'', j_workspaceId = ''w1'', j_jobType = form_overdue_check,
          j_runAt = 1710050000000, j_status = queued, j_priority = normal,
          j_payloadId = ''fr1'', j_attempts = 0, j_lastError = None,
          j_lockedAt = None, j_lockOwner = None\<rparr>]\<rparr>"

section \<open>Frame lemmas\<close>

lemmas ex_defs = ex_booking_def ex_service_def ex_item_def ex_rule_def ex_store_def emptyState_def

lemma find_SomeD: "find P xs = Some x \<Longrightarrow> x \<in> set xs \<and> P x"
  by (induction xs) (auto split: if_splits)

lemma emitEvent_frame [simp]:
  "bookings (emitEvent w t et ei p st) = bookings st"
  "services (emitEvent w t et ei p st) = services st"
  "availabilityRules (emitEvent w t et ei p st) = availabilityRules st"
  "inventoryItems (emitEvent w t et ei p st) = inventoryItems st"
  "scheduledJobs (emitEvent w t et ei p st) = scheduledJobs st"
  "idempotencyKeys (emitEvent w t et ei p st) = idempotencyKeys st"
  "formTemplates (emitEvent w t et ei p st) = formTemplates st"
  "formRequests (emitEvent w t et ei p st) = formRequests st"
  "alerts (emitEvent w t et ei p st) = alerts st"
  by (simp_all add: emitEvent_def Let_def split: option.splits)

lemma createAlert_frame [simp]:
  "bookings (createAlert w t sv m st) = bookings st"
  "services (createAlert w t sv m st) = services st"
  "availabilityRules (createAlert w t sv m st) = availabilityRules st"
  "inventoryItems (createAlert w t sv m st) = inventoryItems st"
  "scheduledJobs (createAlert w t sv m st) = scheduledJobs st"
  "idempotencyKeys (createAlert w t sv m st) = idempotencyKeys st"
  "formTemplates (createAlert w t sv m st) = formTemplates st"
  "formRequests (createAlert w t sv m st) = formRequests st"
  "automationEvents (createAlert w t sv m st) = automationEvents st"
  by (simp_all add: createAlert_def)

lemma deductRule_frame [simp]:
  "bookings (deductRule w r st) = bookings st"
  "services (deductRule w r st) = services st"
  "availabilityRules (deductRule w r st) = availabilityRules st"
  "scheduledJobs (deductRule w r st) = scheduledJobs st"
  "idempotencyKeys (deductRule w r st) = idempotencyKeys st"
  "formTemplates (deductRule w r st) = formTemplates st"
  "formRequests (deductRule w r st) = formRequests st"
  by (simp_all add: deductRule_def Let_def split: option.splits)

lemma deductInventory_frame [simp]:
  "bookings (deductInventory w rs st) = bookings st"
  "services (deductInventory w rs st) = services st"
  "availabilityRules (deductInventory w rs st) = availabilityRules st"
  "scheduledJobs (deductInventory w rs st) = scheduledJobs st"
  "idempotencyKeys (deductInventory w rs st) = idempotencyKeys st"
  "formTemplates (deductInventory w rs st) = formTemplates st"
  "formRequests (deductInventory w rs st) = formRequests st"
  by (induction rs arbitrary: st; simp)+

lemma applyInventory_frame [simp]:
  "bookings (snd (applyInventoryOnBookingCompleted w b st)) = bookings st"
  "services (snd (applyInventoryOnBookingCompleted w b st)) = services st"
  "availabilityRules (snd (applyInventoryOnBookingCompleted w b st)) = availabilityRules st"
  "scheduledJobs (snd (applyInventoryOnBookingCompleted w b st)) = scheduledJobs st"
  "idempotencyKeys (snd (applyInventoryOnBookingCompleted w b st)) = idempotencyKeys st"
  by (simp_all add: applyInventoryOnBookingCompleted_def split: option.splits)

lemma applyInventory_error_unchanged:
  "applyInventoryOnBookingCompleted w b st = (Some e, st') \<Longrightarrow> st' = st"
  by (auto simp: applyInventoryOnBookingCompleted_def split: option.splits)

section \<open>The booking conflict guard\<close>

text \<open>
  Claim C3. \<open>isBookingOverlapping\<close> answers true exactly when some booking of the workspace
  that is neither cancelled nor a no-show, and whose id differs from the excluded id,
  satisfies \<open>start < otherEnd\<close> and \<open>otherStart < end\<close>. Intervals that only touch at an endpoint
  do not conflict. The excluded id is absent or a non-empty string: the guard tests
  \<open>excludeBookingId && ...\<close>, and booking ids are UUIDs.
\<close>

theorem isBookingOverlapping_spec:
  assumes "excludeBookingId \<noteq> Some []"
  shows "(isBookingOverlapping st workspaceId startsAt endsAt excludeBookingId \<longleftrightarrow>
     (\<exists>b \<in> set (bookings st). b_workspaceId b = workspaceId \<and>
         b_status b \<notin> {cancelled, no_show} \<and> Some (b_id b) \<noteq> excludeBookingId \<and>
         startsAt < b_endsAt b \<and> b_startsAt b < endsAt)) \<and>
     ((\<forall>b \<in> set (bookings st). b_endsAt b \<le> startsAt \<or> endsAt \<le> b_startsAt b) \<longrightarrow>
        \<not> isBookingOverlapping st workspaceId startsAt endsAt excludeBookingId)"
  using assms
  by (cases excludeBookingId) (auto simp: isBookingOverlapping_def list_ex_iff truthy_def)

theorem isBookingOverlapping_spec_witness:
  "Some ''b2'' \<noteq> Some [] \<and>
   isBookingOverlapping (ex_store [] [] [ex_booking]) ''w1'' 1500 2500 (Some ''b2'') \<and>
   \<not> isBookingOverlapping (ex_store [] [] [ex_booking]) ''w1'' 2000 3000 (Some ''b2'')"
proof -
  have h: "Some ''b2'' \<noteq> Some []" by simp
  from isBookingOverlapping_spec [OF h, of "ex_store [] [] [ex_booking]" "''w1''" 1500 2500]
       isBookingOverlapping_spec [OF h, of "ex_store [] [] [ex_booking]" "''w1''" 2000 3000]
  show ?thesis by (simp add: ex_defs)
qed

text \<open>An empty excluded id is falsy and excludes nothing.\<close>

lemma isBookingOverlapping_empty_exclude:
  "isBookingOverlapping st w s e (Some []) = isBookingOverlapping st w s e None"
  by (auto simp: isBookingOverlapping_def list_ex_iff truthy_def)

section \<open>The booking status state machine\<close>

lemma transitions_table:
  "t \<in> set (transitions s) \<longleftrightarrow>
     (s = pending \<and> (t = confirmed \<or> t = cancelled \<or> t = no_show)) \<or>
     (s = confirmed \<and> (t = completed \<or> t = cancelled \<or> t = no_show))"
  by (cases s) auto

lemma patch_invalid:
  assumes "find (isLiveBooking ws bid) (bookings st) = Some b"
      and "parseBookingStatus raw = Some t"
      and "t \<notin> set (transitions (b_status b))"
  shows "patchBookingStatus ws bid raw st = (Inl (InvalidTransition (b_status b) t), st)"
  using assms by (simp add: patchBookingStatus_def)

lemma patch_valid_noncompleted:
  assumes "find (isLiveBooking ws bid) (bookings st) = Some b"
      and "parseBookingStatus raw = Some t"
      and "t \<in> set (transitions (b_status b))" and "t \<noteq> completed"
  shows "fst (patchBookingStatus ws bid raw st) = Inr (b\<lparr>b_status := t\<rparr>) \<and>
         bookings (snd (patchBookingStatus ws bid raw st)) =
           updateFirst (isLiveBooking ws bid) (\<lambda>item. item\<lparr>b_status := t\<rparr>) (bookings st)"
  using assms by (simp add: patchBookingStatus_def Let_def)

lemma patch_valid_completed:
  assumes "find (isLiveBooking ws bid) (bookings st) = Some b"
      and "parseBookingStatus raw = Some completed"
      and "completed \<in> set (transitions (b_status b))"
  shows "(case applyInventoryOnBookingCompleted ws (b_id b) st of
           (Some e, st1) \<Rightarrow> patchBookingStatus ws bid raw st = (Inl (InventoryConflict e), st)
         | (None, st1) \<Rightarrow>
             fst (patchBookingStatus ws bid raw st) = Inr (b\<lparr>b_status := completed\<rparr>) \<and>
             bookings (snd (patchBookingStatus ws bid raw st)) =
               updateFirst (isLiveBooking ws bid) (\<lambda>item. item\<lparr>b_status := completed\<rparr>)
                 (bookings st))"
  using assms
  apply (simp add: patchBookingStatus_def Let_def split: prod.splits option.splits)
  apply (auto dest: applyInventory_error_unchanged)
  apply (metis applyInventory_frame(1) snd_conv)
  done



text \<open>Soft delete is a separate route. It writes \<open>cancelled\<close> whatever the status was.\<close>

lemma deleteBooking_sets_cancelled:
  assumes "find (isLiveBooking workspaceId bookingId) (bookings st) = Some booking"
  shows "fst (deleteBooking workspaceId bookingId now st) =
           Inr (booking\<lparr>b_status := cancelled, b_deletedAt := Some now\<rparr>)"
  using assms by (simp add: deleteBooking_def Let_def)

section \<open>Inventory consumption\<close>

lemma find_updateFirst_pres:
  assumes "\<And>x. Q (f x) = Q x"
  shows "find Q (updateFirst P f xs) = None \<longleftrightarrow> find Q xs = None"
  using assms by (induction xs) auto

lemma findItem_deductRule_None:
  "findItem (inventoryItems (deductRule w r' st)) w r = None \<longleftrightarrow>
   findItem (inventoryItems st) w r = None"
  by (simp add: deductRule_def findItem_def Let_def find_updateFirst_pres split: option.splits)

lemma deductRule_unknown: "findItem (inventoryItems st) w r = None \<Longrightarrow> deductRule w r st = st"
  by (simp add: deductRule_def)

lemma findItem_deductInventory_None:
  "findItem (inventoryItems (deductInventory w rs st)) w r = None \<longleftrightarrow>
   findItem (inventoryItems st) w r = None"
  by (induction rs arbitrary: st) (simp_all add: findItem_deductRule_None)

lemma checkInventory_skip:
  "findItem items w r = None \<Longrightarrow>
   checkInventory items w (rs1 @ r # rs2) = checkInventory items w (rs1 @ rs2)"
  by (induction rs1) (auto split: option.splits)

lemma deductInventory_append:
  "deductInventory w (rs1 @ rs2) st = deductInventory w rs2 (deductInventory w rs1 st)"
  by (induction rs1 arbitrary: st) simp_all

lemma deductInventory_skip:
  "findItem (inventoryItems st) w r = None \<Longrightarrow>
   deductInventory w (rs1 @ r # rs2) st = deductInventory w (rs1 @ rs2) st"
  by (simp add: deductInventory_append deductRule_unknown findItem_deductInventory_None)

lemma find_updateFirst_same:
  assumes "\<And>x. P (f x) = P x"
  shows "find P (updateFirst P f xs) = map_option f (find P xs)"
  using assms by (induction xs) auto

lemma find_updateFirst_other:
  assumes "\<And>x. Q (f x) = Q x" and "\<And>x. P x \<Longrightarrow> \<not> Q x"
  shows "find Q (updateFirst P f xs) = find Q xs"
  using assms by (induction xs) auto

lemma findItem_deductRule:
  "findItem (inventoryItems (deductRule w r' st)) w r =
     (if itemId r = itemId r'
      then map_option (\<lambda>it. it\<lparr>i_quantityOnHand := i_quantityOnHand it - quantity r'\<rparr>)
             (findItem (inventoryItems st) w r)
      else findItem (inventoryItems st) w r)"
proof (cases "findItem (inventoryItems st) w r'")
  case None
  then show ?thesis by (auto simp: deductRule_def findItem_def)
next
  case (Some item)
  show ?thesis
  proof (cases "itemId r = itemId r'")
    case True
    with Some show ?thesis
      by (simp add: deductRule_def findItem_def Let_def find_updateFirst_same)
  next
    case False
    have "find (\<lambda>inventoryItem. i_workspaceId inventoryItem = w \<and> i_id inventoryItem = itemId r)
            (updateFirst (\<lambda>inventoryItem. i_workspaceId inventoryItem = w \<and>
                             i_id inventoryItem = itemId r')
               (\<lambda>inventoryItem. inventoryItem\<lparr>i_quantityOnHand :=
                                   i_quantityOnHand item - quantity r'\<rparr>) (inventoryItems st))
          = find (\<lambda>inventoryItem. i_workspaceId inventoryItem = w \<and> i_id inventoryItem = itemId r)
              (inventoryItems st)"
      by (rule find_updateFirst_other) (use False in auto)
    with Some False show ?thesis
      by (simp add: deductRule_def findItem_def Let_def)
  qed
qed

lemma findItem_deductInventory_other:
  "itemId r \<notin> set (map itemId rules) \<Longrightarrow>
   findItem (inventoryItems (deductInventory w rules st)) w r = findItem (inventoryItems st) w r"
  by (induction rules arbitrary: st) (auto simp: findItem_deductRule)

lemma deductInventory_exact:
  assumes "distinct (map itemId rules)" and "rule \<in> set rules"
      and "findItem (inventoryItems st) w rule = Some item"
  shows "findItem (inventoryItems (deductInventory w rules st)) w rule =
           Some (item\<lparr>i_quantityOnHand := i_quantityOnHand item - quantity rule\<rparr>)"
  using assms
proof (induction rules arbitrary: st)
  case Nil
  then show ?case by simp
next
  case (Cons r rules)
  show ?case
  proof (cases "rule = r")
    case True
    with Cons.prems have "itemId rule \<notin> set (map itemId rules)" by auto
    then show ?thesis using True Cons.prems(3)
      by (simp add: findItem_deductInventory_other findItem_deductRule)
  next
    case False
    with Cons.prems have in_rest: "rule \<in> set rules" by simp
    with Cons.prems(1) have ne: "itemId rule \<noteq> itemId r" by (auto simp: image_iff)
    have "findItem (inventoryItems (deductRule w r st)) w rule = Some item"
      using ne Cons.prems(3) by (simp add: findItem_deductRule)
    with Cons.IH [of "deductRule w r st"] Cons.prems(1) in_rest show ?thesis by simp
  qed
qed

lemma checkInventory_None_iff:
  "checkInventory items w rules = None \<longleftrightarrow>
     (\<forall>rule \<in> set rules. \<forall>item. findItem items w rule = Some item \<longrightarrow>
         quantity rule \<le> i_quantityOnHand item)"
  by (induction rules) (auto split: option.splits)

lemma applyInventory_success_iff:
  assumes "find (\<lambda>item. b_id item = bookingId \<and> b_workspaceId item = workspaceId) (bookings st)
             = Some booking"
      and "find (\<lambda>item. s_id item = b_serviceId booking \<and> s_workspaceId item = workspaceId)
             (services st) = Some service"
  shows "fst (applyInventoryOnBookingCompleted workspaceId bookingId st) = None \<longleftrightarrow>
           (\<forall>rule \<in> set (s_inventoryRules service). \<forall>item.
               findItem (inventoryItems st) workspaceId rule = Some item \<longrightarrow>
               quantity rule \<le> i_quantityOnHand item)"
  using assms
  by (simp add: applyInventoryOnBookingCompleted_def checkInventory_None_iff [symmetric]
        split: option.splits)

text \<open>
  Claim C10. A consumption entry whose item id matches no inventory item of the workspace
  is skipped by both loops: completion behaves exactly as if the entry were not in the
  service's list, so it neither fails nor deducts anything for that entry.
\<close>

theorem unknown_item_skipped:
  assumes "find (\<lambda>item. b_id item = bookingId \<and> b_workspaceId item = workspaceId) (bookings st)
             = Some booking"
      and "find (\<lambda>item. s_id item = b_serviceId booking \<and> s_workspaceId item = workspaceId)
             (services st) = Some service"
      and "s_inventoryRules service = before @ rule # after"
      and "findItem (inventoryItems st) workspaceId rule = None"
  shows "applyInventoryOnBookingCompleted workspaceId bookingId st =
           (case checkInventory (inventoryItems st) workspaceId (before @ after) of
              Some name \<Rightarrow> (Some (InsufficientInventory name), st)
            | None \<Rightarrow> (None, deductInventory workspaceId (before @ after) st))"
  using assms
  by (simp add: applyInventoryOnBookingCompleted_def checkInventory_skip deductInventory_skip
        split: option.splits)

theorem unknown_item_skipped_witness:
  "patchBookingStatus ''w1'' ''b1'' ''completed''
     (ex_store [ex_rule ''ghost'' 5] [ex_item 2 1] [ex_booking\<lparr>b_status := confirmed\<rparr>]) =
   (Inr (ex_booking\<lparr>b_status := completed\<rparr>),
    emitEvent ''w1'' ''booking.completed'' ''booking'' ''b1'' (StatusPayload completed)
      (ex_store [ex_rule ''ghost'' 5] [ex_item 2 1] [ex_booking\<lparr>b_status := completed\<rparr>]))"
proof -
  let ?st = "ex_store [ex_rule ''ghost'' 5] [ex_item 2 1] [ex_booking\<lparr>b_status := confirmed\<rparr>]"
  have a: "find (\<lambda>item. b_id item = ''b1'' \<and> b_workspaceId item = ''w1'') (bookings ?st)
             = Some (ex_booking\<lparr>b_status := confirmed\<rparr>)"
    by (simp add: ex_defs)
  have b: "find (\<lambda>item. s_id item = b_serviceId (ex_booking\<lparr>b_status := confirmed\<rparr>) \<and>
                         s_workspaceId item = ''w1'') (services ?st)
             = Some (ex_service [ex_rule ''ghost'' 5])"
    by (simp add: ex_defs)
  have c: "s_inventoryRules (ex_service [ex_rule ''ghost'' 5]) = [] @ ex_rule ''ghost'' 5 # []"
    by (simp add: ex_defs)
  have d: "findItem (inventoryItems ?st) ''w1'' (ex_rule ''ghost'' 5) = None"
    by (simp add: ex_defs findItem_def)
  have "applyInventoryOnBookingCompleted ''w1'' ''b1'' ?st = (None, ?st)"
    using unknown_item_skipped [OF a b c d] by simp
  then show ?thesis
    by (simp add: patchBookingStatus_def parseBookingStatus_def isLiveBooking_def Let_def
          statusEventType_def ex_defs)
qed

text \<open>
  Claim C6. The sufficiency check compares each entry of the consumption list with the
  stock on its own, and the deduction loop then subtracts every entry. With two entries for
  one item and stock between the larger entry and their sum, the confirmed booking is
  completed and the item's stock ends below zero. For a list with distinct item ids the
  claim holds: \<open>applyInventory_error_unchanged\<close>, \<open>applyInventory_success_iff\<close> and
  \<open>deductInventory_exact\<close>.
\<close>

theorem duplicate_entries_overdraw:
  "fst (patchBookingStatus ''w1'' ''b1'' ''completed''
     (ex_store [ex_rule ''gloves'' 3, ex_rule ''gloves'' 3] [ex_item 5 0]
        [ex_booking\<lparr>b_status := confirmed\<rparr>])) = Inr (ex_booking\<lparr>b_status := completed\<rparr>) \<and>
   map i_quantityOnHand (inventoryItems (snd (patchBookingStatus ''w1'' ''b1'' ''completed''
     (ex_store [ex_rule ''gloves'' 3, ex_rule ''gloves'' 3] [ex_item 5 0]
        [ex_booking\<lparr>b_status := confirmed\<rparr>])))) = [- 1]"
  by (simp add: patchBookingStatus_def parseBookingStatus_def isLiveBooking_def Let_def
        statusEventType_def ex_defs applyInventoryOnBookingCompleted_def findItem_def
        deductRule_def emitEvent_def createAlert_def)

text \<open>
  Claim C7, as the code has it. A deduction that leaves an item at or below its low-stock
  threshold appends a low-stock alert, whatever the quantity was before the deduction; it
  appends a low-stock event as well unless an event with the same workspace, item, resulting
  quantity and threshold is already stored.
\<close>

theorem low_stock_signal_per_deduction:
  assumes "findItem (inventoryItems st) workspaceId rule = Some item"
  shows "alerts (deductRule workspaceId rule st) =
     (if i_quantityOnHand item - quantity rule \<le> i_lowStockThreshold item
      then alerts st @ [\<lparr>a_workspaceId = workspaceId, a_type = ''inventory.low_stock'',
                         a_severity = warning,
                         a_message = LowStockMessage (i_name item)
                           (i_quantityOnHand item - quantity rule) (i_unit item)\<rparr>]
      else alerts st) \<and>
    automationEvents (deductRule workspaceId rule st) =
     (if i_quantityOnHand item - quantity rule \<le> i_lowStockThreshold item \<and>
         \<not> (\<exists>ev \<in> set (automationEvents st). e_workspaceId ev = workspaceId \<and>
               e_eventType ev = ''inventory.low_stock'' \<and> e_entityType ev = ''inventory_item'' \<and>
               e_entityId ev = i_id item \<and>
               e_eventHash ev = (''inventory.low_stock'', ''inventory_item'', i_id item,
                  LowStockPayload (i_quantityOnHand item - quantity rule)
                    (i_lowStockThreshold item)))
      then automationEvents st @
           [\<lparr>e_workspaceId = workspaceId, e_eventType = ''inventory.low_stock'',
             e_entityType = ''inventory_item'', e_entityId = i_id item,
             e_payload = LowStockPayload (i_quantityOnHand item - quantity rule)
                           (i_lowStockThreshold item),
             e_eventHash = (''inventory.low_stock'', ''inventory_item'', i_id item,
                  LowStockPayload (i_quantityOnHand item - quantity rule)
                    (i_lowStockThreshold item))\<rparr>]
      else automationEvents st)"
  using assms
  by (auto simp: deductRule_def Let_def emitEvent_def createAlert_def find_None_iff
        split: option.splits dest!: find_SomeD)

theorem low_stock_signal_per_deduction_witness:
  "findItem (inventoryItems (ex_store [] [ex_item 2 5] [])) ''w1'' (ex_rule ''gloves'' 1)
     = Some (ex_item 2 5) \<and>
   alerts (deductRule ''w1'' (ex_rule ''gloves'' 1) (ex_store [] [ex_item 2 5] [])) =
     [\<lparr>a_workspaceId = ''w1'', a_type = ''inventory.low_stock'', a_severity = warning,
       a_message = LowStockMessage ''Gloves'' 1 ''box''\<rparr>]"
proof -
  have f: "findItem (inventoryItems (ex_store [] [ex_item 2 5] [])) ''w1'' (ex_rule ''gloves'' 1)
     = Some (ex_item 2 5)"
    by (simp add: findItem_def ex_defs)
  from low_stock_signal_per_deduction [OF f] f show ?thesis
    by (simp add: ex_defs)
qed

text \<open>
  The claim as stated fails: the first completion brings the item from 6 to its threshold 5
  and raises an alert and an event; the second completion brings it from 5 to 4 and raises
  both again.
\<close>

theorem low_stock_once_per_crossing_counterexample:
  "map i_quantityOnHand (inventoryItems (snd (patchBookingStatus ''w1'' ''b1'' ''completed''
      (ex_store [ex_rule ''gloves'' 1] [ex_item 6 5]
         [ex_booking\<lparr>b_status := confirmed\<rparr>, ex_booking2])))) = [5] \<and>
   map a_type (alerts (snd (patchBookingStatus ''w1'' ''b1'' ''completed''
      (ex_store [ex_rule ''gloves'' 1] [ex_item 6 5]
         [ex_booking\<lparr>b_status := confirmed\<rparr>, ex_booking2])))) = [''inventory.low_stock''] \<and>
   map i_quantityOnHand (inventoryItems (snd (patchBookingStatus ''w1'' ''b2'' ''completed''
      (snd (patchBookingStatus ''w1'' ''b1'' ''completed''
        (ex_store [ex_rule ''gloves'' 1] [ex_item 6 5]
           [ex_booking\<lparr>b_status := confirmed\<rparr>, ex_booking2])))))) = [4] \<and>
   map a_type (alerts (snd (patchBookingStatus ''w1'' ''b2'' ''completed''
      (snd (patchBookingStatus ''w1'' ''b1'' ''completed''
        (ex_store [ex_rule ''gloves'' 1] [ex_item 6 5]
           [ex_booking\<lparr>b_status := confirmed\<rparr>, ex_booking2]))))))
     = [''inventory.low_stock'', ''inventory.low_stock''] \<and>
   map e_eventType (automationEvents (snd (patchBookingStatus ''w1'' ''b2'' ''completed''
      (snd (patchBookingStatus ''w1'' ''b1'' ''completed''
        (ex_store [ex_rule ''gloves'' 1] [ex_item 6 5]
           [ex_booking\<lparr>b_status := confirmed\<rparr>, ex_booking2]))))))
     = [''inventory.low_stock'', ''booking.completed'', ''inventory.low_stock'',
        ''booking.completed'']"
  by (simp add: patchBookingStatus_def parseBookingStatus_def isLiveBooking_def Let_def
        statusEventType_def ex_defs ex_booking2_def applyInventoryOnBookingCompleted_def
        findItem_def deductRule_def emitEvent_def createAlert_def)

section \<open>Availability rule conflicts\<close>

lemma hasOverlappingRule_weekly:
  assumes "existing \<in> set (availabilityRules st)"
      and "r_workspaceId existing = workspaceId" and "r_serviceId existing = serviceId"
      and "resolveRuleType existing = weekly" and "n_ruleType candidate = weekly"
      and "r_weekday existing = n_weekday candidate"
      and "r_startTime existing = Some s1" and "r_endTime existing = Some e1"
      and "n_startTime candidate = Some s2" and "n_endTime candidate = Some e2"
      and "minutesOf s2 < minutesOf e1" and "minutesOf s1 < minutesOf e2"
      and "\<not> (truthy exclude \<and> Some (r_id existing) = exclude)"
  shows "hasOverlappingRule st workspaceId serviceId candidate exclude"
  unfolding hasOverlappingRule_def list_ex_iff
  using assms
  by (intro bexI [of _ existing])
     (auto simp: normalizeAvailabilityRule_def timesOverlap_def timeOr0000_def overlap_def
        dateAtTimeIso2000_def Let_def)

text \<open>
  Claim C5. Let a weekly rule of a service be stored, and let a weekly candidate for the
  same service have the same weekday and a time-of-day interval that overlaps the stored
  rule's. Then creating the candidate fails with the Conflict error and the state is
  unchanged, and so does updating any other rule of the service to the candidate.
\<close>

theorem weekly_rule_conflict_rejected:
  assumes "existing \<in> set (availabilityRules st)"
      and "r_workspaceId existing = workspaceId" and "r_serviceId existing = serviceId"
      and "resolveRuleType existing = weekly" and "n_ruleType candidate = weekly"
      and "r_weekday existing = n_weekday candidate"
      and "r_startTime existing = Some s1" and "r_endTime existing = Some e1"
      and "n_startTime candidate = Some s2" and "n_endTime candidate = Some e2"
      and "minutesOf s2 < minutesOf e1" and "minutesOf s1 < minutesOf e2"
  shows "(serviceId \<noteq> [] \<and>
          find (\<lambda>item. s_id item = serviceId \<and> s_workspaceId item = workspaceId) (services st)
            \<noteq> None \<longrightarrow>
          createAvailabilityRule newId workspaceId serviceId (Inr candidate) st =
            (Inl (Conflict ''Overlapping availability rule exists''), st)) \<and>
         (\<forall>target. find (\<lambda>item. r_id item = ruleId \<and> r_workspaceId item = workspaceId)
                      (availabilityRules st) = Some target \<and>
                    r_serviceId target = serviceId \<and> r_id existing \<noteq> r_id target \<longrightarrow>
          updateAvailabilityRule workspaceId ruleId (Inr candidate) st =
            (Inl (Conflict ''Overlapping availability rule exists''), st))"
proof (intro conjI impI allI)
  assume "serviceId \<noteq> [] \<and>
          find (\<lambda>item. s_id item = serviceId \<and> s_workspaceId item = workspaceId) (services st)
            \<noteq> None"
  moreover have "hasOverlappingRule st workspaceId serviceId candidate None"
    by (rule hasOverlappingRule_weekly [OF assms]) (simp add: truthy_def)
  ultimately show "createAvailabilityRule newId workspaceId serviceId (Inr candidate) st =
            (Inl (Conflict ''Overlapping availability rule exists''), st)"
    by (auto simp: createAvailabilityRule_def)
next
  fix target
  assume t: "find (\<lambda>item. r_id item = ruleId \<and> r_workspaceId item = workspaceId)
                      (availabilityRules st) = Some target \<and>
                    r_serviceId target = serviceId \<and> r_id existing \<noteq> r_id target"
  have "hasOverlappingRule st workspaceId serviceId candidate (Some (r_id target))"
    by (rule hasOverlappingRule_weekly [OF assms]) (use t in simp)
  with t show "updateAvailabilityRule workspaceId ruleId (Inr candidate) st =
            (Inl (Conflict ''Overlapping availability rule exists''), st)"
    by (auto simp: updateAvailabilityRule_def)
qed

theorem weekly_rule_conflict_rejected_witness:
  "createAvailabilityRule ''r9'' ''w1'' ''s1'' (Inr (ex_weekly_input 1 (HHMM 10 0) (HHMM 12 0)))
     ((ex_store [] [] [])\<lparr>availabilityRules := [ex_weekly ''r1'' 1 (HHMM 9 0) (HHMM 11 0),
                                                 ex_weekly ''r2'' 1 (HHMM 14 0) (HHMM 15 0)]\<rparr>) =
     (Inl (Conflict ''Overlapping availability rule exists''),
      (ex_store [] [] [])\<lparr>availabilityRules := [ex_weekly ''r1'' 1 (HHMM 9 0) (HHMM 11 0),
                                                 ex_weekly ''r2'' 1 (HHMM 14 0) (HHMM 15 0)]\<rparr>) \<and>
   updateAvailabilityRule ''w1'' ''r2'' (Inr (ex_weekly_input 1 (HHMM 10 0) (HHMM 12 0)))
     ((ex_store [] [] [])\<lparr>availabilityRules := [ex_weekly ''r1'' 1 (HHMM 9 0) (HHMM 11 0),
                                                 ex_weekly ''r2'' 1 (HHMM 14 0) (HHMM 15 0)]\<rparr>) =
     (Inl (Conflict ''Overlapping availability rule exists''),
      (ex_store [] [] [])\<lparr>availabilityRules := [ex_weekly ''r1'' 1 (HHMM 9 0) (HHMM 11 0),
                                                 ex_weekly ''r2'' 1 (HHMM 14 0) (HHMM 15 0)]\<rparr>)"
proof -
  let ?st = "(ex_store [] [] [])\<lparr>availabilityRules := [ex_weekly ''r1'' 1 (HHMM 9 0) (HHMM 11 0),
                                                 ex_weekly ''r2'' 1 (HHMM 14 0) (HHMM 15 0)]\<rparr>"
  let ?c = "ex_weekly_input 1 (HHMM 10 0) (HHMM 12 0)"
  let ?e = "ex_weekly ''r1'' 1 (HHMM 9 0) (HHMM 11 0)"
  have th: "(''s1'' \<noteq> [] \<and>
          find (\<lambda>item. s_id item = ''s1'' \<and> s_workspaceId item = ''w1'') (services ?st)
            \<noteq> None \<longrightarrow>
          createAvailabilityRule ''r9'' ''w1'' ''s1'' (Inr ?c) ?st =
            (Inl (Conflict ''Overlapping availability rule exists''), ?st)) \<and>
         (\<forall>target. find (\<lambda>item. r_id item = ''r2'' \<and> r_workspaceId item = ''w1'')
                      (availabilityRules ?st) = Some target \<and>
                    r_serviceId target = ''s1'' \<and> r_id ?e \<noteq> r_id target \<longrightarrow>
          updateAvailabilityRule ''w1'' ''r2'' (Inr ?c) ?st =
            (Inl (Conflict ''Overlapping availability rule exists''), ?st))"
    by (rule weekly_rule_conflict_rejected [where existing = ?e and ?s1.0 = "HHMM 9 0"
          and ?e1.0 = "HHMM 11 0" and ?s2.0 = "HHMM 10 0" and ?e2.0 = "HHMM 12 0"])
       (simp_all add: ex_weekly_def ex_weekly_input_def resolveRuleType_def minutesOf_def)
  have s: "find (\<lambda>item. s_id item = ''s1'' \<and> s_workspaceId item = ''w1'') (services ?st) \<noteq> None"
    by (simp add: ex_defs)
  have t: "find (\<lambda>item. r_id item = ''r2'' \<and> r_workspaceId item = ''w1'')
             (availabilityRules ?st) = Some (ex_weekly ''r2'' 1 (HHMM 14 0) (HHMM 15 0))"
    by (simp add: ex_weekly_def)
  from th s have c1: "createAvailabilityRule ''r9'' ''w1'' ''s1'' (Inr ?c) ?st =
            (Inl (Conflict ''Overlapping availability rule exists''), ?st)" by simp
  from th t have c2: "updateAvailabilityRule ''w1'' ''r2'' (Inr ?c) ?st =
            (Inl (Conflict ''Overlapping availability rule exists''), ?st)"
    by (simp add: ex_weekly_def)
  from c1 c2 show ?thesis by simp
qed

text \<open>The same on the route, where the candidate is what \<open>parseAvailabilityRuleInput\<close>
  makes of the request body.\<close>

lemma weekly_rule_conflict_on_post:
  assumes "existing \<in> set (availabilityRules st)"
      and "r_workspaceId existing = workspaceId" and "r_serviceId existing = serviceId"
      and "resolveRuleType existing = weekly" and "n_ruleType candidate = weekly"
      and "r_weekday existing = n_weekday candidate"
      and "r_startTime existing = Some s1" and "r_endTime existing = Some e1"
      and "n_startTime candidate = Some s2" and "n_endTime candidate = Some e2"
      and "minutesOf s2 < minutesOf e1" and "minutesOf s1 < minutesOf e2"
      and "parseAvailabilityRuleInput payload None = Inr candidate"
      and "getString (p_serviceId payload) = serviceId" and "serviceId \<noteq> []"
      and "find (\<lambda>item. s_id item = serviceId \<and> s_workspaceId item = workspaceId) (services st)
             \<noteq> None"
  shows "postAvailabilityRule newId workspaceId payload st =
           (Inl (Conflict ''Overlapping availability rule exists''), st)"
proof -
  have "hasOverlappingRule st workspaceId serviceId candidate None"
    by (rule hasOverlappingRule_weekly [OF assms(1-12)]) (simp add: truthy_def)
  with assms(13-16) show ?thesis
    by (auto simp: postAvailabilityRule_def createAvailabilityRule_def)
qed

section \<open>Date-override precedence and slot listing\<close>

lemma resolveLoop_weekly:
  "fst (resolveLoop zone w s d wd dur rules Wk Ov Bl Cl) =
     Wk @ windowsOf zone d dur
           (filter (\<lambda>rule. r_workspaceId rule = w \<and> r_serviceId rule = s \<and>
                      resolveRuleType rule = weekly \<and> r_weekday rule = Some wd) rules)"
proof (induction rules arbitrary: Wk Ov Bl Cl)
  case Nil
  then show ?case by (simp add: windowsOf_def List.map_filter_simps)
next
  case (Cons rule rules)
  show ?case
    by (simp add: Cons.IH windowsOf_def List.map_filter_simps split: option.splits)
qed

lemma resolveLoop_override:
  "fst (snd (resolveLoop zone w s d wd dur rules Wk Ov Bl Cl)) =
     Ov @ windowsOf zone d dur
           (filter (\<lambda>rule. r_workspaceId rule = w \<and> r_serviceId rule = s \<and>
                      resolveRuleType rule = date_override \<and> r_date rule = Some d) rules)"
proof (induction rules arbitrary: Wk Ov Bl Cl)
  case Nil
  then show ?case by (simp add: windowsOf_def List.map_filter_simps)
next
  case (Cons rule rules)
  show ?case
    by (simp add: Cons.IH windowsOf_def List.map_filter_simps split: option.splits)
qed

lemma windows_resolve:
  "windows (resolveAvailabilityForDate zone st w s d wd dur) =
     (if windowsOf zone d dur (overrideRulesFor st w s d) \<noteq> []
      then windowsOf zone d dur (overrideRulesFor st w s d)
      else windowsOf zone d dur (weeklyRulesFor st w s wd))"
proof -
  obtain Wk Ov Bl Cl where r: "resolveLoop zone w s d wd dur (availabilityRules st) [] [] [] False = (Wk, Ov, Bl, Cl)"
    by (metis prod_cases4)
  from resolveLoop_weekly [of zone w s d wd dur "availabilityRules st" "[]" "[]" "[]" False] r
  have W: "Wk = windowsOf zone d dur (weeklyRulesFor st w s wd)"
    by (simp add: weeklyRulesFor_def)
  from resolveLoop_override [of zone w s d wd dur "availabilityRules st" "[]" "[]" "[]" False] r
  have O: "Ov = windowsOf zone d dur (overrideRulesFor st w s d)"
    by (simp add: overrideRulesFor_def)
  show ?thesis
    by (simp add: resolveAvailabilityForDate_def r W O)
qed

lemma windowsOf_step:
  "window \<in> set (windowsOf zone d dur rules) \<Longrightarrow> 1 \<le> stepMin window"
  by (auto simp: windowsOf_def List.map_filter_def toAvailabilityWindow_def Let_def
        split: option.splits if_splits)

lemma slotLoop_returns:
  "1 \<le> stepMin window \<Longrightarrow> slotLoop st w resolved dur window cursor slots \<noteq> None"
proof (induction st w resolved dur window cursor slots rule: slotLoop.induct)
  case (1 st workspaceId resolved durationMin window cursor slots)
  show ?case
    using "1.prems" "1.IH"
    by (subst slotLoop.simps) (auto simp: Let_def)
qed

lemma slotLoop_within:
  assumes "slotLoop st w resolved dur window cursor slots = Some out"
      and "startIso window \<le> cursor"
      and "slot \<in> set out"
  shows "slot \<in> set slots \<or> (startIso window \<le> fst slot \<and> snd slot \<le> endIso window)"
  using assms
proof (induction st w resolved dur window cursor slots rule: slotLoop.induct)
  case (1 st workspaceId resolved durationMin window cursor slots)
  show ?case
  proof (cases "cursor < endIso window \<and> \<not> addMinutes cursor durationMin > endIso window \<and>
                \<not> stepMin window \<le> 0")
    case False
    with "1.prems" show ?thesis
      by (subst (asm) slotLoop.simps) (auto simp: Let_def split: if_splits)
  next
    case True
    let ?end = "addMinutes cursor durationMin"
    let ?slots' = "(if \<not> isBookingOverlapping st workspaceId cursor ?end None \<and>
                    \<not> isBlockedByException cursor ?end resolved \<and>
                    cursor \<notin> set (map fst slots)
                 then slots @ [(cursor, ?end)] else slots)"
    have rec: "slotLoop st workspaceId resolved durationMin window
                 (addMinutes cursor (stepMin window)) ?slots' = Some out"
      using "1.prems"(1) True by (subst (asm) slotLoop.simps) (simp add: Let_def)
    have le: "startIso window \<le> addMinutes cursor (stepMin window)"
      using "1.prems"(2) True by (simp add: addMinutes_def)
    have "slot \<in> set ?slots' \<or> (startIso window \<le> fst slot \<and> snd slot \<le> endIso window)"
      using "1.IH" [OF _ refl _ _ rec le "1.prems"(3)] True by auto
    then show ?thesis using True "1.prems"(2) by (auto split: if_splits)
  qed
qed

lemma slotWindows_returns:
  "(\<forall>window \<in> set ws. 1 \<le> stepMin window) \<Longrightarrow>
   slotWindows st w resolved dur ws slots \<noteq> None"
proof (induction ws arbitrary: slots)
  case Nil
  then show ?case by simp
next
  case (Cons window ws)
  then show ?case
    using slotLoop_returns [of window st w resolved dur "startIso window" slots]
    by (auto split: option.splits)
qed

lemma slotWindows_within:
  assumes "slotWindows st w resolved dur ws slots = Some out" and "slot \<in> set out"
  shows "slot \<in> set slots \<or>
         (\<exists>window \<in> set ws. startIso window \<le> fst slot \<and> snd slot \<le> endIso window)"
  using assms
proof (induction ws arbitrary: slots)
  case Nil
  then show ?case by simp
next
  case (Cons window ws)
  from Cons.prems(1) obtain mid where
    m: "slotLoop st w resolved dur window (startIso window) slots = Some mid" and
    r: "slotWindows st w resolved dur ws mid = Some out"
    by (auto split: option.splits)
  from Cons.IH [OF r Cons.prems(2)] show ?case
  proof
    assume "slot \<in> set mid"
    with slotLoop_within [OF m _ this] show ?thesis by auto
  next
    assume "\<exists>window \<in> set ws. startIso window \<le> fst slot \<and> snd slot \<le> endIso window"
    then show ?thesis by auto
  qed
qed

text \<open>
  What the code computes, for any store. The windows resolved for a service and a date are
  the windows of the date-override rules of that date when at least one of these rules
  yields a window (both times present, start instant before end instant in the workspace
  zone); otherwise they are the windows of the weekly rules of the weekday. The slot listing
  returns, and when an override yields a window every slot it lists lies inside an override
  window.
\<close>

theorem date_override_precedence:
  "windows (resolveAvailabilityForDate zone st workspaceId serviceId dateKey weekday dur) =
     (if windowsOf zone dateKey dur (overrideRulesFor st workspaceId serviceId dateKey) \<noteq> []
      then windowsOf zone dateKey dur (overrideRulesFor st workspaceId serviceId dateKey)
      else windowsOf zone dateKey dur (weeklyRulesFor st workspaceId serviceId weekday)) \<and>
   publicSlots zone workspaceId serviceId dateKey st \<noteq> None \<and>
   (\<forall>service slots.
      find (\<lambda>item. s_id item = serviceId \<and> s_workspaceId item = workspaceId \<and> s_isActive item)
        (services st) = Some service \<and>
      publicSlots zone workspaceId serviceId dateKey st = Some (Inr slots) \<and>
      windowsOf zone dateKey (s_durationMin service)
        (overrideRulesFor st workspaceId serviceId dateKey) \<noteq> [] \<longrightarrow>
      (\<forall>slot \<in> set slots.
         \<exists>window \<in> set (windowsOf zone dateKey (s_durationMin service)
                           (overrideRulesFor st workspaceId serviceId dateKey)).
           startIso window \<le> fst slot \<and> snd slot \<le> endIso window))"
proof (intro conjI allI impI ballI)
  show "windows (resolveAvailabilityForDate zone st workspaceId serviceId dateKey weekday dur) =
     (if windowsOf zone dateKey dur (overrideRulesFor st workspaceId serviceId dateKey) \<noteq> []
      then windowsOf zone dateKey dur (overrideRulesFor st workspaceId serviceId dateKey)
      else windowsOf zone dateKey dur (weeklyRulesFor st workspaceId serviceId weekday))"
    by (rule windows_resolve)
next
  have "slotWindows st workspaceId resolved d
          (windows (resolveAvailabilityForDate zone st workspaceId sid dateKey wd d)) []
        \<noteq> None" for resolved d sid wd
    by (rule slotWindows_returns) (auto simp: windows_resolve dest: windowsOf_step)
  then have h: "(slotWindows st workspaceId resolved d
          (windows (resolveAvailabilityForDate zone st workspaceId sid dateKey wd d)) []
        = None) = False" for resolved d sid wd
    by simp
  show "publicSlots zone workspaceId serviceId dateKey st \<noteq> None"
    by (simp add: publicSlots_def Let_def h split: option.splits)
next
  fix service slots slot
  assume a: "find (\<lambda>item. s_id item = serviceId \<and> s_workspaceId item = workspaceId \<and> s_isActive item)
        (services st) = Some service \<and>
      publicSlots zone workspaceId serviceId dateKey st = Some (Inr slots) \<and>
      windowsOf zone dateKey (s_durationMin service)
        (overrideRulesFor st workspaceId serviceId dateKey) \<noteq> []"
    and s: "slot \<in> set slots"
  let ?wd = "weekdayInTimeZone zone (dateAtTimeInTimeZoneIso zone dateKey (HHMM 12 0))"
  let ?res = "resolveAvailabilityForDate zone st workspaceId (s_id service) dateKey ?wd
                (s_durationMin service)"
  from a have sid: "s_id service = serviceId" by (auto dest: find_SomeD)
  from a s have nc: "\<not> closedAllDay ?res"
    by (auto simp: publicSlots_def Let_def split: option.splits if_splits)
  with a obtain raw where
    raw: "slotWindows st workspaceId ?res (s_durationMin service) (windows ?res) [] = Some raw"
    and slots: "slots = sort_key fst raw"
    by (auto simp: publicSlots_def Let_def split: option.splits if_splits)
  from s slots have "slot \<in> set raw" by simp
  from slotWindows_within [OF raw this]
  have "\<exists>window \<in> set (windows ?res). startIso window \<le> fst slot \<and> snd slot \<le> endIso window"
    by simp
  moreover have "windows ?res = windowsOf zone dateKey (s_durationMin service)
                   (overrideRulesFor st workspaceId serviceId dateKey)"
    using a by (simp add: windows_resolve sid)
  ultimately show "\<exists>window \<in> set (windowsOf zone dateKey (s_durationMin service)
                           (overrideRulesFor st workspaceId serviceId dateKey)).
           startIso window \<le> fst slot \<and> snd slot \<le> endIso window"
    by simp
qed

lemmas ex_rule_defs = ex_utc_def ex_override_def ex_rules_store_def ex_weekly_def
  toAvailabilityWindow_def dateAtTimeInTimeZoneIso_def minutesOf_def defaultStep_def
  resolveRuleType_def

lemma ex_windows:
  "windows (resolveAvailabilityForDate ex_utc
      (ex_rules_store [ex_weekly ''r1'' 1 (HHMM 9 0) (HHMM 17 0),
                       ex_override ''r2'' ''2024-03-11'' (Some (HHMM 9 0)) (Some (HHMM 12 0))])
      ''w1'' ''s1'' ''2024-03-11'' 1 30) =
   [\<lparr>startIso = 1710147600000, endIso = 1710158400000, stepMin = 30\<rparr>]"
  by (simp add: resolveAvailabilityForDate_def ex_rule_defs Let_def)


lemma ex_slots:
  "publicSlots ex_utc ''w1'' ''s1'' ''2024-03-11''
      (ex_rules_store [ex_weekly ''r1'' 1 (HHMM 9 0) (HHMM 17 0),
                       ex_override ''r2'' ''2024-03-11'' (Some (HHMM 9 0)) (Some (HHMM 12 0))]) =
   Some (Inr [(1710147600000, 1710149400000), (1710149400000, 1710151200000),
              (1710151200000, 1710153000000), (1710153000000, 1710154800000),
              (1710154800000, 1710156600000), (1710156600000, 1710158400000)])"
  by (simp add: publicSlots_def ex_windows Let_def isDigit_def ex_defs ex_rules_store_def
        ex_utc_def dateAtTimeInTimeZoneIso_def slotLoop.simps addMinutes_def
        isBookingOverlapping_def isBlockedByException_def resolveAvailabilityForDate_def
        ex_override_def ex_weekly_def toAvailabilityWindow_def minutesOf_def defaultStep_def
        resolveRuleType_def)

theorem date_override_precedence_witness:
  "publicSlots ex_utc ''w1'' ''s1'' ''2024-03-11''
      (ex_rules_store [ex_weekly ''r1'' 1 (HHMM 9 0) (HHMM 17 0),
                       ex_override ''r2'' ''2024-03-11'' (Some (HHMM 9 0)) (Some (HHMM 12 0))]) =
   Some (Inr [(1710147600000, 1710149400000), (1710149400000, 1710151200000),
              (1710151200000, 1710153000000), (1710153000000, 1710154800000),
              (1710154800000, 1710156600000), (1710156600000, 1710158400000)]) \<and>
   windowsOf ex_utc ''2024-03-11'' 30
     (overrideRulesFor
        (ex_rules_store [ex_weekly ''r1'' 1 (HHMM 9 0) (HHMM 17 0),
                         ex_override ''r2'' ''2024-03-11'' (Some (HHMM 9 0)) (Some (HHMM 12 0))])
        ''w1'' ''s1'' ''2024-03-11'') =
     [\<lparr>startIso = 1710147600000, endIso = 1710158400000, stepMin = 30\<rparr>] \<and>
   list_all (\<lambda>slot. 1710147600000 \<le> fst slot \<and> snd slot \<le> 1710158400000)
     ([(1710147600000, 1710149400000), (1710149400000, 1710151200000),
       (1710151200000, 1710153000000), (1710153000000, 1710154800000),
       (1710154800000, 1710156600000), (1710156600000, 1710158400000)]
       :: (int \<times> int) list)"
proof -
  let ?st = "ex_rules_store [ex_weekly ''r1'' 1 (HHMM 9 0) (HHMM 17 0),
                       ex_override ''r2'' ''2024-03-11'' (Some (HHMM 9 0)) (Some (HHMM 12 0))]"
  let ?slots = "[(1710147600000, 1710149400000), (1710149400000, 1710151200000),
              (1710151200000, 1710153000000), (1710153000000, 1710154800000),
              (1710154800000, 1710156600000), (1710156600000, 1710158400000)]
              :: (int \<times> int) list"
  have f: "find (\<lambda>item. s_id item = ''s1'' \<and> s_workspaceId item = ''w1'' \<and> s_isActive item)
             (services ?st) = Some (ex_service [])"
    by (simp add: ex_defs ex_rules_store_def)
  have p: "publicSlots ex_utc ''w1'' ''s1'' ''2024-03-11'' ?st = Some (Inr ?slots)"
    by (rule ex_slots)
  have w: "windowsOf ex_utc ''2024-03-11'' 30 (overrideRulesFor ?st ''w1'' ''s1'' ''2024-03-11'') =
             [\<lparr>startIso = 1710147600000, endIso = 1710158400000, stepMin = 30\<rparr>]"
    by (simp add: windowsOf_def overrideRulesFor_def List.map_filter_simps ex_rule_defs Let_def)
  have d: "s_durationMin (ex_service []) = 30" by (simp add: ex_service_def)
  have ne: "windowsOf ex_utc ''2024-03-11'' (s_durationMin (ex_service []))
              (overrideRulesFor ?st ''w1'' ''s1'' ''2024-03-11'') \<noteq> []"
    by (simp only: d w) simp
  note inside = date_override_precedence [of ex_utc ?st "''w1''" "''s1''" "''2024-03-11''" 1 30,
      THEN conjunct2, THEN conjunct2, rule_format, of "ex_service []" ?slots,
      OF conjI [OF f conjI [OF p ne]]]
  have "1710147600000 \<le> fst slot \<and> snd slot \<le> 1710158400000"
    if "slot \<in> set ?slots" for slot :: "int \<times> int"
    using inside [OF that] by (simp only: d w) simp
  then have "list_all (\<lambda>slot. 1710147600000 \<le> fst slot \<and> snd slot \<le> 1710158400000) ?slots"
    by (simp only: list_all_iff) blast
  with p w show ?thesis by blast
qed

text \<open>When every date-override rule of the date yields a window, the windows are those of
  the override rules as soon as there is one, and those of the weekly rules otherwise.\<close>

lemma windowsOf_all:
  assumes "\<forall>rule \<in> set rules. toAvailabilityWindow zone d rule (defaultStep dur rule) \<noteq> None"
  shows "length (windowsOf zone d dur rules) = length rules"
  using assms
  by (induction rules) (auto simp: windowsOf_def List.map_filter_simps split: option.splits)

lemma date_override_precedence_where_valid:
  assumes "\<forall>rule \<in> set (overrideRulesFor st w s d).
             toAvailabilityWindow zone d rule (defaultStep dur rule) \<noteq> None"
  shows "windows (resolveAvailabilityForDate zone st w s d wd dur) =
           (if overrideRulesFor st w s d \<noteq> []
            then windowsOf zone d dur (overrideRulesFor st w s d)
            else windowsOf zone d dur (weeklyRulesFor st w s wd))"
proof -
  from windowsOf_all [OF assms]
  have "windowsOf zone d dur (overrideRulesFor st w s d) \<noteq> [] \<longleftrightarrow> overrideRulesFor st w s d \<noteq> []"
    by (metis length_0_conv)
  then show ?thesis by (simp add: windows_resolve)
qed

text \<open>A date-override rule that passes \<open>parseAvailabilityRuleInput\<close> has a date and both
  times, with the start before the end on the clock.\<close>

lemma timesInput_Inr:
  "timesInput payload existing t msg = Inr (a, b) \<Longrightarrow> minutesOf a < minutesOf b"
  by (auto simp: timesInput_def dateAtTimeIso2000_def split: option.splits if_splits)

lemma parse_override_times:
  assumes "parseAvailabilityRuleInput payload existing = Inr v"
      and "n_ruleType v = date_override"
  shows "\<exists>date a b. n_date v = Some date \<and> isDateKey date \<and> n_startTime v = Some a \<and>
           n_endTime v = Some b \<and> minutesOf a < minutesOf b"
proof -
  from assms obtain date a b where
    "dateInput (p_date payload)
       (case existing of
          Some rule \<Rightarrow> if resolveRuleType rule \<noteq> weekly then r_date rule else None
        | None \<Rightarrow> None) = Some date"
    "timesInput payload existing date_override
       ''startTime and endTime must use HH:mm format'' = Inr (a, b)"
    "n_date v = Some date" "n_startTime v = Some a" "n_endTime v = Some b"
    unfolding parseAvailabilityRuleInput_def Let_def
    by (auto split: option.splits RuleType.splits if_splits sum.splits prod.splits)
  moreover from this(1) have "isDateKey date"
    by (auto simp: dateInput_def Let_def split: if_splits)
  ultimately show ?thesis using timesInput_Inr by blast
qed

lemma ex_gap_parse:
  "parseAvailabilityRuleInput ex_gap_payload None =
     Inr \<lparr>n_ruleType = date_override, n_weekday = None, n_date = Some ''2024-03-10'',
          n_startTime = Some (HHMM 1 30), n_endTime = Some (HHMM 2 0), n_bufferMin = Some 0,
          n_slotIntervalMin = None, n_isClosedAllDay = Some False\<rparr>"
  by (simp add: parseAvailabilityRuleInput_def ex_gap_payload_def nullish_def
        resolveRawRuleType_def dateInput_def trim_def isSpace_def isDigit_def timesInput_def
        timeInput_def inherited_def dateAtTimeIso2000_def minutesOf_def bufferInput_def
        digitValue_def
        numberInput_def slotIntervalInput_def Let_def)

text \<open>
  Claim C4. Date-override precedence: when a date-override rule exists for the date, slot
  resolution uses only the override windows and ignores the weekly rules. The code departs
  from this for an override whose times fall in the hour that the clocks skip. The workspace
  is in New York and the service is open on Sundays from 09:00 to 11:00. The route
  \<open>POST /availability-rules\<close> accepts and stores a date-override rule for Sunday 10 March
  2024 from 01:30 to 02:00, the day the clocks go forward: the parser compares the two times
  on 1 January 2000 in UTC. In the zone, \<open>dateAtTimeInTimeZoneIso\<close> puts 01:30 at 06:30 UTC
  and 02:00, which does not exist that day, at 06:00 UTC; \<open>toAvailabilityWindow\<close> drops the
  rule, no override window is left, and the resolved window and the slots listed for the
  date are those of the weekly rule, from 09:00 to 11:00 local time.
\<close>

theorem date_override_in_dst_gap:
  "postAvailabilityRule ''r2'' ''w1'' ex_gap_payload ex_sunday =
     (Inr ex_gap_rule, ex_sunday\<lparr>availabilityRules := availabilityRules ex_sunday @ [ex_gap_rule]\<rparr>) \<and>
   overrideRulesFor (snd (postAvailabilityRule ''r2'' ''w1'' ex_gap_payload ex_sunday))
     ''w1'' ''s1'' ''2024-03-10'' = [ex_gap_rule] \<and>
   dateAtTimeInTimeZoneIso ex_new_york ''2024-03-10'' (HHMM 1 30) = 1710052200000 \<and>
   dateAtTimeInTimeZoneIso ex_new_york ''2024-03-10'' (HHMM 2 0) = 1710050400000 \<and>
   windows (resolveAvailabilityForDate ex_new_york
     (snd (postAvailabilityRule ''r2'' ''w1'' ex_gap_payload ex_sunday))
     ''w1'' ''s1'' ''2024-03-10'' 0 30) =
     [\<lparr>startIso = 1710075600000, endIso = 1710082800000, stepMin = 30\<rparr>] \<and>
   publicSlots ex_new_york ''w1'' ''s1'' ''2024-03-10''
     (snd (postAvailabilityRule ''r2'' ''w1'' ex_gap_payload ex_sunday)) =
     Some (Inr [(1710075600000, 1710077400000), (1710077400000, 1710079200000),
                (1710079200000, 1710081000000), (1710081000000, 1710082800000)])"
proof -
  let ?st = "ex_sunday\<lparr>availabilityRules := availabilityRules ex_sunday @ [ex_gap_rule]\<rparr>"
  have post: "postAvailabilityRule ''r2'' ''w1'' ex_gap_payload ex_sunday = (Inr ex_gap_rule, ?st)"
  proof -
    have sid: "getString (p_serviceId ex_gap_payload) = ''s1''"
      by (simp add: getString_def trim_def isSpace_def ex_gap_payload_def)
    show ?thesis
      by (simp add: postAvailabilityRule_def ex_gap_parse sid createAvailabilityRule_def
            ex_sunday_def ex_rules_store_def ex_defs hasOverlappingRule_def truthy_def
            normalizeAvailabilityRule_def resolveRuleType_def ex_weekly_def applyRuleShape_def
            ex_gap_rule_def ex_override_def Let_def)
  qed
  have ov: "overrideRulesFor ?st ''w1'' ''s1'' ''2024-03-10'' = [ex_gap_rule]"
    by (simp add: ex_sunday_def overrideRulesFor_def ex_rules_store_def ex_weekly_def ex_gap_rule_def
          ex_override_def resolveRuleType_def)
  have t1: "dateAtTimeInTimeZoneIso ex_new_york ''2024-03-10'' (HHMM 1 30) = 1710052200000"
    and t2: "dateAtTimeInTimeZoneIso ex_new_york ''2024-03-10'' (HHMM 2 0) = 1710050400000"
    by (simp_all add: dateAtTimeInTimeZoneIso_def ex_new_york_def minutesOf_def Let_def)
  have w: "windows (resolveAvailabilityForDate ex_new_york ?st ''w1'' ''s1'' ''2024-03-10'' 0 30) =
     [\<lparr>startIso = 1710075600000, endIso = 1710082800000, stepMin = 30\<rparr>]"
    by (simp add: ex_sunday_def resolveAvailabilityForDate_def ex_new_york_def ex_override_def ex_gap_rule_def
        ex_rules_store_def ex_weekly_def toAvailabilityWindow_def dateAtTimeInTimeZoneIso_def
        minutesOf_def defaultStep_def resolveRuleType_def Let_def)
  have sl: "publicSlots ex_new_york ''w1'' ''s1'' ''2024-03-10'' ?st =
     Some (Inr [(1710075600000, 1710077400000), (1710077400000, 1710079200000),
                (1710079200000, 1710081000000), (1710081000000, 1710082800000)])"
    by (simp add: ex_sunday_def publicSlots_def Let_def isDigit_def ex_defs ex_rules_store_def
        ex_new_york_def dateAtTimeInTimeZoneIso_def slotLoop.simps addMinutes_def
        isBookingOverlapping_def isBlockedByException_def resolveAvailabilityForDate_def
        ex_override_def ex_gap_rule_def ex_weekly_def toAvailabilityWindow_def minutesOf_def
        defaultStep_def resolveRuleType_def)
  show ?thesis
    by (simp only: post snd_conv ov t1 t2 w sl)
qed

section \<open>Booking creation, the ledger and the no-overlap invariant\<close>

lemma enqueueJob_frame [simp]:
  "bookings (enqueueJob i w t r p pr st) = bookings st"
  "services (enqueueJob i w t r p pr st) = services st"
  "availabilityRules (enqueueJob i w t r p pr st) = availabilityRules st"
  "inventoryItems (enqueueJob i w t r p pr st) = inventoryItems st"
  "idempotencyKeys (enqueueJob i w t r p pr st) = idempotencyKeys st"
  "formTemplates (enqueueJob i w t r p pr st) = formTemplates st"
  "formRequests (enqueueJob i w t r p pr st) = formRequests st"
  "alerts (enqueueJob i w t r p pr st) = alerts st"
  "automationEvents (enqueueJob i w t r p pr st) = automationEvents st"
  by (simp_all add: enqueueJob_def)

lemma saveIdempotency_frame [simp]:
  "bookings (saveIdempotency n w k m p h sn st) = bookings st"
  "services (saveIdempotency n w k m p h sn st) = services st"
  "availabilityRules (saveIdempotency n w k m p h sn st) = availabilityRules st"
  "inventoryItems (saveIdempotency n w k m p h sn st) = inventoryItems st"
  "scheduledJobs (saveIdempotency n w k m p h sn st) = scheduledJobs st"
  "formTemplates (saveIdempotency n w k m p h sn st) = formTemplates st"
  "formRequests (saveIdempotency n w k m p h sn st) = formRequests st"
  "alerts (saveIdempotency n w k m p h sn st) = alerts st"
  "automationEvents (saveIdempotency n w k m p h sn st) = automationEvents st"
  by (simp_all add: saveIdempotency_def)

lemma createFormRequest_frame [simp]:
  "bookings (snd (createFormRequest f w b t d st)) = bookings st"
  "services (snd (createFormRequest f w b t d st)) = services st"
  "availabilityRules (snd (createFormRequest f w b t d st)) = availabilityRules st"
  "inventoryItems (snd (createFormRequest f w b t d st)) = inventoryItems st"
  "idempotencyKeys (snd (createFormRequest f w b t d st)) = idempotencyKeys st"
  "formTemplates (snd (createFormRequest f w b t d st)) = formTemplates st"
  "alerts (snd (createFormRequest f w b t d st)) = alerts st"
  "automationEvents (snd (createFormRequest f w b t d st)) = automationEvents st"
  by (simp_all add: createFormRequest_def Let_def)

lemma saveIdempotency_keys [simp]:
  "idempotencyKeys (saveIdempotency n w k m p h sn st) = idempotencyKeys st @
     [\<lparr>ik_workspaceId = w, ik_key = k, ik_method = m, ik_path = p, ik_requestHash = h,
       ik_responseSnapshot = sn, ik_expiresAt = addDays n 1\<rparr>]"
  by (simp add: saveIdempotency_def)

text \<open>The outcome of a creation request: a failure or a replay with the state unchanged,
  or a creation, for which every guard has passed.\<close>

lemma publicCreateBooking_cases:
  assumes "publicCreateBooking zone w fresh req st = (resp, st')"
  shows "(\<exists>e. resp = Failed e \<and> st' = st) \<or> (\<exists>v. resp = Replayed v \<and> st' = st) \<or>
         (\<exists>v service start key.
            resp = Created v \<and>
            cb_idempotencyKey req = Some key \<and> key \<noteq> [] \<and>
            findIdempotency st w key ''POST'' (cb_path req) = None \<and>
            cb_payloadError req = None \<and>
            find (\<lambda>item. s_workspaceId item = w \<and> s_id item = cb_serviceId req \<and> s_isActive item)
              (services st) = Some service \<and>
            cb_startsAt req = Some start \<and>
            isWithinAvailabilityRule zone st w (s_id service) start
              (addMinutes start (s_durationMin service)) (s_durationMin service) \<and>
            \<not> isBookingOverlapping st w start (addMinutes start (s_durationMin service)) None)"
proof -
  have "fst (publicCreateBooking zone w fresh req st) = resp"
       "snd (publicCreateBooking zone w fresh req st) = st'"
    using assms by simp_all
  then show ?thesis
    unfolding publicCreateBooking_def Let_def split_def
    by (auto split: option.splits if_splits simp: truthy_def)
qed

lemma publicCreateBooking_success:
  assumes "cb_idempotencyKey req = Some key" and "key \<noteq> []"
      and "findIdempotency st w key ''POST'' (cb_path req) = None"
      and "cb_payloadError req = None"
      and "find (\<lambda>item. s_workspaceId item = w \<and> s_id item = cb_serviceId req \<and> s_isActive item)
              (services st) = Some service"
      and "cb_startsAt req = Some start"
      and "isWithinAvailabilityRule zone st w (s_id service) start
              (addMinutes start (s_durationMin service)) (s_durationMin service)"
      and "\<not> isBookingOverlapping st w start (addMinutes start (s_durationMin service)) None"
  shows "\<exists>snap st4.
           publicCreateBooking zone w fresh req st =
             (Created (renderSnapshot
                         (saveIdempotency (f_now fresh) w key ''POST'' (cb_path req)
                            (cb_requestHash req) snap st4) snap),
              saveIdempotency (f_now fresh) w key ''POST'' (cb_path req)
                (cb_requestHash req) snap st4) \<and>
           snap_booking snap = length (bookings st) \<and>
           bookings st4 = bookings st @
              [\<lparr>b_id = f_bookingId fresh, b_workspaceId = w, b_serviceId = s_id service,
                b_startsAt = start, b_endsAt = addMinutes start (s_durationMin service),
                b_status = pending, b_deletedAt = None\<rparr>] \<and>
           idempotencyKeys st4 = idempotencyKeys st"
proof -
  let ?b = "\<lparr>b_id = f_bookingId fresh, b_workspaceId = w, b_serviceId = s_id service,
             b_startsAt = start, b_endsAt = addMinutes start (s_durationMin service),
             b_status = pending, b_deletedAt = None\<rparr>"
  let ?st3 = "enqueueJob (f_reminderJobId fresh) w booking_reminder (start - 24 * 60 * 60 * 1000)
                (f_bookingId fresh) (Some high)
                (emitEvent w ''booking.created'' ''booking'' (f_bookingId fresh)
                   (BookingCreatedPayload start (s_id service))
                   (st\<lparr>bookings := bookings st @ [?b]\<rparr>))"
  let ?P = "\<lambda>template. ft_workspaceId template = w \<and>
                         Some (ft_id template) = s_bookingFormTemplateId service"
  have tk: "truthy (Some key)" using assms(2) by (simp add: truthy_def)
  show ?thesis
  proof (cases "truthy (s_bookingFormTemplateId service) \<and> find ?P (formTemplates st) \<noteq> None")
    case False
    show ?thesis
      apply (rule exI [of _ "\<lparr>snap_booking = length (bookings st), snap_formRequest = None\<rparr>"])
      apply (rule exI [of _ ?st3])
      using False
      apply (auto simp: publicCreateBooking_def Let_def split_def assms tk)
      done
  next
    case True
    then obtain template where t: "find ?P (formTemplates st) = Some template" by auto
    let ?cfr = "createFormRequest fresh w (f_bookingId fresh) (ft_id template)
                  (addHours (f_now fresh) 48) ?st3"
    show ?thesis
      apply (rule exI [of _ "\<lparr>snap_booking = length (bookings st),
               snap_formRequest = Some \<lparr>v_id = fr_id (fst ?cfr), v_status = fr_status (fst ?cfr),
                                        v_publicToken = fr_publicToken (fst ?cfr),
                                        v_dueAt = fr_dueAt (fst ?cfr)\<rparr>\<rparr>"])
      apply (rule exI [of _ "emitEvent w ''form.requested'' ''form_request'' (fr_id (fst ?cfr))
                               (FormRequestedPayload (f_bookingId fresh)) (snd ?cfr)"])
      using True
      apply (simp add: publicCreateBooking_def Let_def split_def assms tk t)
      done
  qed
qed


lemma publicCreateBooking_created:
  assumes "publicCreateBooking zone w fresh req st = (Created v, st')"
  shows "\<exists>(service :: Service) start key snap.
            cb_idempotencyKey req = Some key \<and> key \<noteq> [] \<and>
            findIdempotency st w key ''POST'' (cb_path req) = None \<and>
            \<not> isBookingOverlapping st w start (addMinutes start (s_durationMin service)) None \<and>
            bookings st' = bookings st @
              [\<lparr>b_id = f_bookingId fresh, b_workspaceId = w, b_serviceId = s_id service,
                b_startsAt = start, b_endsAt = addMinutes start (s_durationMin service),
                b_status = pending, b_deletedAt = None\<rparr>] \<and>
            idempotencyKeys st' = idempotencyKeys st @
              [\<lparr>ik_workspaceId = w, ik_key = key, ik_method = ''POST'', ik_path = cb_path req,
                ik_requestHash = cb_requestHash req, ik_responseSnapshot = snap,
                ik_expiresAt = addDays (f_now fresh) 1\<rparr>] \<and>
            snap_booking snap = length (bookings st) \<and>
            v = renderSnapshot st' snap"
proof -
  from publicCreateBooking_cases [OF assms] obtain service start key where
    c: "cb_idempotencyKey req = Some key" "key \<noteq> []"
       "findIdempotency st w key ''POST'' (cb_path req) = None"
       "cb_payloadError req = None"
       "find (\<lambda>item. s_workspaceId item = w \<and> s_id item = cb_serviceId req \<and> s_isActive item)
              (services st) = Some service"
       "cb_startsAt req = Some start"
       "isWithinAvailabilityRule zone st w (s_id service) start
              (addMinutes start (s_durationMin service)) (s_durationMin service)"
       "\<not> isBookingOverlapping st w start (addMinutes start (s_durationMin service)) None"
    by auto
  from publicCreateBooking_success [OF c, of fresh] obtain snap st4 where
    e: "publicCreateBooking zone w fresh req st =
             (Created (renderSnapshot
                         (saveIdempotency (f_now fresh) w key ''POST'' (cb_path req)
                            (cb_requestHash req) snap st4) snap),
              saveIdempotency (f_now fresh) w key ''POST'' (cb_path req)
                (cb_requestHash req) snap st4)"
    and s: "snap_booking snap = length (bookings st)"
    and b: "bookings st4 = bookings st @
              [\<lparr>b_id = f_bookingId fresh, b_workspaceId = w, b_serviceId = s_id service,
                b_startsAt = start, b_endsAt = addMinutes start (s_durationMin service),
                b_status = pending, b_deletedAt = None\<rparr>]"
    and k: "idempotencyKeys st4 = idempotencyKeys st"
    by blast
  from e assms have st': "st' = saveIdempotency (f_now fresh) w key ''POST'' (cb_path req)
                (cb_requestHash req) snap st4"
    and v: "v = renderSnapshot st' snap"
    by simp_all
  have "cb_idempotencyKey req = Some key \<and> key \<noteq> [] \<and>
            findIdempotency st w key ''POST'' (cb_path req) = None \<and>
            \<not> isBookingOverlapping st w start (addMinutes start (s_durationMin service)) None \<and>
            bookings st' = bookings st @
              [\<lparr>b_id = f_bookingId fresh, b_workspaceId = w, b_serviceId = s_id service,
                b_startsAt = start, b_endsAt = addMinutes start (s_durationMin service),
                b_status = pending, b_deletedAt = None\<rparr>] \<and>
            idempotencyKeys st' = idempotencyKeys st @
              [\<lparr>ik_workspaceId = w, ik_key = key, ik_method = ''POST'', ik_path = cb_path req,
                ik_requestHash = cb_requestHash req, ik_responseSnapshot = snap,
                ik_expiresAt = addDays (f_now fresh) 1\<rparr>] \<and>
            snap_booking snap = length (bookings st) \<and>
            v = renderSnapshot st' snap"
    using c s v by (simp add: st' b k)
  then show ?thesis by - (intro exI, assumption)
qed

lemma rescheduleBooking_bookings:
  assumes "rescheduleBooking zone w bid input st = (res, st')"
  shows "bookings st' = bookings st \<or>
         (\<exists>b service start.
            find (isLiveBooking w bid) (bookings st) = Some b \<and>
            find (\<lambda>item. s_id item = b_serviceId b \<and> s_workspaceId item = w) (services st)
              = Some service \<and>
            b_status b \<noteq> completed \<and> b_status b \<noteq> cancelled \<and> b_status b \<noteq> no_show \<and>
            \<not> isBookingOverlapping st w start (addMinutes start (s_durationMin service))
                (Some (b_id b)) \<and>
            bookings st' = updateFirst (isLiveBooking w bid)
              (\<lambda>item. item\<lparr>b_startsAt := start,
                             b_endsAt := addMinutes start (s_durationMin service)\<rparr>) (bookings st))"
proof -
  have "snd (rescheduleBooking zone w bid input st) = st'" using assms by simp
  then show ?thesis
    unfolding rescheduleBooking_def Let_def
    by (auto split: option.splits if_splits StartsAtInput.splits)
qed

lemma patchBookingStatus_bookings:
  assumes "patchBookingStatus w bid raw st = (res, st')"
  shows "bookings st' = bookings st \<or>
         (\<exists>b t. find (isLiveBooking w bid) (bookings st) = Some b \<and>
            t \<in> set (transitions (b_status b)) \<and>
            bookings st' = updateFirst (isLiveBooking w bid)
              (\<lambda>item. item\<lparr>b_status := t\<rparr>) (bookings st))"
proof -
  have s: "snd (patchBookingStatus w bid raw st) = st'" using assms by simp
  then show ?thesis
    unfolding patchBookingStatus_def Let_def split_def
    by (auto split: option.splits if_splits)
qed

lemma deleteBooking_bookings:
  assumes "deleteBooking w bid now st = (res, st')"
  shows "bookings st' = bookings st \<or>
         (\<exists>b. find (isLiveBooking w bid) (bookings st) = Some b \<and>
            bookings st' = updateFirst (isLiveBooking w bid)
              (\<lambda>item. item\<lparr>b_status := cancelled, b_deletedAt := Some now\<rparr>) (bookings st))"
proof -
  have "snd (deleteBooking w bid now st) = st'" using assms by simp
  then show ?thesis
    unfolding deleteBooking_def Let_def
    by (auto split: option.splits)
qed

lemma clash_sym: "clash a b \<longleftrightarrow> clash b a"
  by (auto simp: clash_def)

lemma noOverlap_append:
  "noOverlap (xs @ [b]) \<longleftrightarrow> noOverlap xs \<and> (\<forall>c \<in> set xs. \<not> clash c b)"
  by (induction xs) (auto simp: list_all_iff)

lemma set_updateFirst:
  "find P xs = Some b \<Longrightarrow> set (updateFirst P f xs) \<subseteq> insert (f b) (set xs)"
  by (induction xs) (auto split: if_splits)

lemma map_id_updateFirst:
  "(\<And>x. g (f x) = g x) \<Longrightarrow> map g (updateFirst P f xs) = map g xs"
  by (induction xs) auto

text \<open>Replacing the found booking by one that clashes with nothing new keeps the invariant.\<close>

lemma noOverlap_updateFirst_weaker:
  assumes "find P xs = Some b" and "\<And>c. clash (f b) c \<Longrightarrow> clash b c" and "noOverlap xs"
  shows "noOverlap (updateFirst P f xs)"
  using assms
proof (induction xs)
  case Nil
  then show ?case by simp
next
  case (Cons x xs)
  show ?case
  proof (cases "P x")
    case True
    with Cons.prems have "x = b" by simp
    with True Cons.prems show ?thesis by (auto simp: list_all_iff)
  next
    case False
    with Cons.prems have f: "find P xs = Some b" by simp
    then have b: "b \<in> set xs" by (auto dest: find_SomeD)
    from Cons.prems have nx: "\<forall>c \<in> set xs. \<not> clash x c" and no: "noOverlap xs"
      by (auto simp: list_all_iff)
    have "\<not> clash x (f b)"
      using nx b Cons.prems(2) clash_sym by blast
    with nx set_updateFirst [OF f, of f] have "\<forall>c \<in> set (updateFirst P f xs). \<not> clash x c"
      by auto
    with False Cons.IH [OF f Cons.prems(2) no] show ?thesis
      by (simp add: list_all_iff)
  qed
qed

text \<open>Moving the found booking to an interval that clashes with no booking of another id
  keeps the invariant, provided ids are distinct.\<close>

lemma noOverlap_updateFirst_moved:
  assumes "find P xs = Some b" and "distinct (map b_id xs)" and "noOverlap xs"
      and "\<And>c. c \<in> set xs \<Longrightarrow> b_id c \<noteq> b_id b \<Longrightarrow> \<not> clash (f b) c"
  shows "noOverlap (updateFirst P f xs)"
  using assms
proof (induction xs)
  case Nil
  then show ?case by simp
next
  case (Cons x xs)
  show ?case
  proof (cases "P x")
    case True
    with Cons.prems(1) have xb: "x = b" by simp
    have "\<forall>c \<in> set xs. \<not> clash (f b) c"
    proof
      fix c assume c: "c \<in> set xs"
      with Cons.prems(2) xb have "b_id c \<noteq> b_id b" by (auto simp: image_iff)
      with Cons.prems(4) c show "\<not> clash (f b) c" by simp
    qed
    with True xb Cons.prems(3) show ?thesis by (simp add: list_all_iff)
  next
    case False
    with Cons.prems have f: "find P xs = Some b" by simp
    then have b: "b \<in> set xs" by (auto dest: find_SomeD)
    from Cons.prems have nx: "\<forall>c \<in> set xs. \<not> clash x c" and no: "noOverlap xs"
      and d: "distinct (map b_id xs)"
      by (auto simp: list_all_iff)
    from Cons.prems(2) b have "b_id x \<noteq> b_id b" by (auto simp: image_iff)
    with Cons.prems(4) [of x] have "\<not> clash x (f b)" using clash_sym by auto
    with nx set_updateFirst [OF f, of f] have "\<forall>c \<in> set (updateFirst P f xs). \<not> clash x c"
      by auto
    moreover have "noOverlap (updateFirst P f xs)"
      using Cons.IH [OF f d no] Cons.prems(4) by simp
    ultimately show ?thesis using False by (simp add: list_all_iff)
  qed
qed

lemma guard_no_clash:
  assumes "\<not> isBookingOverlapping st w s e excl" and "c \<in> set (bookings st)"
      and "b_workspaceId b = w" and "b_startsAt b = s" and "b_endsAt b = e"
      and "excl = None \<or> excl \<noteq> Some (b_id c)"
  shows "\<not> clash b c"
  using assms
  by (auto simp: isBookingOverlapping_def list_ex_iff clash_def isActive_def truthy_def
      split: if_splits)

lemma create_preserves:
  assumes "storeInv st" and "f_bookingId fresh \<notin> set (map b_id (bookings st))"
      and "publicCreateBooking zone w fresh req st = (resp, st')"
  shows "storeInv st'"
proof (cases resp)
  case (Failed e)
  with publicCreateBooking_cases [OF assms(3)] assms(1) show ?thesis by auto
next
  case (Replayed v)
  with publicCreateBooking_cases [OF assms(3)] assms(1) show ?thesis by auto
next
  case (Created v)
  with assms(3) have "publicCreateBooking zone w fresh req st = (Created v, st')" by simp
  from publicCreateBooking_created [OF this] obtain service :: Service and start where
    g: "\<not> isBookingOverlapping st w start (addMinutes start (s_durationMin service)) None"
    and bs: "bookings st' = bookings st @
              [\<lparr>b_id = f_bookingId fresh, b_workspaceId = w, b_serviceId = s_id service,
                b_startsAt = start, b_endsAt = addMinutes start (s_durationMin service),
                b_status = pending, b_deletedAt = None\<rparr>]"
    by blast
  let ?b = "\<lparr>b_id = f_bookingId fresh, b_workspaceId = w, b_serviceId = s_id service,
                b_startsAt = start, b_endsAt = addMinutes start (s_durationMin service),
                b_status = pending, b_deletedAt = None\<rparr>"
  have "\<not> clash c ?b" if "c \<in> set (bookings st)" for c
    using guard_no_clash [OF g that, of ?b] clash_sym by simp
  with assms(1,2) bs show ?thesis
    by (simp add: storeInv_def noOverlap_append)
qed

lemma reschedule_preserves:
  assumes "storeInv st" and "rescheduleBooking zone w bid input st = (res, st')"
  shows "storeInv st'"
  using rescheduleBooking_bookings [OF assms(2)]
proof (elim disjE exE conjE)
  assume "bookings st' = bookings st"
  with assms(1) show ?thesis by (simp add: storeInv_def)
next
  fix b service start
  let ?f = "\<lambda>item. item\<lparr>b_startsAt := start,
                           b_endsAt := addMinutes start (s_durationMin service)\<rparr>"
  assume fb: "find (isLiveBooking w bid) (bookings st) = Some b"
     and g: "\<not> isBookingOverlapping st w start (addMinutes start (s_durationMin service))
                (Some (b_id b))"
     and bs: "bookings st' = updateFirst (isLiveBooking w bid) ?f (bookings st)"
  from fb have w: "b_workspaceId b = w" by (auto dest: find_SomeD simp: isLiveBooking_def)
  have nc: "\<not> clash (?f b) c" if "c \<in> set (bookings st)" "b_id c \<noteq> b_id b" for c
    using guard_no_clash [OF g that(1), of "?f b"] w that(2) by simp
  have "noOverlap (updateFirst (isLiveBooking w bid) ?f (bookings st))"
    by (rule noOverlap_updateFirst_moved [OF fb]) (use assms(1) nc in \<open>auto simp: storeInv_def\<close>)
  moreover have "map b_id (updateFirst (isLiveBooking w bid) ?f (bookings st)) =
                 map b_id (bookings st)"
    by (rule map_id_updateFirst) simp
  ultimately show ?thesis using assms(1) bs by (simp add: storeInv_def)
qed

lemma transition_preserves:
  assumes "storeInv st" and "patchBookingStatus w bid raw st = (res, st')"
  shows "storeInv st'"
  using patchBookingStatus_bookings [OF assms(2)]
proof (elim disjE exE conjE)
  assume "bookings st' = bookings st"
  with assms(1) show ?thesis by (simp add: storeInv_def)
next
  fix b t
  let ?f = "\<lambda>item. item\<lparr>b_status := t\<rparr>"
  assume fb: "find (isLiveBooking w bid) (bookings st) = Some b"
     and t: "t \<in> set (transitions (b_status b))"
     and bs: "bookings st' = updateFirst (isLiveBooking w bid) ?f (bookings st)"
  from t have "isActive b" by (cases "b_status b") (auto simp: isActive_def)
  then have wk: "clash b c" if "clash (?f b) c" for c
    using that by (auto simp: clash_def)
  have "noOverlap (updateFirst (isLiveBooking w bid) ?f (bookings st))"
    by (rule noOverlap_updateFirst_weaker [OF fb]) (use assms(1) wk in \<open>auto simp: storeInv_def\<close>)
  moreover have "map b_id (updateFirst (isLiveBooking w bid) ?f (bookings st)) =
                 map b_id (bookings st)"
    by (rule map_id_updateFirst) simp
  ultimately show ?thesis using assms(1) bs by (simp add: storeInv_def)
qed

lemma softDelete_preserves:
  assumes "storeInv st" and "deleteBooking w bid now st = (res, st')"
  shows "storeInv st'"
  using deleteBooking_bookings [OF assms(2)]
proof (elim disjE exE conjE)
  assume "bookings st' = bookings st"
  with assms(1) show ?thesis by (simp add: storeInv_def)
next
  fix b
  let ?f = "\<lambda>item. item\<lparr>b_status := cancelled, b_deletedAt := Some now\<rparr>"
  assume fb: "find (isLiveBooking w bid) (bookings st) = Some b"
     and bs: "bookings st' = updateFirst (isLiveBooking w bid) ?f (bookings st)"
  have wk: "clash b c" if "clash (?f b) c" for c
    using that by (auto simp: clash_def isActive_def)
  have "noOverlap (updateFirst (isLiveBooking w bid) ?f (bookings st))"
    by (rule noOverlap_updateFirst_weaker [OF fb]) (use assms(1) wk in \<open>auto simp: storeInv_def\<close>)
  moreover have "map b_id (updateFirst (isLiveBooking w bid) ?f (bookings st)) =
                 map b_id (bookings st)"
    by (rule map_id_updateFirst) simp
  ultimately show ?thesis using assms(1) bs by (simp add: storeInv_def)
qed

lemma reachable_storeInv: "reachable st \<Longrightarrow> storeInv st"
proof (induction rule: reachable.induct)
  case init
  show ?case by (simp add: storeInv_def emptyState_def)
next
  case (other st st')
  then show ?case by (simp add: storeInv_def)
next
  case (create st fresh zone workspaceId req resp st')
  then show ?case using create_preserves by blast
next
  case (reschedule st zone workspaceId bookingId startsAtInput res st')
  then show ?case using reschedule_preserves by blast
next
  case (transition st workspaceId bookingId rawStatus res st')
  then show ?case using transition_preserves by blast
next
  case (softDelete st workspaceId bookingId now res st')
  then show ?case using softDelete_preserves by blast
qed

lemma noOverlap_nth:
  assumes "noOverlap bs" and "i < length bs" and "j < length bs" and "i \<noteq> j"
  shows "\<not> clash (bs ! i) (bs ! j)"
proof -
  have s: "noOverlap xs = sorted_wrt (\<lambda>a b. \<not> clash a b) xs" for xs
    by (induction xs) (auto simp: list_all_iff)
  from assms(1) have sw: "sorted_wrt (\<lambda>a b. \<not> clash a b) bs" by (simp add: s)
  show ?thesis
  proof (cases "i < j")
    case True
    with sw assms(3) show ?thesis by (simp add: sorted_wrt_iff_nth_less)
  next
    case False
    with assms(4) have "j < i" by simp
    with sw assms(2) have "\<not> clash (bs ! j) (bs ! i)" by (simp add: sorted_wrt_iff_nth_less)
    then show ?thesis using clash_sym by blast
  qed
qed

lemmas ex_create_defs = ex_fresh_def ex_request_def ex_open_def ex_after_first_def
  ex_rules_store_def ex_defs ex_weekly_def ex_utc_def

lemma ex_within:
  "isWithinAvailabilityRule ex_utc (ex_open\<lparr>bookings := bs, automationEvents := es,
       scheduledJobs := js, idempotencyKeys := ks\<rparr>) ''w1'' ''s1'' 1710147600000 1710149400000 30"
  "isWithinAvailabilityRule ex_utc (ex_open\<lparr>bookings := bs, automationEvents := es,
       scheduledJobs := js, idempotencyKeys := ks\<rparr>) ''w1'' ''s1'' 1710149400000 1710151200000 30"
  "isWithinAvailabilityRule ex_utc ex_open ''w1'' ''s1'' 1710147600000 1710149400000 30"
  by (simp_all add: isWithinAvailabilityRule_def resolveAvailabilityForDate_def Let_def
        ex_create_defs toAvailabilityWindow_def dateAtTimeInTimeZoneIso_def minutesOf_def
        defaultStep_def resolveRuleType_def isBlockedByException_def)

lemma ex_first_creation:
  "publicCreateBooking ex_utc ''w1'' (ex_fresh ''b1'') (ex_request ''k1'' ''h1'' 1710147600000)
     ex_open =
   (Created (Some \<lparr>b_id = ''b1'', b_workspaceId = ''w1'', b_serviceId = ''s1'',
                   b_startsAt = 1710147600000, b_endsAt = 1710149400000, b_status = pending,
                   b_deletedAt = None\<rparr>, None), ex_after_first)"
  using ex_within(3)
  by (simp add: publicCreateBooking_def Let_def truthy_def findIdempotency_def
        isBookingOverlapping_def emitEvent_def enqueueJob_def saveIdempotency_def
        renderSnapshot_def addMinutes_def addDays_def ex_create_defs)

text \<open>
  Claim C1. In every state reachable through public booking creation, reschedule, status
  transition and soft delete (and any step that leaves the bookings alone), two different
  bookings of the same workspace that are neither cancelled nor no-shows do not overlap:
  not both \<open>b1.start < b2.end\<close> and \<open>b2.start < b1.end\<close>. Each of the four operations
  preserves the invariant (\<open>create_preserves\<close>, \<open>reschedule_preserves\<close>,
  \<open>transition_preserves\<close>, \<open>softDelete_preserves\<close>).
\<close>

theorem no_overlap_invariant:
  assumes "reachable st"
      and "i < length (bookings st)" and "j < length (bookings st)" and "i \<noteq> j"
  shows "\<not> (b_workspaceId (bookings st ! i) = b_workspaceId (bookings st ! j) \<and>
            b_status (bookings st ! i) \<notin> {cancelled, no_show} \<and>
            b_status (bookings st ! j) \<notin> {cancelled, no_show} \<and>
            b_startsAt (bookings st ! i) < b_endsAt (bookings st ! j) \<and>
            b_startsAt (bookings st ! j) < b_endsAt (bookings st ! i))"
  using noOverlap_nth [OF _ assms(2,3,4)] reachable_storeInv [OF assms(1)]
  by (auto simp: storeInv_def clash_def isActive_def)

lemma ex_second_creation:
  "bookings (snd (publicCreateBooking ex_utc ''w1'' (ex_fresh ''b2'')
                    (ex_request ''k2'' ''h2'' 1710149400000) ex_after_first)) =
   [\<lparr>b_id = ''b1'', b_workspaceId = ''w1'', b_serviceId = ''s1'',
      b_startsAt = 1710147600000, b_endsAt = 1710149400000, b_status = pending,
      b_deletedAt = None\<rparr>,
    \<lparr>b_id = ''b2'', b_workspaceId = ''w1'', b_serviceId = ''s1'',
      b_startsAt = 1710149400000, b_endsAt = 1710151200000, b_status = pending,
      b_deletedAt = None\<rparr>]"
  using ex_within(2)
  by (simp add: publicCreateBooking_def Let_def truthy_def findIdempotency_def
        isBookingOverlapping_def addMinutes_def ex_create_defs)

theorem no_overlap_invariant_witness:
  "reachable (snd (publicCreateBooking ex_utc ''w1'' (ex_fresh ''b2'')
                     (ex_request ''k2'' ''h2'' 1710149400000) ex_after_first)) \<and>
   bookings (snd (publicCreateBooking ex_utc ''w1'' (ex_fresh ''b2'')
                    (ex_request ''k2'' ''h2'' 1710149400000) ex_after_first)) =
   [\<lparr>b_id = ''b1'', b_workspaceId = ''w1'', b_serviceId = ''s1'',
      b_startsAt = 1710147600000, b_endsAt = 1710149400000, b_status = pending,
      b_deletedAt = None\<rparr>,
    \<lparr>b_id = ''b2'', b_workspaceId = ''w1'', b_serviceId = ''s1'',
      b_startsAt = 1710149400000, b_endsAt = 1710151200000, b_status = pending,
      b_deletedAt = None\<rparr>] \<and>
   \<not> (1710147600000 < (1710151200000 :: int) \<and> 1710149400000 < (1710149400000 :: int))"
proof -
  let ?S = "snd (publicCreateBooking ex_utc ''w1'' (ex_fresh ''b2'')
                   (ex_request ''k2'' ''h2'' 1710149400000) ex_after_first)"
  have r1: "reachable ex_open"
    by (rule reachable.other [OF reachable.init]) (simp add: ex_create_defs)
  have r2: "reachable ex_after_first"
    by (rule reachable.create [OF r1 _ ex_first_creation]) (simp add: ex_create_defs)
  have r3: "reachable ?S"
    by (rule reachable.create [OF r2, of "ex_fresh ''b2''" ex_utc "''w1''"
              "ex_request ''k2'' ''h2'' 1710149400000"
              "fst (publicCreateBooking ex_utc ''w1'' (ex_fresh ''b2'')
                      (ex_request ''k2'' ''h2'' 1710149400000) ex_after_first)"])
       (simp_all add: ex_fresh_def ex_after_first_def)
  have l: "0 < length (bookings ?S)" "1 < length (bookings ?S)" "(0::nat) \<noteq> 1"
    by (simp_all add: ex_second_creation)
  from no_overlap_invariant [OF r3 l] r3 show ?thesis
    by (simp add: ex_second_creation)
qed

lemma find_append_last:
  "find P xs = None \<Longrightarrow> P r \<Longrightarrow> find P (xs @ [r]) = Some r"
  by (induction xs) (auto split: if_splits)

lemma publicCreateBooking_existing:
  assumes "cb_idempotencyKey req = Some key" and "key \<noteq> []"
      and "findIdempotency st w key ''POST'' (cb_path req) = Some existing"
  shows "publicCreateBooking zone w fresh req st =
           (if ik_requestHash existing = cb_requestHash req
            then (Replayed (renderSnapshot st (ik_responseSnapshot existing)), st)
            else (Failed (Conflict ''Idempotency-Key reuse with different payload''), st))"
  using assms by (simp add: publicCreateBooking_def truthy_def)

text \<open>
  The ledger. For a request with an idempotency key: if a record exists for the workspace,
  key, method and path, an equal body hash replays the stored snapshot and a different hash
  fails with the Conflict error, in both cases with the state unchanged. After a creation,
  the same request submitted again at once is answered by a replay of the same snapshot,
  one booking has been added in all, and the same key with another body hash is refused.
\<close>

lemma idempotency_ledger_contract:
  "(cb_idempotencyKey req = Some key \<and> key \<noteq> [] \<and>
    findIdempotency st workspaceId key ''POST'' (cb_path req) = Some existing \<longrightarrow>
      publicCreateBooking zone workspaceId fresh req st =
        (if ik_requestHash existing = cb_requestHash req
         then (Replayed (renderSnapshot st (ik_responseSnapshot existing)), st)
         else (Failed (Conflict ''Idempotency-Key reuse with different payload''), st))) \<and>
   (publicCreateBooking zone workspaceId fresh req st = (Created v, st') \<longrightarrow>
      length (bookings st') = length (bookings st) + 1 \<and>
      publicCreateBooking zone workspaceId fresh2 req st' = (Replayed v, st') \<and>
      (cb_idempotencyKey req2 = cb_idempotencyKey req \<and> cb_path req2 = cb_path req \<and>
       cb_requestHash req2 \<noteq> cb_requestHash req \<longrightarrow>
         publicCreateBooking zone workspaceId fresh2 req2 st' =
           (Failed (Conflict ''Idempotency-Key reuse with different payload''), st')))"
proof (intro conjI impI)
  assume "cb_idempotencyKey req = Some key \<and> key \<noteq> [] \<and>
    findIdempotency st workspaceId key ''POST'' (cb_path req) = Some existing"
  then show "publicCreateBooking zone workspaceId fresh req st =
        (if ik_requestHash existing = cb_requestHash req
         then (Replayed (renderSnapshot st (ik_responseSnapshot existing)), st)
         else (Failed (Conflict ''Idempotency-Key reuse with different payload''), st))"
    using publicCreateBooking_existing by blast
next
  assume c: "publicCreateBooking zone workspaceId fresh req st = (Created v, st')"
  from publicCreateBooking_created [OF c] obtain key2 snap where
    k: "cb_idempotencyKey req = Some key2" "key2 \<noteq> []"
    and n: "findIdempotency st workspaceId key2 ''POST'' (cb_path req) = None"
    and ks: "idempotencyKeys st' = idempotencyKeys st @
              [\<lparr>ik_workspaceId = workspaceId, ik_key = key2, ik_method = ''POST'',
                ik_path = cb_path req, ik_requestHash = cb_requestHash req,
                ik_responseSnapshot = snap, ik_expiresAt = addDays (f_now fresh) 1\<rparr>]"
    and v: "v = renderSnapshot st' snap"
    and len: "length (bookings st') = length (bookings st) + 1"
    by auto
  let ?rec = "\<lparr>ik_workspaceId = workspaceId, ik_key = key2, ik_method = ''POST'',
                ik_path = cb_path req, ik_requestHash = cb_requestHash req,
                ik_responseSnapshot = snap, ik_expiresAt = addDays (f_now fresh) 1\<rparr>"
  have f: "findIdempotency st' workspaceId key2 ''POST'' (cb_path req) = Some ?rec"
    using n unfolding findIdempotency_def ks by (rule find_append_last) simp
  show "length (bookings st') = length (bookings st) + 1" by (rule len)
  show "publicCreateBooking zone workspaceId fresh2 req st' = (Replayed v, st')"
    using publicCreateBooking_existing [OF k f, of zone fresh2] v by simp
  {
    assume r: "cb_idempotencyKey req2 = cb_idempotencyKey req \<and> cb_path req2 = cb_path req \<and>
       cb_requestHash req2 \<noteq> cb_requestHash req"
    then have k2: "cb_idempotencyKey req2 = Some key2" using k by simp
    from r f have f2: "findIdempotency st' workspaceId key2 ''POST'' (cb_path req2) = Some ?rec"
      by simp
    show "publicCreateBooking zone workspaceId fresh2 req2 st' =
           (Failed (Conflict ''Idempotency-Key reuse with different payload''), st')"
      using publicCreateBooking_existing [OF k2 k(2) f2, of zone fresh2] r by auto
  }
qed

lemma idempotency_ledger_contract_example:
  "publicCreateBooking ex_utc ''w1'' (ex_fresh ''b1'') (ex_request ''k1'' ''h1'' 1710147600000)
     ex_open =
   (Created (Some \<lparr>b_id = ''b1'', b_workspaceId = ''w1'', b_serviceId = ''s1'',
                   b_startsAt = 1710147600000, b_endsAt = 1710149400000, b_status = pending,
                   b_deletedAt = None\<rparr>, None), ex_after_first) \<and>
   publicCreateBooking ex_utc ''w1'' (ex_fresh ''b9'') (ex_request ''k1'' ''h1'' 1710147600000)
     ex_after_first =
   (Replayed (Some \<lparr>b_id = ''b1'', b_workspaceId = ''w1'', b_serviceId = ''s1'',
                   b_startsAt = 1710147600000, b_endsAt = 1710149400000, b_status = pending,
                   b_deletedAt = None\<rparr>, None), ex_after_first) \<and>
   length (bookings ex_after_first) = length (bookings ex_open) + 1 \<and>
   publicCreateBooking ex_utc ''w1'' (ex_fresh ''b9'') (ex_request ''k1'' ''h2'' 1710153000000)
     ex_after_first =
   (Failed (Conflict ''Idempotency-Key reuse with different payload''), ex_after_first)"
proof -
  note c = idempotency_ledger_contract [where zone = ex_utc and workspaceId = "''w1''"
      and fresh = "ex_fresh ''b1''" and req = "ex_request ''k1'' ''h1'' 1710147600000"
      and st = ex_open and st' = ex_after_first and ?fresh2.0 = "ex_fresh ''b9''"
      and ?req2.0 = "ex_request ''k1'' ''h2'' 1710153000000", THEN conjunct2, THEN mp,
      OF ex_first_creation]
  have d: "cb_idempotencyKey (ex_request ''k1'' ''h2'' 1710153000000) =
             cb_idempotencyKey (ex_request ''k1'' ''h1'' 1710147600000) \<and>
           cb_path (ex_request ''k1'' ''h2'' 1710153000000) =
             cb_path (ex_request ''k1'' ''h1'' 1710147600000) \<and>
           cb_requestHash (ex_request ''k1'' ''h2'' 1710153000000) \<noteq>
             cb_requestHash (ex_request ''k1'' ''h1'' 1710147600000)"
    by (simp add: ex_request_def)
  from c d ex_first_creation show ?thesis by simp
qed


section \<open>The worker tick\<close>

subsection \<open>Selection of the due jobs\<close>

lemma set_insertBy [simp]: "set (insertBy cmp x xs) = insert x (set xs)"
  by (induction xs) auto

lemma set_sortBy [simp]: "set (sortBy cmp xs) = set xs"
  by (induction xs) (auto simp: sortBy_def)

lemma distinct_insertBy [simp]: "distinct (insertBy cmp x xs) \<longleftrightarrow> x \<notin> set xs \<and> distinct xs"
  by (induction xs) auto

lemma distinct_sortBy [simp]: "distinct (sortBy cmp xs) \<longleftrightarrow> distinct xs"
proof (induction xs)
  case Nil
  then show ?case by (simp add: sortBy_def)
next
  case (Cons x xs)
  have "sortBy cmp (x # xs) = insertBy cmp x (sortBy cmp xs)" by (simp add: sortBy_def)
  with Cons show ?case by simp
qed

lemma length_insertBy [simp]: "length (insertBy cmp x xs) = Suc (length xs)"
  by (induction xs) auto

lemma length_sortBy [simp]: "length (sortBy cmp xs) = length xs"
  by (induction xs) (auto simp: sortBy_def)

lemma sorted_insertBy:
  assumes total: "\<And>a b. cmp a b \<le> 0 \<or> cmp b a \<le> 0"
      and trans: "\<And>a b c. cmp a b \<le> 0 \<Longrightarrow> cmp b c \<le> 0 \<Longrightarrow> cmp a c \<le> 0"
      and "sorted_wrt (\<lambda>a b. cmp a b \<le> 0) xs"
  shows "sorted_wrt (\<lambda>a b. cmp a b \<le> 0) (insertBy cmp x xs)"
  using assms(3)
proof (induction xs)
  case Nil
  then show ?case by simp
next
  case (Cons y ys)
  show ?case
  proof (cases "cmp x y \<le> 0")
    case True
    with Cons.prems trans show ?thesis by auto
  next
    case False
    with total have "cmp y x \<le> 0" by blast
    with False Cons show ?thesis by auto
  qed
qed

lemma sorted_sortBy:
  assumes total: "\<And>a b. cmp a b \<le> 0 \<or> cmp b a \<le> 0"
      and trans: "\<And>a b c. cmp a b \<le> 0 \<Longrightarrow> cmp b c \<le> 0 \<Longrightarrow> cmp a c \<le> 0"
  shows "sorted_wrt (\<lambda>a b. cmp a b \<le> 0) (sortBy cmp xs)"
proof (induction xs)
  case Nil
  then show ?case by (simp add: sortBy_def)
next
  case (Cons x xs)
  have "sortBy cmp (x # xs) = insertBy cmp x (sortBy cmp xs)" by (simp add: sortBy_def)
  with Cons sorted_insertBy [OF total trans] show ?case by simp
qed

lemma jobCompare_le:
  "jobCompare a b \<le> 0 \<longleftrightarrow>
     priorityWeight (j_priority a) < priorityWeight (j_priority b) \<or>
     (priorityWeight (j_priority a) = priorityWeight (j_priority b) \<and> j_runAt a \<le> j_runAt b)"
  by (cases "j_priority a"; cases "j_priority b") (auto simp: jobCompare_def Let_def)

lemma jobCompare_total: "jobCompare a b \<le> 0 \<or> jobCompare b a \<le> 0"
  by (auto simp: jobCompare_le)

lemma jobCompare_trans: "jobCompare a b \<le> 0 \<Longrightarrow> jobCompare b c \<le> 0 \<Longrightarrow> jobCompare a c \<le> 0"
  by (auto simp: jobCompare_le)

lemma dueJobs_length: "length (dueJobs now jobs) \<le> 10"
  by (simp add: dueJobs_def)

lemma dueJobs_subset:
  "i \<in> set (dueJobs now jobs) \<Longrightarrow> i < length jobs \<and> isDue now (jobs ! i)"
  by (auto simp: dueJobs_def dest!: in_set_takeD)

lemma dueJobs_distinct: "distinct (dueJobs now jobs)"
  by (simp add: dueJobs_def)

lemma dueJobs_sorted:
  "sorted_wrt (\<lambda>a b. jobCompare (jobs ! a) (jobs ! b) \<le> 0) (dueJobs now jobs)"
  unfolding dueJobs_def
  by (intro sorted_wrt_take sorted_sortBy jobCompare_total) (rule jobCompare_trans)

lemma dueJobs_all:
  assumes "length (filter (\<lambda>i. isDue now (jobs ! i)) [0..<length jobs]) \<le> 10"
      and "k < length jobs" and "isDue now (jobs ! k)"
  shows "k \<in> set (dueJobs now jobs)"
  using assms by (simp add: dueJobs_def)

lemma dueJobs_first:
  assumes "i \<in> set (dueJobs now jobs)" and "k < length jobs" and "isDue now (jobs ! k)"
      and "k \<notin> set (dueJobs now jobs)"
  shows "jobCompare (jobs ! i) (jobs ! k) \<le> 0"
proof -
  let ?L = "sortBy (\<lambda>a b. jobCompare (jobs ! a) (jobs ! b))
              (filter (\<lambda>i. isDue now (jobs ! i)) [0..<length jobs])"
  have "sorted_wrt (\<lambda>a b. jobCompare (jobs ! a) (jobs ! b) \<le> 0) ?L"
    by (intro sorted_sortBy jobCompare_total) (rule jobCompare_trans)
  then have "sorted_wrt (\<lambda>a b. jobCompare (jobs ! a) (jobs ! b) \<le> 0) (take 10 ?L @ drop 10 ?L)"
    by simp
  then have s: "\<forall>x \<in> set (take 10 ?L). \<forall>y \<in> set (drop 10 ?L).
                  jobCompare (jobs ! x) (jobs ! y) \<le> 0"
    unfolding sorted_wrt_append by blast
  from assms(2,3) have "k \<in> set ?L" by simp
  then have "k \<in> set (take 10 ?L) \<or> k \<in> set (drop 10 ?L)"
    by (metis Un_iff append_take_drop_id set_append)
  with assms(4) have "k \<in> set (drop 10 ?L)" by (simp add: dueJobs_def)
  moreover from assms(1) have "i \<in> set (take 10 ?L)" by (simp add: dueJobs_def)
  ultimately show ?thesis using s by blast
qed

subsection \<open>One turn of the loop\<close>

lemma runHandler_frame [simp]:
  "scheduledJobs (snd (runHandler remind now job st)) = scheduledJobs st"
  "bookings (snd (runHandler remind now job st)) = bookings st"
  by (auto simp: runHandler_def Let_def split: JobType.splits option.splits ReminderOutcome.splits)

lemma runHandler_outcome:
  assumes "bookings st' = bookings st" and "j_jobType job' = j_jobType job"
      and "j_payloadId job' = j_payloadId job" and "j_workspaceId job' = j_workspaceId job"
  shows "fst (runHandler remind now job' st') = None \<longleftrightarrow> fst (runHandler remind now job st) = None"
  using assms
  by (auto simp: runHandler_def Let_def split: JobType.splits option.splits ReminderOutcome.splits)

lemma find_nth_distinct:
  assumes "distinct (map g xs)" and "i < length xs"
  shows "find (\<lambda>item. g item = g (xs ! i)) xs = Some (xs ! i)"
  using assms
proof (induction xs arbitrary: i)
  case Nil
  then show ?case by simp
next
  case (Cons x xs)
  show ?case
  proof (cases i)
    case 0
    then show ?thesis by simp
  next
    case (Suc n)
    with Cons.prems have "g x \<noteq> g (xs ! n)" by (auto simp: image_iff)
    with Suc Cons show ?thesis by auto
  qed
qed

lemma updateFirst_nth_distinct:
  assumes "distinct (map g xs)" and "i < length xs"
  shows "updateFirst (\<lambda>item. g item = g (xs ! i)) f xs = xs[i := f (xs ! i)]"
  using assms
proof (induction xs arbitrary: i)
  case Nil
  then show ?case by simp
next
  case (Cons x xs)
  show ?case
  proof (cases i)
    case 0
    then show ?thesis by simp
  next
    case (Suc n)
    with Cons.prems have "g x \<noteq> g (xs ! n)" by (auto simp: image_iff)
    with Suc Cons show ?thesis by auto
  qed
qed

lemma workerTurn_effect:
  assumes d: "distinct (map j_id (scheduledJobs st))" and i: "i < length (scheduledJobs st)"
  shows "bookings (workerTurn remind now i st) = bookings st \<and>
         scheduledJobs (workerTurn remind now i st) =
           (scheduledJobs st)[i := scheduledJobs (workerTurn remind now i st) ! i] \<and>
         j_id (scheduledJobs (workerTurn remind now i st) ! i) = j_id (scheduledJobs st ! i) \<and>
         j_attempts (scheduledJobs (workerTurn remind now i st) ! i) =
           j_attempts (scheduledJobs st ! i) + 1 \<and>
         (j_status (scheduledJobs (workerTurn remind now i st) ! i) = job_done \<longleftrightarrow>
            fst (runHandler remind now (scheduledJobs st ! i) st) = None) \<and>
         (j_status (scheduledJobs (workerTurn remind now i st) ! i) = job_failed \<longleftrightarrow>
            fst (runHandler remind now (scheduledJobs st ! i) st) \<noteq> None)"
proof -
  let ?jobs = "scheduledJobs st"
  let ?claimed = "(?jobs ! i)\<lparr>j_status := running, j_lockedAt := Some now,
                                j_lockOwner := Some ''local-worker-1''\<rparr>"
  let ?st1 = "claimJob now i st"
  have j1: "scheduledJobs ?st1 = ?jobs[i := ?claimed]" by (simp add: claimJob_def)
  have b1: "bookings ?st1 = bookings st" by (simp add: claimJob_def)
  have n1: "scheduledJobs ?st1 ! i = ?claimed" using i by (simp add: j1)
  have ids: "map j_id (scheduledJobs ?st1) = map j_id ?jobs"
    using i by (simp add: j1 map_update list_update_same_conv)
  have d1: "distinct (map j_id (scheduledJobs ?st1))" using d ids by simp
  have i1: "i < length (scheduledJobs ?st1)" using i by (simp add: j1)
  have jid: "j_id (scheduledJobs ?st1 ! i) = j_id (?jobs ! i)" by (simp add: n1)
  have f: "find (\<lambda>item. j_id item = j_id (scheduledJobs ?st1 ! i)) (scheduledJobs ?st1) = Some ?claimed"
    using find_nth_distinct [OF d1 i1] n1 by simp
  obtain thrown st2 where h: "runHandler remind now ?claimed ?st1 = (thrown, st2)"
    by (cases "runHandler remind now ?claimed ?st1")
  have s2: "scheduledJobs st2 = scheduledJobs ?st1" and b2: "bookings st2 = bookings st"
    using runHandler_frame [of remind now ?claimed ?st1] h b1 by simp_all
  have u: "updateFirst (\<lambda>item. j_id item = j_id (scheduledJobs ?st1 ! i)) g (scheduledJobs ?st1)
           = ?jobs[i := g ?claimed]" for g
    using updateFirst_nth_distinct [OF d1 i1, of g] n1 by (simp add: j1)
  have out: "thrown = None \<longleftrightarrow> fst (runHandler remind now (?jobs ! i) st) = None"
    using runHandler_outcome [of ?st1 st ?claimed "?jobs ! i" remind now] h b1 by simp
  show ?thesis
  proof (cases thrown)
    case None
    have "workerTurn remind now i st =
            st2\<lparr>scheduledJobs := ?jobs[i := ?claimed\<lparr>j_status := job_done,
                                                   j_attempts := j_attempts ?claimed + 1\<rparr>]\<rparr>"
      unfolding workerTurn_def Let_def processJob_def
      by (simp add: f h None s2 u del: updateFirst.simps)
    with b2 out None i show ?thesis by simp
  next
    case (Some msg)
    have "workerTurn remind now i st =
            createAlert (j_workspaceId ?claimed) ''job.failed'' critical
              (JobFailedMessage (jobTypeName (j_jobType ?claimed)) msg)
              (st2\<lparr>scheduledJobs := ?jobs[i := ?claimed\<lparr>j_status := job_failed,
                                                   j_attempts := j_attempts ?claimed + 1,
                                                   j_lastError := Some msg\<rparr>]\<rparr>)"
      unfolding workerTurn_def Let_def processJob_def
      by (simp add: f h Some s2 u del: updateFirst.simps)
    with b2 out Some i show ?thesis by simp
  qed
qed

subsection \<open>The tick\<close>

lemma runJobs_effect:
  assumes "distinct (map j_id (scheduledJobs st))" and "distinct is"
      and "\<forall>i \<in> set is. i < length (scheduledJobs st)"
  shows "bookings (runJobs remind now is st) = bookings st \<and>
         map j_id (scheduledJobs (runJobs remind now is st)) = map j_id (scheduledJobs st) \<and>
         (\<forall>k < length (scheduledJobs st). k \<notin> set is \<longrightarrow>
             scheduledJobs (runJobs remind now is st) ! k = scheduledJobs st ! k) \<and>
         (\<forall>i \<in> set is.
             j_attempts (scheduledJobs (runJobs remind now is st) ! i) =
               j_attempts (scheduledJobs st ! i) + 1 \<and>
             (j_status (scheduledJobs (runJobs remind now is st) ! i) = job_done \<longleftrightarrow>
                fst (runHandler remind now (scheduledJobs st ! i) st) = None) \<and>
             (j_status (scheduledJobs (runJobs remind now is st) ! i) = job_failed \<longleftrightarrow>
                fst (runHandler remind now (scheduledJobs st ! i) st) \<noteq> None))"
  using assms
proof (induction "is" arbitrary: st)
  case Nil
  then show ?case by simp
next
  case (Cons i rest)
  let ?jobs = "scheduledJobs st"
  let ?st2 = "workerTurn remind now i st"
  let ?F = "runJobs remind now rest ?st2"
  from Cons.prems have i: "i < length ?jobs" and ir: "i \<notin> set rest" and dr: "distinct rest"
    and br: "\<forall>k \<in> set rest. k < length ?jobs"
    by auto
  define J where "J = scheduledJobs ?st2 ! i"
  note te = workerTurn_effect [OF Cons.prems(1) i, of remind now, folded J_def]
  from te have b2: "bookings ?st2 = bookings st" by (rule conjunct1)
  from te have j2: "scheduledJobs ?st2 = ?jobs[i := J]" by (elim conjE)
  from te have jid: "j_id J = j_id (?jobs ! i)" by (elim conjE)
  from te have jat: "j_attempts J = j_attempts (?jobs ! i) + 1" by (elim conjE)
  from te have jdone: "j_status J = job_done \<longleftrightarrow>
                         fst (runHandler remind now (?jobs ! i) st) = None" by (elim conjE)
  from te have jfail: "j_status J = job_failed \<longleftrightarrow>
                         fst (runHandler remind now (?jobs ! i) st) \<noteq> None" by (elim conjE)
  have ids2: "map j_id (scheduledJobs ?st2) = map j_id ?jobs"
    using i jid by (simp add: j2 map_update list_update_same_conv)
  have len2: "length (scheduledJobs ?st2) = length ?jobs" by (simp add: j2)
  have d2: "distinct (map j_id (scheduledJobs ?st2))" using Cons.prems(1) ids2 by simp
  have br2: "\<forall>k \<in> set rest. k < length (scheduledJobs ?st2)" using br len2 by simp
  note IH = Cons.IH [OF d2 dr br2]
  have same: "scheduledJobs ?st2 ! k = ?jobs ! k" if "k \<noteq> i" for k
    using that by (simp add: j2)
  have atI: "scheduledJobs ?st2 ! i = J" using i by (simp add: j2)
  have FI: "scheduledJobs ?F ! i = J"
    using IH ir i len2 atI by simp
  have out: "fst (runHandler remind now (scheduledJobs ?st2 ! k) ?st2) = None \<longleftrightarrow>
             fst (runHandler remind now (?jobs ! k) st) = None" if "k \<noteq> i" for k
    using runHandler_outcome [OF b2, of "scheduledJobs ?st2 ! k" "?jobs ! k" remind now]
      same [OF that] by simp
  show ?case
  proof (intro conjI allI impI ballI)
    show "bookings (runJobs remind now (i # rest) st) = bookings st"
      using IH b2 by simp
    show "map j_id (scheduledJobs (runJobs remind now (i # rest) st)) = map j_id ?jobs"
      using IH ids2 by simp
  next
    fix k assume "k < length ?jobs" "k \<notin> set (i # rest)"
    then show "scheduledJobs (runJobs remind now (i # rest) st) ! k = ?jobs ! k"
      using IH len2 same [of k] by simp
  next
    fix k assume k: "k \<in> set (i # rest)"
    show "j_attempts (scheduledJobs (runJobs remind now (i # rest) st) ! k) =
            j_attempts (?jobs ! k) + 1"
    proof (cases "k = i")
      case True
      with FI jat show ?thesis by simp
    next
      case False
      with k have "k \<in> set rest" by simp
      with IH same [OF False] show ?thesis by simp
    qed
    show "j_status (scheduledJobs (runJobs remind now (i # rest) st) ! k) = job_done \<longleftrightarrow>
            fst (runHandler remind now (?jobs ! k) st) = None"
    proof (cases "k = i")
      case True
      with FI jdone show ?thesis by simp
    next
      case False
      with k have "k \<in> set rest" by simp
      with IH out [OF False] show ?thesis by simp
    qed
    show "j_status (scheduledJobs (runJobs remind now (i # rest) st) ! k) = job_failed \<longleftrightarrow>
            fst (runHandler remind now (?jobs ! k) st) \<noteq> None"
    proof (cases "k = i")
      case True
      with FI jfail show ?thesis by simp
    next
      case False
      with k have "k \<in> set rest" by simp
      with IH out [OF False] show ?thesis by (simp del: not_None_eq)
    qed
  qed
qed


lemma cleanup_frame [simp]:
  "scheduledJobs (cleanupExpiredRecords now st) = scheduledJobs st"
  "bookings (cleanupExpiredRecords now st) = bookings st"
  by (simp_all add: cleanupExpiredRecords_def)

lemma jobCompare_order:
  "jobCompare a b \<le> 0 \<longleftrightarrow>
     (j_priority a = high \<and> j_priority b \<noteq> high) \<or>
     (j_priority a = normal \<and> j_priority b = low) \<or>
     (j_priority a = j_priority b \<and> j_runAt a \<le> j_runAt b)"
  by (cases "j_priority a"; cases "j_priority b") (auto simp: jobCompare_def Let_def)

lemma filter_positions_length:
  "length (filter (\<lambda>i. P (xs ! i)) [0..<length xs]) = length (filter P xs)"
proof -
  have "filter P xs = filter P (map ((!) xs) [0..<length xs])" by (simp add: map_nth)
  also have "\<dots> = map ((!) xs) (filter (\<lambda>i. P (xs ! i)) [0..<length xs])"
    by (simp add: filter_map comp_def)
  finally show ?thesis by simp
qed

lemma dueJobs_count:
  "length (dueJobs now jobs) =
     min 10 (length (filter (\<lambda>job. j_status job = queued \<and> j_runAt job \<le> now) jobs))"
  using filter_positions_length [of "\<lambda>job. j_status job = queued \<and> j_runAt job \<le> now" jobs]
  by (simp add: dueJobs_def isDue_def min_def)

lemma dueJobs_every:
  assumes "length (filter (\<lambda>job. j_status job = queued \<and> j_runAt job \<le> now) jobs) \<le> 10"
      and "k < length jobs" and "j_status (jobs ! k) = queued" and "j_runAt (jobs ! k) \<le> now"
  shows "k \<in> set (dueJobs now jobs)"
  using assms filter_positions_length [of "\<lambda>job. j_status job = queued \<and> j_runAt job \<le> now" jobs]
  by (intro dueJobs_all) (simp_all add: isDue_def)

text \<open>Claim C9. Worker tick contract. Jobs are addressed by their position in
  \<open>scheduledJobs\<close>; a job is due when its status is \<open>queued\<close> and its run instant is not after
  \<open>now\<close>. A tick picks \<open>min 10 n\<close> distinct jobs, where \<open>n\<close> is the number of due jobs; every
  picked job is due, and with at most ten due jobs every due job is picked. The picked jobs
  are in order: a \<open>high\<close> job before any job that is not \<open>high\<close>, a \<open>normal\<close> job before a \<open>low\<close>
  one, and at equal priority the earlier run instant first; every picked job is ahead, in
  this order, of every due job that was not picked. The tick keeps the number of jobs and
  leaves the jobs it did not pick as they were. A picked job whose handler raises no
  exception ends the tick with status \<open>done\<close> and one more attempt; so a due job with no
  attempts, among at most ten due jobs, ends \<open>done\<close> with one attempt. Job ids are taken to be
  distinct, as \<open>createId\<close> provides, because \<open>processJob\<close> looks the job up by id.\<close>

theorem worker_tick_contract:
  assumes "distinct (map j_id (scheduledJobs st))"
  shows
   "(let jobs = scheduledJobs st;
         picked = dueJobs now jobs;
         due = (\<lambda>job. j_status job = queued \<and> j_runAt job \<le> now);
         ahead = (\<lambda>a b. (j_priority a = high \<and> j_priority b \<noteq> high) \<or>
                         (j_priority a = normal \<and> j_priority b = low) \<or>
                         (j_priority a = j_priority b \<and> j_runAt a \<le> j_runAt b));
         finished = (\<lambda>k. fst (runHandler remind now (jobs ! k) st) = None);
         after = scheduledJobs (runWorkerTick remind now st)
     in length picked = min 10 (length (filter due jobs)) \<and>
        distinct picked \<and>
        (\<forall>i \<in> set picked. i < length jobs \<and> due (jobs ! i)) \<and>
        (length (filter due jobs) \<le> 10 \<longrightarrow>
           (\<forall>k < length jobs. due (jobs ! k) \<longrightarrow> k \<in> set picked)) \<and>
        sorted_wrt (\<lambda>a b. ahead (jobs ! a) (jobs ! b)) picked \<and>
        (\<forall>i \<in> set picked. \<forall>k < length jobs.
            due (jobs ! k) \<and> k \<notin> set picked \<longrightarrow> ahead (jobs ! i) (jobs ! k)) \<and>
        length after = length jobs \<and>
        (\<forall>k < length jobs. k \<notin> set picked \<longrightarrow> after ! k = jobs ! k) \<and>
        (\<forall>i \<in> set picked. finished i \<longrightarrow>
            j_status (after ! i) = job_done \<and>
            j_attempts (after ! i) = j_attempts (jobs ! i) + 1) \<and>
        (\<forall>k < length jobs.
            due (jobs ! k) \<and> length (filter due jobs) \<le> 10 \<and> finished k \<and>
            j_attempts (jobs ! k) = 0 \<longrightarrow>
            j_status (after ! k) = job_done \<and> j_attempts (after ! k) = 1))"
proof -
  let ?jobs = "scheduledJobs st"
  let ?picked = "dueJobs now ?jobs"
  let ?due = "\<lambda>job. j_status job = queued \<and> j_runAt job \<le> now"
  let ?st0 = "cleanupExpiredRecords now st"
  let ?after = "scheduledJobs (runWorkerTick remind now st)"
  have d0: "distinct (map j_id (scheduledJobs ?st0))" using assms by simp
  have b0: "\<forall>i \<in> set ?picked. i < length (scheduledJobs ?st0)"
    by (auto dest: dueJobs_subset)
  note eff = runJobs_effect [OF d0 dueJobs_distinct [of now ?jobs] b0, of remind now]
  have tick: "runWorkerTick remind now st = runJobs remind now ?picked ?st0"
    by (simp add: runWorkerTick_def Let_def)
  have out: "fst (runHandler remind now (?jobs ! i) ?st0) = None \<longleftrightarrow>
             fst (runHandler remind now (?jobs ! i) st) = None" for i
    by (rule runHandler_outcome) simp_all
  have len: "length ?after = length ?jobs"
  proof -
    from eff have "map j_id ?after = map j_id ?jobs" by (simp add: tick)
    then have "length (map j_id ?after) = length (map j_id ?jobs)" by (rule arg_cong)
    then show ?thesis by simp
  qed
  have same: "?after ! k = ?jobs ! k" if "k < length ?jobs" "k \<notin> set ?picked" for k
    using eff that by (simp add: tick)
  have fin: "j_status (?after ! i) = job_done \<and>
             j_attempts (?after ! i) = j_attempts (?jobs ! i) + 1"
    if i: "i \<in> set ?picked" and h: "fst (runHandler remind now (?jobs ! i) st) = None" for i
  proof -
    from eff i have
      "j_attempts (scheduledJobs (runJobs remind now ?picked ?st0) ! i) =
         j_attempts (scheduledJobs ?st0 ! i) + 1"
      "j_status (scheduledJobs (runJobs remind now ?picked ?st0) ! i) = job_done \<longleftrightarrow>
         fst (runHandler remind now (scheduledJobs ?st0 ! i) ?st0) = None"
      by blast+
    with h out [of i] show ?thesis by (simp add: tick)
  qed
  have all: "k \<in> set ?picked"
    if "length (filter ?due ?jobs) \<le> 10" "k < length ?jobs" "?due (?jobs ! k)" for k
    using that by (intro dueJobs_every) simp_all
  have srt: "sorted_wrt (\<lambda>a b.
        (j_priority (?jobs ! a) = high \<and> j_priority (?jobs ! b) \<noteq> high) \<or>
        (j_priority (?jobs ! a) = normal \<and> j_priority (?jobs ! b) = low) \<or>
        (j_priority (?jobs ! a) = j_priority (?jobs ! b) \<and>
         j_runAt (?jobs ! a) \<le> j_runAt (?jobs ! b))) ?picked"
    using dueJobs_sorted [of ?jobs now] by (simp add: jobCompare_order)
  have ahd: "(j_priority (?jobs ! i) = high \<and> j_priority (?jobs ! k) \<noteq> high) \<or>
        (j_priority (?jobs ! i) = normal \<and> j_priority (?jobs ! k) = low) \<or>
        (j_priority (?jobs ! i) = j_priority (?jobs ! k) \<and>
         j_runAt (?jobs ! i) \<le> j_runAt (?jobs ! k))"
    if "i \<in> set ?picked" "k < length ?jobs" "?due (?jobs ! k)" "k \<notin> set ?picked" for i k
    using dueJobs_first [of i now ?jobs k] that by (simp add: jobCompare_order isDue_def)
  have sub: "i < length ?jobs \<and> ?due (?jobs ! i)" if "i \<in> set ?picked" for i
    using dueJobs_subset [OF that] by (simp add: isDue_def)
  show ?thesis
    unfolding Let_def
  proof (intro conjI ballI allI impI)
    show "length ?picked = min 10 (length (filter ?due ?jobs))" by (rule dueJobs_count)
    show "distinct ?picked" by (rule dueJobs_distinct)
    show "length ?after = length ?jobs" by (rule len)
    show "sorted_wrt (\<lambda>a b.
        (j_priority (?jobs ! a) = high \<and> j_priority (?jobs ! b) \<noteq> high) \<or>
        (j_priority (?jobs ! a) = normal \<and> j_priority (?jobs ! b) = low) \<or>
        (j_priority (?jobs ! a) = j_priority (?jobs ! b) \<and>
         j_runAt (?jobs ! a) \<le> j_runAt (?jobs ! b))) ?picked" by (rule srt)
  next
    fix i assume "i \<in> set ?picked"
    from sub [OF this]
    show "i < length ?jobs" "j_status (?jobs ! i) = queued" "j_runAt (?jobs ! i) \<le> now"
      by simp_all
  next
    fix k assume "length (filter ?due ?jobs) \<le> 10" "k < length ?jobs" "?due (?jobs ! k)"
    then show "k \<in> set ?picked" by (rule all)
  next
    fix i k assume "i \<in> set ?picked" "k < length ?jobs" "?due (?jobs ! k) \<and> k \<notin> set ?picked"
    then show "(j_priority (?jobs ! i) = high \<and> j_priority (?jobs ! k) \<noteq> high) \<or>
        (j_priority (?jobs ! i) = normal \<and> j_priority (?jobs ! k) = low) \<or>
        (j_priority (?jobs ! i) = j_priority (?jobs ! k) \<and>
         j_runAt (?jobs ! i) \<le> j_runAt (?jobs ! k))"
      using ahd [of i k] by blast
  next
    fix k assume "k < length ?jobs" "k \<notin> set ?picked"
    then show "?after ! k = ?jobs ! k" by (rule same)
  next
    fix i assume "i \<in> set ?picked" "fst (runHandler remind now (?jobs ! i) st) = None"
    from fin [OF this]
    show "j_status (?after ! i) = job_done"
         "j_attempts (?after ! i) = j_attempts (?jobs ! i) + 1" by simp_all
  next
    fix k assume k: "k < length ?jobs"
      and a: "?due (?jobs ! k) \<and> length (filter ?due ?jobs) \<le> 10 \<and>
              fst (runHandler remind now (?jobs ! k) st) = None \<and> j_attempts (?jobs ! k) = 0"
    from a k have "k \<in> set ?picked" by (intro all) simp_all
    from fin [OF this] a
    show "j_status (?after ! k) = job_done" "j_attempts (?after ! k) = 1" by simp_all
  qed
qed


text \<open>A queue of four jobs, three of them due: the tick picks the \<open>high\<close> job, then the
  \<open>normal\<close> one, then the \<open>low\<close> one; each ends \<open>done\<close> with one attempt, and the job that is
  not yet due stays queued.\<close>

theorem worker_tick_contract_witness:
  "distinct (map j_id (scheduledJobs ex_queue)) \<and>
   dueJobs 1710061200000 (scheduledJobs ex_queue) = [1, 3, 0] \<and>
   map j_priority (scheduledJobs ex_queue) = [low, high, high, normal] \<and>
   map j_attempts (scheduledJobs ex_queue) = [0, 0, 0, 0] \<and>
   j_status (scheduledJobs (runWorkerTick (\<lambda>b. Sent) 1710061200000 ex_queue) ! 0) = job_done \<and>
   j_attempts (scheduledJobs (runWorkerTick (\<lambda>b. Sent) 1710061200000 ex_queue) ! 0) = 1 \<and>
   j_status (scheduledJobs (runWorkerTick (\<lambda>b. Sent) 1710061200000 ex_queue) ! 1) = job_done \<and>
   j_attempts (scheduledJobs (runWorkerTick (\<lambda>b. Sent) 1710061200000 ex_queue) ! 1) = 1 \<and>
   j_status (scheduledJobs (runWorkerTick (\<lambda>b. Sent) 1710061200000 ex_queue) ! 2) = queued \<and>
   j_attempts (scheduledJobs (runWorkerTick (\<lambda>b. Sent) 1710061200000 ex_queue) ! 2) = 0 \<and>
   j_status (scheduledJobs (runWorkerTick (\<lambda>b. Sent) 1710061200000 ex_queue) ! 3) = job_done \<and>
   j_attempts (scheduledJobs (runWorkerTick (\<lambda>b. Sent) 1710061200000 ex_queue) ! 3) = 1"
proof -
  let ?after = "scheduledJobs (runWorkerTick (\<lambda>b. Sent) 1710061200000 ex_queue)"
  have d: "distinct (map j_id (scheduledJobs ex_queue))"
    by (simp add: ex_queue_def)
  have sel: "dueJobs 1710061200000 (scheduledJobs ex_queue) = [1, 3, 0]"
    by (simp add: dueJobs_def sortBy_def isDue_def jobCompare_def ex_queue_def upt_rec)
  have h: "fst (runHandler (\<lambda>b. Sent) 1710061200000 (scheduledJobs ex_queue ! 0) ex_queue) = None"
          "fst (runHandler (\<lambda>b. Sent) 1710061200000 (scheduledJobs ex_queue ! 1) ex_queue) = None"
          "fst (runHandler (\<lambda>b. Sent) 1710061200000 (scheduledJobs ex_queue ! 3) ex_queue) = None"
    by (simp_all add: runHandler_def ex_queue_def ex_after_first_def ex_open_def
          ex_rules_store_def ex_defs)
  have q: "map j_priority (scheduledJobs ex_queue) = [low, high, high, normal]"
          "map j_attempts (scheduledJobs ex_queue) = [0, 0, 0, 0]"
          "length (scheduledJobs ex_queue) = 4"
          "j_status (scheduledJobs ex_queue ! 2) = queued"
          "j_attempts (scheduledJobs ex_queue ! 2) = 0"
          "j_attempts (scheduledJobs ex_queue ! 0) = 0"
          "j_attempts (scheduledJobs ex_queue ! 1) = 0"
          "j_attempts (scheduledJobs ex_queue ! 3) = 0"
    by (simp_all add: ex_queue_def)
  note c = worker_tick_contract [OF d, of 1710061200000 "\<lambda>b. Sent", unfolded Let_def sel]
  from c have same: "\<forall>k < length (scheduledJobs ex_queue). k \<notin> set [1, 3, 0 :: nat] \<longrightarrow>
      ?after ! k = scheduledJobs ex_queue ! k"
    by (elim conjE)
  from c have fin: "\<forall>i \<in> set [1, 3, 0 :: nat].
      fst (runHandler (\<lambda>b. Sent) 1710061200000 (scheduledJobs ex_queue ! i) ex_queue) = None \<longrightarrow>
      j_status (?after ! i) = job_done \<and>
      j_attempts (?after ! i) = j_attempts (scheduledJobs ex_queue ! i) + 1"
    by (elim conjE)
  from same q(3) have "?after ! 2 = scheduledJobs ex_queue ! 2" by simp
  with q have k2: "j_status (?after ! 2) = queued" "j_attempts (?after ! 2) = 0" by simp_all
  from fin h q have k: "j_status (?after ! 0) = job_done" "j_attempts (?after ! 0) = 1"
      "j_status (?after ! 1) = job_done" "j_attempts (?after ! 1) = 1"
      "j_status (?after ! 3) = job_done" "j_attempts (?after ! 3) = 1"
    by simp_all
  from d sel q(1,2) k k2 show ?thesis by (intro conjI)
qed

end
